(* ===== verification/Prelude.thy ===== *)
theory Prelude
  imports Main "HOL-Library.Word" "HOL-Library.Sublist"
begin

text \<open>
  Shared vocabulary of the development: Rust's integer widths, the \<open>Result\<close> type, the
  operations of \<open>str\<close> that the sources use, and the generic lemmas on lists, options and words
  that the component theories draw on.

  A Rust \<open>str\<close> is a HOL \<open>string\<close>, one \<open>char\<close> per byte.
  Case conversion changes the ASCII letters only, and whitespace is the ASCII whitespace:
  every string the program compares against is ASCII, and results about names and paths are
  results about ASCII names and paths.
\<close>

unbundle bit_operations_syntax

section \<open>Integers and results\<close>

type_synonym u8 = "8 word"
type_synonym u16 = "16 word"
type_synonym u32 = "32 word"
type_synonym u64 = "64 word"
type_synonym usize = "64 word"
type_synonym bytes = "u8 list"

type_synonym ('e, 'a) rust_result = "'e + 'a"

abbreviation Err :: "'e \<Rightarrow> ('e, 'a) rust_result" where "Err \<equiv> Inl"
abbreviation Ok :: "'a \<Rightarrow> ('e, 'a) rust_result" where "Ok \<equiv> Inr"

definition is_ok :: "('e, 'a) rust_result \<Rightarrow> bool" where
  "is_ok r = (case r of Inl _ \<Rightarrow> False | Inr _ \<Rightarrow> True)"

definition unwrap_or :: "('e, 'a) rust_result \<Rightarrow> 'a \<Rightarrow> 'a" where
  "unwrap_or r d = (case r of Inl _ \<Rightarrow> d | Inr x \<Rightarrow> x)"

definition opt_unwrap_or :: "'a option \<Rightarrow> 'a \<Rightarrow> 'a" where
  "opt_unwrap_or r d = (case r of None \<Rightarrow> d | Some x \<Rightarrow> x)"

lemma is_ok_simps [simp]: "is_ok (Inl e) = False" "is_ok (Inr x) = True"
  by (simp_all add: is_ok_def)

lemma unwrap_or_simps [simp]: "unwrap_or (Inl e) d = d" "unwrap_or (Inr x) d = x"
  by (simp_all add: unwrap_or_def)

lemma opt_unwrap_or_simps [simp]: "opt_unwrap_or None d = d" "opt_unwrap_or (Some x) d = x"
  by (simp_all add: opt_unwrap_or_def)

section \<open>Strings\<close>

definition ascii_lower :: "char \<Rightarrow> char" where
  "ascii_lower c =
     (let n = (of_char c :: nat) in if 65 \<le> n \<and> n \<le> 90 then char_of (n + 32) else c)"

definition ascii_upper :: "char \<Rightarrow> char" where
  "ascii_upper c =
     (let n = (of_char c :: nat) in if 97 \<le> n \<and> n \<le> 122 then char_of (n - 32) else c)"

definition to_lowercase :: "string \<Rightarrow> string" where
  "to_lowercase s = map ascii_lower s"

definition to_uppercase :: "string \<Rightarrow> string" where
  "to_uppercase s = map ascii_upper s"

definition eq_ignore_ascii_case :: "string \<Rightarrow> string \<Rightarrow> bool" where
  "eq_ignore_ascii_case a b \<longleftrightarrow> to_lowercase a = to_lowercase b"

definition is_ascii_alphanumeric :: "char \<Rightarrow> bool" where
  "is_ascii_alphanumeric c =
     (let n = (of_char c :: nat)
      in (48 \<le> n \<and> n \<le> 57) \<or> (65 \<le> n \<and> n \<le> 90) \<or> (97 \<le> n \<and> n \<le> 122))"

definition is_whitespace :: "char \<Rightarrow> bool" where
  "is_whitespace c = (let n = (of_char c :: nat) in (9 \<le> n \<and> n \<le> 13) \<or> n = 32)"

definition trim_both :: "(char \<Rightarrow> bool) \<Rightarrow> string \<Rightarrow> string" where
  "trim_both P s = rev (dropWhile P (rev (dropWhile P s)))"

abbreviation trim :: "string \<Rightarrow> string" where
  "trim \<equiv> trim_both is_whitespace"

abbreviation trim_matches :: "char \<Rightarrow> string \<Rightarrow> string" where
  "trim_matches c \<equiv> trim_both (\<lambda>x. x = c)"

abbreviation starts_with :: "string \<Rightarrow> string \<Rightarrow> bool" where
  "starts_with s p \<equiv> prefix p s"

abbreviation ends_with :: "string \<Rightarrow> string \<Rightarrow> bool" where
  "ends_with s p \<equiv> suffix p s"

abbreviation contains :: "string \<Rightarrow> string \<Rightarrow> bool" where
  "contains s p \<equiv> sublist p s"

definition strip_prefix :: "string \<Rightarrow> string \<Rightarrow> string option" where
  "strip_prefix p s = (if prefix p s then Some (drop (length p) s) else None)"

fun split_on :: "char \<Rightarrow> string \<Rightarrow> string list" where
  "split_on d [] = [[]]"
| "split_on d (c # cs) =
     (if c = d then [] # split_on d cs
      else (case split_on d cs of [] \<Rightarrow> [[c]] | w # ws \<Rightarrow> (c # w) # ws))"

text \<open>\<open>str::lines\<close>: a final newline ends the last line, a carriage return before a newline is dropped.\<close>

definition strip_cr :: "string \<Rightarrow> string" where
  "strip_cr l = (if l \<noteq> [] \<and> last l = CHR 0x0D then butlast l else l)"

definition lines :: "string \<Rightarrow> string list" where
  "lines s =
     (let ls = split_on CHR 0x0A s
      in map strip_cr (butlast ls) @ (if last ls = [] then [] else [last ls]))"

text \<open>Decimal \<open>parse\<close> at an unsigned and at a signed width.\<close>

fun dec_digits :: "nat \<Rightarrow> string \<Rightarrow> nat option" where
  "dec_digits acc [] = Some acc"
| "dec_digits acc (c # cs) =
     (let n = (of_char c :: nat)
      in if 48 \<le> n \<and> n \<le> 57 then dec_digits (10 * acc + (n - 48)) cs else None)"

definition parse_unsigned :: "nat \<Rightarrow> string \<Rightarrow> nat option" where
  "parse_unsigned w s =
     (let digits = (case s of [] \<Rightarrow> [] | c # cs \<Rightarrow> if c = CHR ''+'' then cs else s)
      in if digits = [] then None
         else case dec_digits 0 digits of
                None \<Rightarrow> None
              | Some v \<Rightarrow> if v < 2 ^ w then Some v else None)"

definition parse_signed :: "nat \<Rightarrow> string \<Rightarrow> int option" where
  "parse_signed w s =
     (case s of
        [] \<Rightarrow> None
      | c # cs \<Rightarrow>
          if c = CHR ''-'' then
            (if cs = [] then None
             else case dec_digits 0 cs of
                    None \<Rightarrow> None
                  | Some v \<Rightarrow> if v \<le> 2 ^ (w - 1) then Some (- int v) else None)
          else map_option int (parse_unsigned (w - 1) s))"

text \<open>\<open>to_string\<close> of an unsigned integer.\<close>

fun dec_string :: "nat \<Rightarrow> string" where
  "dec_string n =
     (if n < 10 then [char_of (48 + n)] else dec_string (n div 10) @ [char_of (48 + n mod 10)])"

declare dec_string.simps [simp del]

text \<open>\<open>str::find\<close>: the offset of the first occurrence of a pattern.\<close>

fun find_sub :: "string \<Rightarrow> string \<Rightarrow> nat option" where
  "find_sub p [] = (if p = [] then Some 0 else None)"
| "find_sub p (c # cs) =
     (if prefix p (c # cs) then Some 0 else map_option Suc (find_sub p cs))"

text \<open>
  A literal with backslashes is written with slashes: \<open>win ''a/b''\<close> is the Rust literal
  \<^verbatim>\<open>"a\\b"\<close>.
\<close>

abbreviation backslash :: char where
  "backslash \<equiv> CHR 0x5C"

definition win :: "string \<Rightarrow> string" where
  "win s = map (\<lambda>c. if c = CHR ''/'' then backslash else c) s"

lemma ascii_lower_idem [simp]: "ascii_lower (ascii_lower c) = ascii_lower c"
  by (auto simp: ascii_lower_def Let_def)

lemma to_lowercase_idem [simp]: "to_lowercase (to_lowercase s) = to_lowercase s"
  by (simp add: to_lowercase_def)

lemma to_lowercase_Nil [simp]: "to_lowercase [] = []"
  by (simp add: to_lowercase_def)

lemma length_to_lowercase [simp]: "length (to_lowercase s) = length s"
  by (simp add: to_lowercase_def)

lemma to_lowercase_append: "to_lowercase (a @ b) = to_lowercase a @ to_lowercase b"
  by (simp add: to_lowercase_def)

lemma eq_ignore_ascii_case_refl [simp]: "eq_ignore_ascii_case s s"
  by (simp add: eq_ignore_ascii_case_def)

lemma strip_prefix_append [simp]: "strip_prefix p (p @ s) = Some s"
  by (simp add: strip_prefix_def)

lemma strip_prefix_Some: "strip_prefix p s = Some r \<longleftrightarrow> s = p @ r"
  by (auto simp: strip_prefix_def prefix_def)

lemma split_on_nonempty: "split_on d s \<noteq> []"
  by (induction s) (auto split: list.split)

lemma split_on_no_delim: "d \<notin> set s \<Longrightarrow> split_on d s = [s]"
  by (induction s) auto

lemma split_on_append:
  "d \<notin> set a \<Longrightarrow> split_on d (a @ d # b) = a # split_on d b"
  by (induction a) auto

lemma find_sub_Some:
  "find_sub p s = Some i \<Longrightarrow> i + length p \<le> length s \<and> take (length p) (drop i s) = p"
proof (induction p s arbitrary: i rule: find_sub.induct)
  case (1 p)
  then show ?case by (auto split: if_splits)
next
  case (2 p c cs)
  show ?case
  proof (cases "prefix p (c # cs)")
    case True
    with "2.prems" have "i = 0" by simp
    with True show ?thesis
      using prefix_length_le [OF True] by (auto simp: prefix_def)
  next
    case False
    with "2.prems" obtain j where "i = Suc j" and "find_sub p cs = Some j" by auto
    with "2.IH"[OF False] show ?thesis by auto
  qed
qed

section \<open>Bytes\<close>

text \<open>The well-formed byte sequences of UTF-8.\<close>

definition in_range :: "nat \<Rightarrow> nat \<Rightarrow> u8 \<Rightarrow> bool" where
  "in_range lo hi b \<longleftrightarrow> lo \<le> unat b \<and> unat b \<le> hi"

abbreviation is_cont :: "u8 \<Rightarrow> bool" where
  "is_cont \<equiv> in_range 0x80 0xBF"

fun utf8_valid :: "bytes \<Rightarrow> bool" where
  "utf8_valid [] = True"
| "utf8_valid (a # as) =
     (if in_range 0 0x7F a then utf8_valid as
      else case as of [] \<Rightarrow> False | b # bs \<Rightarrow>
        if in_range 0xC2 0xDF a then is_cont b \<and> utf8_valid bs
        else case bs of [] \<Rightarrow> False | c # cs \<Rightarrow>
          if in_range 0xE0 0xEF a then
            is_cont b \<and> is_cont c \<and> (a = 0xE0 \<longrightarrow> in_range 0xA0 0xBF b) \<and>
            (a = 0xED \<longrightarrow> in_range 0x80 0x9F b) \<and> utf8_valid cs
          else case cs of [] \<Rightarrow> False | d # ds \<Rightarrow>
            in_range 0xF0 0xF4 a \<and> is_cont b \<and> is_cont c \<and> is_cont d \<and>
            (a = 0xF0 \<longrightarrow> in_range 0x90 0xBF b) \<and> (a = 0xF4 \<longrightarrow> in_range 0x80 0x8F b) \<and>
            utf8_valid ds)"

text \<open>\<open>to_le_bytes\<close> at a width of \<open>k\<close> bytes, and the bytes of an ASCII literal.\<close>

fun le_bytes :: "nat \<Rightarrow> nat \<Rightarrow> bytes" where
  "le_bytes 0 n = []"
| "le_bytes (Suc k) n = of_nat n # le_bytes k (n div 256)"

definition ascii_bytes :: "string \<Rightarrow> bytes" where
  "ascii_bytes s = map (\<lambda>c. of_nat (of_char c)) s"

text \<open>The characters of ASCII bytes.\<close>

definition ascii_string :: "bytes \<Rightarrow> string" where
  "ascii_string bs = map (\<lambda>b. char_of (unat b)) bs"

section \<open>Hexadecimal text\<close>

definition hex_digit :: "nat \<Rightarrow> char" where
  "hex_digit n = (''0123456789abcdef'' ! n)"

definition hex_val :: "char \<Rightarrow> nat option" where
  "hex_val c =
     (let n = (of_char c :: nat)
      in if 48 \<le> n \<and> n \<le> 57 then Some (n - 48)
         else if 65 \<le> n \<and> n \<le> 70 then Some (n - 55)
         else if 97 \<le> n \<and> n \<le> 102 then Some (n - 87)
         else None)"

text \<open>\<open>format!("{:0kx}", n)\<close> for a value that fits in \<open>k\<close> digits.\<close>

fun hex_fixed :: "nat \<Rightarrow> nat \<Rightarrow> string" where
  "hex_fixed 0 n = []"
| "hex_fixed (Suc k) n = hex_fixed k (n div 16) @ [hex_digit (n mod 16)]"

fun hex_parse :: "nat \<Rightarrow> string \<Rightarrow> nat option" where
  "hex_parse acc [] = Some acc"
| "hex_parse acc (c # cs) =
     (case hex_val c of None \<Rightarrow> None | Some d \<Rightarrow> hex_parse (16 * acc + d) cs)"

text \<open>
  \<open>from_str_radix(s, 16)\<close> at an unsigned width of \<open>w\<close> bits: the empty string and a lone
  sign are errors, one leading plus sign is accepted, every other character is a digit, and the
  value fits.
\<close>

definition from_str_radix16 :: "nat \<Rightarrow> string \<Rightarrow> nat option" where
  "from_str_radix16 w s =
     (let digits = (case s of [] \<Rightarrow> [] | c # cs \<Rightarrow> if c = CHR ''+'' then cs else s)
      in if digits = [] then None
         else case hex_parse 0 digits of
                None \<Rightarrow> None
              | Some v \<Rightarrow> if v < 2 ^ w then Some v else None)"

lemma length_hex_fixed [simp]: "length (hex_fixed k n) = k"
  by (induction k arbitrary: n) auto

lemma hex_val_digit: "n < 16 \<Longrightarrow> hex_val (hex_digit n) = Some n"
proof -
  have "\<forall>n \<in> set [0..<16]. hex_val (hex_digit n) = Some n"
    by code_simp
  then show "n < 16 \<Longrightarrow> hex_val (hex_digit n) = Some n" by simp
qed

lemma hex_digit_not_special:
  "n < 16 \<Longrightarrow> hex_digit n \<noteq> CHR ''-'' \<and> hex_digit n \<noteq> CHR ''+'' \<and>
     hex_digit n \<noteq> CHR ''{'' \<and> hex_digit n \<noteq> CHR ''}'' \<and> \<not> is_whitespace (hex_digit n)"
proof -
  have "\<forall>n \<in> set [0..<16]. hex_digit n \<noteq> CHR ''-'' \<and> hex_digit n \<noteq> CHR ''+'' \<and>
     hex_digit n \<noteq> CHR ''{'' \<and> hex_digit n \<noteq> CHR ''}'' \<and> \<not> is_whitespace (hex_digit n)"
    by code_simp
  then show "n < 16 \<Longrightarrow> ?thesis" by simp
qed

lemma set_hex_fixed:
  "c \<in> set (hex_fixed k n) \<Longrightarrow> \<exists>d < 16. c = hex_digit d"
  by (induction k arbitrary: n) (auto intro: exI [of _ "_ mod 16"])

lemma hex_parse_append:
  "hex_parse acc (a @ b) = (case hex_parse acc a of None \<Rightarrow> None | Some v \<Rightarrow> hex_parse v b)"
  by (induction acc a rule: hex_parse.induct) (auto split: option.splits)

lemma hex_parse_fixed: "hex_parse acc (hex_fixed k n) = Some (acc * 16 ^ k + n mod 16 ^ k)"
proof (induction k arbitrary: n)
  case 0
  then show ?case by simp
next
  case (Suc k)
  have "n mod (16 * 16 ^ k) = 16 * (n div 16 mod 16 ^ k) + n mod 16"
    by (rule mod_mult2_eq)
  then show ?case
    by (simp add: Suc hex_parse_append hex_val_digit algebra_simps)
qed

lemma from_str_radix16_fixed:
  assumes "0 < k" and "n < 16 ^ k" and "n < 2 ^ w"
  shows "from_str_radix16 w (hex_fixed k n) = Some n"
proof -
  obtain c cs where s: "hex_fixed k n = c # cs"
    using assms(1) by (cases "hex_fixed k n") (use length_hex_fixed [of k n] in auto)
  then have "c \<noteq> CHR ''+''"
    using set_hex_fixed [of c k n] hex_digit_not_special by auto
  moreover have "hex_parse 0 (c # cs) = Some n"
    using hex_parse_fixed [of 0 k n] assms(2) s by simp
  ultimately show ?thesis
    using assms(3) by (simp add: from_str_radix16_def s)
qed

section \<open>Trimming, and bytes as hexadecimal text\<close>

lemma dropWhile_hd: "s \<noteq> [] \<Longrightarrow> \<not> P (hd s) \<Longrightarrow> dropWhile P s = s"
  by (cases s) auto

lemma trim_both_id:
  "s \<noteq> [] \<Longrightarrow> \<not> P (hd s) \<Longrightarrow> \<not> P (last s) \<Longrightarrow> trim_both P s = s"
  by (simp add: trim_both_def dropWhile_hd hd_rev)

lemma hex_fixed_Nil: "hex_fixed k n = [] \<longleftrightarrow> k = 0"
  using length_hex_fixed [of k n] by (cases "hex_fixed k n") auto

lemma hex_fixed_append:
  "b < 16 ^ j \<Longrightarrow> hex_fixed k a @ hex_fixed j b = hex_fixed (k + j) (a * 16 ^ j + b)"
proof (induction j arbitrary: b)
  case 0
  then show ?case by simp
next
  case (Suc j)
  have eq: "a * 16 ^ Suc j + b = b + 16 * (a * 16 ^ j)" by simp
  have "(a * 16 ^ Suc j + b) div 16 = a * 16 ^ j + b div 16"
    "(a * 16 ^ Suc j + b) mod 16 = b mod 16"
    unfolding eq by simp_all
  moreover have "b div 16 < 16 ^ j"
    using Suc.prems by (simp add: less_mult_imp_div_less mult.commute)
  ultimately show ?case
    using Suc.IH [of "b div 16"] by simp
qed

lemma bit_nat_less:
  fixes n :: nat
  assumes "n < 2 ^ w" and "bit n j"
  shows "j < w"
proof (rule ccontr)
  assume "\<not> j < w"
  then have "(2 :: nat) ^ w \<le> 2 ^ j" by simp
  with assms(1) have "n < 2 ^ j" by (rule order.strict_trans2)
  then have "n div 2 ^ j = 0" by simp
  with assms(2) show False by (simp add: bit_iff_odd)
qed

lemma byte_of_word:
  assumes "n < 2 ^ LENGTH('a::len)"
  shows "ucast (drop_bit k (of_nat n :: 'a word) AND 0xFF) = (of_nat (n div 2 ^ k) :: u8)"
proof (rule bit_word_eqI)
  fix i assume "i < LENGTH(8)"
  then have i: "i < 8" by simp
  have mask: "(0xFF :: 'a word) = mask 8" by (simp add: mask_eq_exp_minus_1)
  have "bit n (k + i) \<Longrightarrow> k + i < LENGTH('a)"
    by (rule bit_nat_less [OF assms])
  then show "bit (ucast (drop_bit k (of_nat n :: 'a word) AND 0xFF) :: u8) i \<longleftrightarrow>
      bit (of_nat (n div 2 ^ k) :: u8) i"
    using assms i unfolding mask by (auto simp: bit_simps simp flip: drop_bit_eq_div)
qed

lemma ucast_low_byte: "(ucast (x AND 0xFF) :: u8) = ucast (x :: 'a::len word)"
proof -
  have mask: "(0xFF :: 'a word) = mask 8" by (simp add: mask_eq_exp_minus_1)
  show ?thesis unfolding mask by (rule bit_word_eqI) (auto simp: bit_simps dest: bit_imp_le_length)
qed

text \<open>Big-endian value of a byte string.\<close>

definition be_val :: "bytes \<Rightarrow> nat" where
  "be_val bs = foldl (\<lambda>a b. a * 256 + unat b) 0 bs"

lemma be_val_snoc: "be_val (bs @ [b]) = be_val bs * 256 + unat b"
  by (simp add: be_val_def)

lemma unat_byte: "unat (b :: u8) < 256"
  using unsigned_less [of b, where ?'a = nat] by simp

lemma be_val_rev_le_bytes: "be_val (rev (le_bytes n v)) = v mod 256 ^ n"
proof (induction n arbitrary: v)
  case 0
  then show ?case by (simp add: be_val_def)
next
  case (Suc n)
  have "be_val (rev (le_bytes (Suc n) v)) = (v div 256) mod 256 ^ n * 256 + v mod 256"
    by (simp add: be_val_snoc Suc unat_of_nat)
  also have "\<dots> = v mod 256 ^ Suc n"
    by (simp add: mod_mult2_eq [of v 256 "256 ^ n", simplified mult.commute] mult.commute)
  finally show ?case .
qed

lemma length_le_bytes [simp]: "length (le_bytes n v) = n"
  by (induction n arbitrary: v) simp_all

lemma be_val_less: "be_val bs < 256 ^ length bs"
proof (induction bs rule: rev_induct)
  case Nil
  then show ?case by (simp add: be_val_def)
next
  case (snoc b bs)
  have "be_val bs * 256 + unat b < (be_val bs + 1) * 256"
    using unat_byte [of b] by simp
  also have "\<dots> \<le> 256 ^ length bs * 256"
    using snoc by (intro mult_right_mono) auto
  finally show ?case by (simp add: be_val_snoc)
qed

lemma hex_be_val: "concat (map (\<lambda>b. hex_fixed 2 (unat b)) bs) = hex_fixed (2 * length bs) (be_val bs)"
proof (induction bs rule: rev_induct)
  case Nil
  then show ?case by simp
next
  case (snoc b bs)
  have "hex_fixed (2 * length bs) (be_val bs) @ hex_fixed 2 (unat b) =
      hex_fixed (2 * length bs + 2) (be_val bs * 16 ^ 2 + unat b)"
    by (rule hex_fixed_append) (use unat_byte [of b] in simp)
  with snoc show ?case by (simp add: be_val_snoc)
qed

lemma be_val_nth:
  "i < length bs \<Longrightarrow> of_nat (be_val bs div 2 ^ (8 * (length bs - 1 - i))) = bs ! i"
proof (induction bs arbitrary: i rule: rev_induct)
  case Nil
  then show ?case by simp
next
  case (snoc b bs)
  show ?case
  proof (cases "i = length bs")
    case True
    have "(256 :: u8) = 0" by simp
    then have "(of_nat (be_val bs * 256) :: u8) = 0"
      by (simp only: of_nat_mult of_nat_numeral mult_zero_right)
    with True show ?thesis by (simp add: be_val_snoc)
  next
    case False
    with snoc.prems have i: "i < length bs" by simp
    then have "8 * (length (bs @ [b]) - 1 - i) = 8 + 8 * (length bs - 1 - i)" by simp
    then have "be_val (bs @ [b]) div 2 ^ (8 * (length (bs @ [b]) - 1 - i)) =
        be_val (bs @ [b]) div 256 div 2 ^ (8 * (length bs - 1 - i))"
      by (simp only: power_add div_mult2_eq) simp
    also have "be_val (bs @ [b]) div 256 = be_val bs"
      using unat_byte [of b] by (simp add: be_val_snoc)
    finally show ?thesis using snoc.IH [OF i] i by (simp add: nth_append)
  qed
qed

section \<open>Lists\<close>

text \<open>\<open>Iterator::find\<close>, \<open>Iterator::position\<close> and \<open>max_by_key\<close> of the standard library.\<close>

definition max_by_key :: "('a \<Rightarrow> 'k::linorder) \<Rightarrow> 'a list \<Rightarrow> 'a option" where
  "max_by_key k xs =
     (case xs of [] \<Rightarrow> None
      | y # ys \<Rightarrow> Some (foldl (\<lambda>m x. if k m \<le> k x then x else m) y ys))"

lemma foldl_max_by_key:
  fixes k :: "'a \<Rightarrow> 'k::linorder"
  shows "let m = foldl (\<lambda>m x. if k m \<le> k x then x else m) y ys
   in m \<in> set (y # ys) \<and> (\<forall>x \<in> set (y # ys). k x \<le> k m)"
proof (induction ys arbitrary: y)
  case Nil
  then show ?case by simp
next
  case (Cons a ys)
  show ?case
    using Cons [of a] Cons [of y] by (auto simp: Let_def)
qed

lemma max_by_key_Some:
  "max_by_key k xs = Some m \<Longrightarrow> m \<in> set xs \<and> (\<forall>x \<in> set xs. k x \<le> k m)"
  using foldl_max_by_key [of k] by (auto simp: max_by_key_def Let_def split: list.splits)

lemma max_by_key_None [simp]: "max_by_key k xs = None \<longleftrightarrow> xs = []"
  by (simp add: max_by_key_def split: list.split)

lemma subseq_distinct: "subseq xs ys \<Longrightarrow> distinct ys \<Longrightarrow> distinct xs"
  by (auto simp: subseq_conv_nths distinct_nthsI)

lemma subseq_set: "subseq xs ys \<Longrightarrow> set xs \<subseteq> set ys"
  by (auto simp: subseq_conv_nths dest: in_set_nthsD)

lemma distinct_lower_head:
  "distinct (map (to_lowercase \<circ> f) (x # xs)) \<Longrightarrow> y \<in> set xs \<Longrightarrow> \<not> eq_ignore_ascii_case (f y) (f x)"
  unfolding eq_ignore_ascii_case_def by (auto simp: image_iff)

lemma find_Some_in: "find P xs = Some x \<Longrightarrow> x \<in> set xs \<and> P x"
  by (auto simp: find_Some_iff)

end
