(* ===== verification/F64.thy ===== *)
theory F64
  imports Complex_Main Prelude
begin

text \<open>
  Rust's \<^verbatim>\<open>f64\<close>. The definitions that compute with floating-point numbers are polymorphic: the
  numbers are a type \<open>'f\<close> of the syntactic classes of \<open>+ - * / abs < \<le>\<close>, of which nothing is
  assumed, and the library functions and casts are the fields of the record \<open>f64_lib\<close>. What is
  proved about them at an arbitrary \<open>'f\<close> holds for IEEE arithmetic with its rounding.

  Results that depend on the arithmetic are stated at the type \<open>xreal\<close>: the real numbers with
  the two infinities and not-a-number, whose operations follow IEEE 754 on these values and are
  exact on the reals. It has no rounding, no overflow and one zero.
\<close>

section \<open>The operations\<close>

record 'f f64_lib =
  lit :: "real \<Rightarrow> 'f"
  nat_f64 :: "nat \<Rightarrow> 'f"
  int_f64 :: "int \<Rightarrow> 'f"
  f64_u64 :: "'f \<Rightarrow> u64"
  sqrt_f64 :: "'f \<Rightarrow> 'f"
  ln_f64 :: "'f \<Rightarrow> 'f"
  exp_f64 :: "'f \<Rightarrow> 'f"
  floor_f64 :: "'f \<Rightarrow> 'f"
  round_f64 :: "'f \<Rightarrow> 'f"
  powi_f64 :: "'f \<Rightarrow> nat \<Rightarrow> 'f"
  infinity_f64 :: 'f

definition sum_f64 :: "'f::plus f64_lib \<Rightarrow> 'f list \<Rightarrow> 'f" where
  "sum_f64 F xs = foldl (+) (lit F 0) xs"

definition is_nan :: "'f::ord \<Rightarrow> bool" where
  "is_nan x \<longleftrightarrow> \<not> x \<le> x"

definition f64_min :: "'f::ord \<Rightarrow> 'f \<Rightarrow> 'f" where
  "f64_min a b = (if is_nan a then b else if is_nan b then a else if b < a then b else a)"

definition f64_max :: "'f::ord \<Rightarrow> 'f \<Rightarrow> 'f" where
  "f64_max a b = (if is_nan a then b else if is_nan b then a else if a < b then b else a)"

definition f64_clamp :: "'f::ord \<Rightarrow> 'f \<Rightarrow> 'f \<Rightarrow> 'f" where
  "f64_clamp x lo hi = (let x = (if x < lo then lo else x) in if hi < x then hi else x)"

section \<open>Sorting by \<^verbatim>\<open>partial_cmp\<close>\<close>

text \<open>
  The stable sort of a slice by \<^verbatim>\<open>partial_cmp\<close>, incomparable values being equal. The comparison
  is a total preorder as long as no value is not-a-number, and the result of the library's sort
  is determined by that; with not-a-number the library leaves the order open.
\<close>

fun insert_by :: "('a \<Rightarrow> 'a \<Rightarrow> bool) \<Rightarrow> 'a \<Rightarrow> 'a list \<Rightarrow> 'a list" where
  "insert_by lt x [] = [x]"
| "insert_by lt x (y # ys) = (if lt y x then y # insert_by lt x ys else x # y # ys)"

definition sort_by :: "('a \<Rightarrow> 'a \<Rightarrow> bool) \<Rightarrow> 'a list \<Rightarrow> 'a list" where
  "sort_by lt xs = foldr (insert_by lt) xs []"

lemma set_insert_by [simp]: "set (insert_by lt x xs) = insert x (set xs)"
  by (induction xs) auto

lemma length_insert_by [simp]: "length (insert_by lt x xs) = Suc (length xs)"
  by (induction xs) auto

lemma length_sort_by [simp]: "length (sort_by lt xs) = length xs"
  by (induction xs) (simp_all add: sort_by_def)

lemma set_sort_by [simp]: "set (sort_by lt xs) = set xs"
  by (induction xs) (simp_all add: sort_by_def)

lemma sort_by_Nil_iff [simp]: "sort_by lt xs = [] \<longleftrightarrow> xs = []"
  by (metis length_0_conv length_sort_by)

text \<open>What a comparison has to satisfy on the values that occur.\<close>

locale weak_order =
  fixes lt :: "'a \<Rightarrow> 'a \<Rightarrow> bool" and num :: "'a \<Rightarrow> bool"
  assumes asym: "num x \<Longrightarrow> num y \<Longrightarrow> lt x y \<Longrightarrow> \<not> lt y x"
    and neg_trans: "num x \<Longrightarrow> num y \<Longrightarrow> num z \<Longrightarrow> \<not> lt y x \<Longrightarrow> \<not> lt z y \<Longrightarrow> \<not> lt z x"
begin

definition ordered :: "'a list \<Rightarrow> bool" where
  "ordered xs \<longleftrightarrow> sorted_wrt (\<lambda>x y. \<not> lt y x) xs"

lemma insert_ordered: "ordered xs \<Longrightarrow> list_all num (x # xs) \<Longrightarrow> ordered (insert_by lt x xs)"
proof (induction xs)
  case (Cons y ys)
  show ?case
  proof (cases "lt y x")
    case True
    then have "\<not> lt x y" using Cons.prems asym by auto
    then show ?thesis using Cons True by (auto simp: ordered_def)
  next
    case False
    have "\<not> lt z x" if "z \<in> set ys" for z
      using that False Cons.prems neg_trans [of x y z] by (auto simp: ordered_def list_all_iff)
    then show ?thesis using Cons.prems False by (auto simp: ordered_def)
  qed
qed (simp add: ordered_def)

lemma sort_by_ordered: "list_all num xs \<Longrightarrow> ordered (sort_by lt xs)"
proof (induction xs)
  case (Cons x xs)
  then have "ordered (insert_by lt x (sort_by lt xs))" by (intro insert_ordered) (auto simp: list_all_iff)
  then show ?case by (simp add: sort_by_def)
qed (simp add: sort_by_def ordered_def)

lemma first_is_least:
  assumes "list_all num xs" and "y \<in> set xs" and "num y"
  shows "\<not> lt y (sort_by lt xs ! 0)"
proof -
  have "sort_by lt xs \<noteq> []" using assms(2) by auto
  then obtain z zs where s: "sort_by lt xs = z # zs" by (cases "sort_by lt xs") auto
  have "num z" using s assms(1) by (metis list.set_intros(1) list_all_iff set_sort_by)
  then have "\<not> lt z z" using asym by blast
  moreover have "y = z \<or> y \<in> set zs" using assms(2) s by (metis set_ConsD set_sort_by)
  ultimately show ?thesis using sort_by_ordered [OF assms(1)] s by (auto simp: ordered_def)
qed

end

section \<open>Exact arithmetic\<close>

datatype xreal = Fin real | PosInf | NegInf | NaN

instantiation xreal :: "{plus, minus, uminus, times, inverse, abs, ord}"
begin

fun plus_xreal :: "xreal \<Rightarrow> xreal \<Rightarrow> xreal" where
  "plus_xreal (Fin a) (Fin b) = Fin (a + b)"
| "plus_xreal NaN y = NaN"
| "plus_xreal x NaN = NaN"
| "plus_xreal PosInf NegInf = NaN"
| "plus_xreal NegInf PosInf = NaN"
| "plus_xreal PosInf y = PosInf"
| "plus_xreal x PosInf = PosInf"
| "plus_xreal NegInf y = NegInf"
| "plus_xreal x NegInf = NegInf"

fun uminus_xreal :: "xreal \<Rightarrow> xreal" where
  "uminus_xreal (Fin a) = Fin (- a)"
| "uminus_xreal PosInf = NegInf"
| "uminus_xreal NegInf = PosInf"
| "uminus_xreal NaN = NaN"

definition minus_xreal :: "xreal \<Rightarrow> xreal \<Rightarrow> xreal" where
  "minus_xreal x y = x + - y"

definition signed_inf :: "real \<Rightarrow> xreal" where
  "signed_inf s = (if s > 0 then PosInf else if s < 0 then NegInf else NaN)"

fun times_xreal :: "xreal \<Rightarrow> xreal \<Rightarrow> xreal" where
  "times_xreal (Fin a) (Fin b) = Fin (a * b)"
| "times_xreal NaN y = NaN"
| "times_xreal x NaN = NaN"
| "times_xreal (Fin a) PosInf = signed_inf a"
| "times_xreal (Fin a) NegInf = signed_inf (- a)"
| "times_xreal PosInf (Fin b) = signed_inf b"
| "times_xreal NegInf (Fin b) = signed_inf (- b)"
| "times_xreal PosInf PosInf = PosInf"
| "times_xreal NegInf NegInf = PosInf"
| "times_xreal PosInf NegInf = NegInf"
| "times_xreal NegInf PosInf = NegInf"

fun divide_xreal :: "xreal \<Rightarrow> xreal \<Rightarrow> xreal" where
  "divide_xreal (Fin a) (Fin b) = (if b = 0 then signed_inf a else Fin (a / b))"
| "divide_xreal NaN y = NaN"
| "divide_xreal x NaN = NaN"
| "divide_xreal (Fin a) PosInf = Fin 0"
| "divide_xreal (Fin a) NegInf = Fin 0"
| "divide_xreal PosInf (Fin b) = (if b < 0 then NegInf else PosInf)"
| "divide_xreal NegInf (Fin b) = (if b < 0 then PosInf else NegInf)"
| "divide_xreal x y = NaN"

definition inverse_xreal :: "xreal \<Rightarrow> xreal" where
  "inverse_xreal x = divide (Fin 1) x"

fun abs_xreal :: "xreal \<Rightarrow> xreal" where
  "abs_xreal (Fin a) = Fin \<bar>a\<bar>"
| "abs_xreal NaN = NaN"
| "abs_xreal x = PosInf"

fun less_xreal :: "xreal \<Rightarrow> xreal \<Rightarrow> bool" where
  "less_xreal (Fin a) (Fin b) \<longleftrightarrow> a < b"
| "less_xreal (Fin a) PosInf \<longleftrightarrow> True"
| "less_xreal NegInf (Fin b) \<longleftrightarrow> True"
| "less_xreal NegInf PosInf \<longleftrightarrow> True"
| "less_xreal x y \<longleftrightarrow> False"

definition less_eq_xreal :: "xreal \<Rightarrow> xreal \<Rightarrow> bool" where
  "less_eq_xreal x y \<longleftrightarrow> x < y \<or> x = y \<and> x \<noteq> NaN"

instance ..

end

lemma xreal_simps [simp]:
  "Fin a - Fin b = Fin (a - b)"
  "Fin a \<le> Fin b \<longleftrightarrow> a \<le> b"
  "b \<noteq> 0 \<Longrightarrow> Fin a / Fin b = Fin (a / b)"
  "is_nan (Fin a) \<longleftrightarrow> False"
  by (auto simp: minus_xreal_def less_eq_xreal_def is_nan_def)

definition exact :: "xreal f64_lib" where
  "exact =
     \<lparr>lit = Fin, nat_f64 = (\<lambda>n. Fin (real n)), int_f64 = (\<lambda>i. Fin (of_int i)),
      f64_u64 = (\<lambda>x. case x of Fin a \<Rightarrow> of_nat (min (nat \<lfloor>a\<rfloor>) (2 ^ 64 - 1)) | PosInf \<Rightarrow> - 1 | _ \<Rightarrow> 0),
      sqrt_f64 = (\<lambda>x. case x of Fin a \<Rightarrow> if a < 0 then NaN else Fin (sqrt a) | PosInf \<Rightarrow> PosInf | _ \<Rightarrow> NaN),
      ln_f64 = (\<lambda>x. case x of Fin a \<Rightarrow> if a < 0 then NaN else if a = 0 then NegInf else Fin (ln a)
                  | PosInf \<Rightarrow> PosInf | _ \<Rightarrow> NaN),
      exp_f64 = (\<lambda>x. case x of Fin a \<Rightarrow> Fin (exp a) | PosInf \<Rightarrow> PosInf | NegInf \<Rightarrow> Fin 0 | NaN \<Rightarrow> NaN),
      floor_f64 = (\<lambda>x. case x of Fin a \<Rightarrow> Fin (of_int \<lfloor>a\<rfloor>) | _ \<Rightarrow> x),
      round_f64 = (\<lambda>x. case x of Fin a \<Rightarrow> Fin (sgn a * of_int \<lfloor>\<bar>a\<bar> + 1 / 2\<rfloor>) | _ \<Rightarrow> x),
      powi_f64 = (\<lambda>x n. foldl (*) (Fin 1) (replicate n x)),
      infinity_f64 = PosInf\<rparr>"

lemma exact_simps [simp]:
  "lit exact r = Fin r" "nat_f64 exact n = Fin (real n)" "int_f64 exact i = Fin (of_int i)"
  "f64_u64 exact (Fin a) = of_nat (min (nat \<lfloor>a\<rfloor>) (2 ^ 64 - 1))"
  "0 \<le> a \<Longrightarrow> sqrt_f64 exact (Fin a) = Fin (sqrt a)"
  "0 < a \<Longrightarrow> ln_f64 exact (Fin a) = Fin (ln a)"
  "exp_f64 exact (Fin a) = Fin (exp a)"
  "floor_f64 exact (Fin a) = Fin (of_int \<lfloor>a\<rfloor>)"
  "powi_f64 exact (Fin a) 2 = Fin (a ^ 2)"
  "infinity_f64 exact = PosInf"
  by (simp_all add: exact_def numeral_2_eq_2)

lemma sum_exact [simp]: "sum_f64 exact (map Fin xs) = Fin (sum_list xs)"
proof -
  have "foldl (+) (Fin a) (map Fin xs) = Fin (a + sum_list xs)" for a
    by (induction xs arbitrary: a) (simp_all add: add.assoc)
  then show ?thesis by (simp add: sum_f64_def)
qed

definition fin_val :: "xreal \<Rightarrow> real" where
  "fin_val x = (case x of Fin a \<Rightarrow> a | _ \<Rightarrow> 0)"

lemma fin_val_Fin [simp]: "fin_val (Fin a) = a"
  by (simp add: fin_val_def)

interpretation xreal_order: weak_order "(<) :: xreal \<Rightarrow> xreal \<Rightarrow> bool" "\<lambda>x. x \<noteq> NaN"
proof
  fix x y z :: xreal
  show "x \<noteq> NaN \<Longrightarrow> y \<noteq> NaN \<Longrightarrow> x < y \<Longrightarrow> \<not> y < x" by (cases x; cases y) auto
  show "x \<noteq> NaN \<Longrightarrow> y \<noteq> NaN \<Longrightarrow> z \<noteq> NaN \<Longrightarrow> \<not> y < x \<Longrightarrow> \<not> z < y \<Longrightarrow> \<not> z < x"
    by (cases x; cases y; cases z) auto
qed

lemma insert_by_Fin: "insert_by (<) (Fin x) (map Fin xs) = map Fin (insort x xs)"
  by (induction xs) auto

lemma sort_by_Fin [simp]: "sort_by (<) (map Fin xs) = map Fin (sort xs)"
  by (induction xs) (simp_all add: sort_by_def insert_by_Fin)

end
