(* ===== verification/Win_Path.thy ===== *)
theory Win_Path
  imports Prelude
begin

text \<open>
  The part of \<^verbatim>\<open>std::path\<close> on Windows that the sources use: the prefix of a path (a drive or
  a share), its components, the parent, the file name and its extension, joining and
  component-wise prefixes. Both separators count, an empty component and a single dot are
  skipped, as \<^verbatim>\<open>Path::components\<close> skips them.
\<close>

type_synonym path = string

definition is_sep :: "char \<Rightarrow> bool" where
  "is_sep c \<longleftrightarrow> c = backslash \<or> c = CHR ''/''"

definition is_ascii_alphabetic :: "char \<Rightarrow> bool" where
  "is_ascii_alphabetic c = (let n = (of_char c :: nat) in (65 \<le> n \<and> n \<le> 90) \<or> (97 \<le> n \<and> n \<le> 122))"

definition has_drive :: "path \<Rightarrow> bool" where
  "has_drive p = (case p of c # d # _ \<Rightarrow> is_ascii_alphabetic c \<and> d = CHR '':'' | _ \<Rightarrow> False)"

text \<open>A share: two separators, a server, a separator, a share name.\<close>

definition share_len :: "path \<Rightarrow> nat option" where
  "share_len p =
     (case p of
        a # b # rest \<Rightarrow>
          if is_sep a \<and> is_sep b then
            (let server = takeWhile (\<lambda>c. \<not> is_sep c) rest;
                 share = takeWhile (\<lambda>c. \<not> is_sep c) (drop (length server + 1) rest)
             in if server \<noteq> [] \<and> share \<noteq> [] then Some (2 + length server + 1 + length share) else None)
          else None
      | _ \<Rightarrow> None)"

definition prefix_len :: "path \<Rightarrow> nat" where
  "prefix_len p = (if has_drive p then 2 else case share_len p of Some n \<Rightarrow> n | None \<Rightarrow> 0)"

abbreviation path_prefix :: "path \<Rightarrow> string" where
  "path_prefix p \<equiv> take (prefix_len p) p"

abbreviation path_body :: "path \<Rightarrow> string" where
  "path_body p \<equiv> drop (prefix_len p) p"

definition is_absolute :: "path \<Rightarrow> bool" where
  "is_absolute p \<longleftrightarrow>
     (has_drive p \<and> (case path_body p of c # _ \<Rightarrow> is_sep c | [] \<Rightarrow> False)) \<or> share_len p \<noteq> None"

fun split_seps :: "string \<Rightarrow> string list" where
  "split_seps [] = [[]]"
| "split_seps (c # cs) =
     (if is_sep c then [] # split_seps cs
      else case split_seps cs of [] \<Rightarrow> [[c]] | w # ws \<Rightarrow> (c # w) # ws)"

definition components :: "path \<Rightarrow> string list" where
  "components p = filter (\<lambda>c. c \<noteq> [] \<and> c \<noteq> ''.'') (split_seps (path_body p))"

definition has_parent_dir :: "path \<Rightarrow> bool" where
  "has_parent_dir p \<longleftrightarrow> ''..'' \<in> set (components p)"

definition file_name :: "path \<Rightarrow> string option" where
  "file_name p =
     (case components p of
        [] \<Rightarrow> None
      | cs \<Rightarrow> if last cs = ''..'' then None else Some (last cs))"

text \<open>The part after the last dot, when there is one that is not the first character.\<close>

definition extension_of :: "string \<Rightarrow> string option" where
  "extension_of name =
     (let after = takeWhile (\<lambda>c. c \<noteq> CHR ''.'') (rev name)
      in if length name \<le> length after + 1 then None else Some (rev after))"

definition path_extension :: "path \<Rightarrow> string option" where
  "path_extension p = Option.bind (file_name p) extension_of"

definition strip_trailing_seps :: "string \<Rightarrow> string" where
  "strip_trailing_seps s = rev (dropWhile is_sep (rev s))"

definition parent :: "path \<Rightarrow> path option" where
  "parent p =
     (let body = strip_trailing_seps (path_body p)
      in if body = [] then None
         else
           let dir = rev (dropWhile (\<lambda>c. \<not> is_sep c) (rev body));
               stem = strip_trailing_seps dir
           in Some (path_prefix p @ (if stem = [] then take 1 dir else stem)))"

text \<open>
  \<open>Path::join\<close> with a relative component: a separator goes in between unless the path ends in
  one, is empty, or is a bare drive.
\<close>

definition path_join :: "path \<Rightarrow> string \<Rightarrow> path" where
  "path_join p c =
     (if p = [] \<or> is_sep (last p) \<or> (length p = 2 \<and> has_drive p) then p @ c else p @ backslash # c)"

definition with_file_name :: "path \<Rightarrow> string \<Rightarrow> path" where
  "with_file_name p name =
     (if file_name p = None then path_join p name
      else case parent p of Some d \<Rightarrow> path_join d name | None \<Rightarrow> path_join p name)"

text \<open>\<open>Path::starts_with\<close> compares whole components.\<close>

definition path_starts_with :: "path \<Rightarrow> path \<Rightarrow> bool" where
  "path_starts_with p base \<longleftrightarrow>
     path_prefix p = path_prefix base \<and> prefix (components base) (components p)"

section \<open>The parent is shorter\<close>

lemma length_dropWhile_rev: "length (rev (dropWhile P (rev s))) \<le> length s"
  using length_dropWhile_le [of P "rev s"] by simp

lemma strip_trailing_seps_le: "length (strip_trailing_seps s) \<le> length s"
  unfolding strip_trailing_seps_def by (rule length_dropWhile_rev)

lemma last_strip_trailing_seps:
  "strip_trailing_seps s \<noteq> [] \<Longrightarrow> \<not> is_sep (last (strip_trailing_seps s))"
  unfolding strip_trailing_seps_def
  using hd_dropWhile [of is_sep "rev s"] by (simp add: last_rev)

lemma dir_shorter:
  assumes "body \<noteq> []" and "\<not> is_sep (last body)"
  shows "length (rev (dropWhile (\<lambda>c. \<not> is_sep c) (rev body))) < length body"
proof -
  obtain c cs where "rev body = c # cs" using assms(1) by (cases "rev body") auto
  moreover from this have "\<not> is_sep c" using assms by (metis hd_rev list.sel(1))
  moreover have "length (dropWhile (\<lambda>c. \<not> is_sep c) cs) \<le> length cs"
    by (rule length_dropWhile_le)
  moreover have "length body = Suc (length cs)"
    using \<open>rev body = c # cs\<close> by (metis length_Cons length_rev)
  ultimately show ?thesis by simp
qed

lemma parent_shorter:
  assumes "parent p = Some q"
  shows "length q < length p"
proof -
  let ?body = "strip_trailing_seps (path_body p)"
  let ?dir = "rev (dropWhile (\<lambda>c. \<not> is_sep c) (rev ?body))"
  have body: "?body \<noteq> []"
    and q: "q = path_prefix p @ (if strip_trailing_seps ?dir = [] then take 1 ?dir else strip_trailing_seps ?dir)"
    using assms by (auto simp: parent_def Let_def split: if_splits)
  have "length ?dir < length ?body"
    by (rule dir_shorter [OF body last_strip_trailing_seps [OF body]])
  then have "length (if strip_trailing_seps ?dir = [] then take 1 ?dir else strip_trailing_seps ?dir) < length ?body"
    using strip_trailing_seps_le [of ?dir] by auto
  also have "\<dots> \<le> length (path_body p)" by (rule strip_trailing_seps_le)
  finally show ?thesis using q by simp
qed

end
