(* ===== verification/Win32.thy ===== *)
theory Win32
  imports Win_Path
begin

text \<open>
  The operating system as the program sees it. Windows is not part of the repository, so every
  Win32 call the sources make is a field of the record \<open>win32\<close> and every definition that calls
  one takes that record as an argument. The state of the system is the type variable \<open>'w\<close>;
  a call that only reads is a function of it, a call that may change it returns the new state.
  Nothing is assumed of these functions here: what a result relies on is a named hypothesis
  (\<open>registry_laws\<close>, \<open>power_laws\<close>, \<open>clock_laws\<close>), which states the documented behaviour of
  the calls.

  The state the definitions thread is \<open>machine\<close>: the system state, the files that
  \<^verbatim>\<open>std::fs\<close> reads and writes, and a log of the state-changing calls in the order in which they
  are made. The log is written by the wrappers of this theory and read by no definition.
  Handles are represented by what they were opened for, and closing a handle, whose result the
  sources ignore everywhere, has no counterpart.
\<close>

section \<open>Data of the interface\<close>

datatype hive = HKEY_CURRENT_USER | HKEY_LOCAL_MACHINE

datatype key_access = KEY_READ | KEY_SET_VALUE

datatype service_access = QUERY_STATUS | QUERY_AND_STOP | START_AND_QUERY

record guid =
  data1 :: u32
  data2 :: u16
  data3 :: u16
  data4 :: bytes

type_synonym pid = u32

text \<open>The constant PowerShell scripts of \<^verbatim>\<open>network/\<close>, by name; their inputs are environment variables.\<close>

datatype ps_script =
    QUERY_ADAPTER_SCRIPT
  | SET_SCRIPT
  | STATUS_SCRIPT
  | RSS_QUERY_SCRIPT
  | ENABLE_RSS_SCRIPT
  | QUERY_QOS_SCRIPT
  | SET_NLA
  | REMOVE_SCRIPT

datatype process_access = PROCESS_TERMINATE | PROCESS_QUERY | PROCESS_SET_INFORMATION | PROCESS_SYNCHRONIZE

text \<open>The token of the interactive user: from the session, or duplicated from its shell.\<close>

datatype user_token = SessionToken u32 | ShellToken pid

text \<open>The state-changing calls, as the log records them.\<close>

datatype effect =
    CreateKey hive string
  | SetDword hive string string u32
  | DeleteValue hive string string
  | SetPowerScheme guid
  | StopService string
  | StartService string
  | PostClose nat pid
  | KillProcess pid
  | SetPriority pid u32
  | SetAffinity pid usize
  | Spawn path "string list"
  | SpawnAsUser user_token string
  | ShellOpen string
  | RunPowerShell ps_script "(string \<times> string) list"
  | RunNetsh "string list"
  | HardenDirectory path
  | HardenKeyFile path
  | CreateDir path
  | WriteFile path
  | RemoveFile path
  | MoveFile path path
  | AppendFile path
  | StartTrace
  | StopTrace
  | CloseTrace u64
  | StartSession string
  | StopSession string
  | EnableProvider guid bool

section \<open>The calls\<close>

record 'w win32 =
  \<comment> \<open>registry; a read gives \<open>None\<close> when the status is not \<open>ERROR_SUCCESS\<close>, and otherwise
      the 32-bit value left in the buffer, or the type and the characters of the buffer,
      terminator included, for a buffer of the given number of characters;
      \<open>reg_subkeys\<close> lists what \<open>RegEnumKeyExW\<close> gives for 0, 1, 2, ... until it first fails;
      \<open>hkcr_\<close> is the merged view \<open>HKEY_CLASSES_ROOT\<close>\<close>
  reg_open :: "hive \<Rightarrow> string \<Rightarrow> key_access \<Rightarrow> 'w \<Rightarrow> u32"
  reg_create :: "hive \<Rightarrow> string \<Rightarrow> 'w \<Rightarrow> u32 \<times> 'w"
  reg_get_dword :: "hive \<Rightarrow> string \<Rightarrow> string \<Rightarrow> 'w \<Rightarrow> u32 option"
  reg_get_sz :: "hive \<Rightarrow> string \<Rightarrow> string \<Rightarrow> nat \<Rightarrow> 'w \<Rightarrow> (u32 \<times> string) option"
  reg_set_dword :: "hive \<Rightarrow> string \<Rightarrow> string \<Rightarrow> u32 \<Rightarrow> 'w \<Rightarrow> u32 \<times> 'w"
  reg_delete_value :: "hive \<Rightarrow> string \<Rightarrow> string \<Rightarrow> 'w \<Rightarrow> u32 \<times> 'w"
  reg_subkeys :: "hive \<Rightarrow> string \<Rightarrow> 'w \<Rightarrow> string list"
  hkcr_open :: "string \<Rightarrow> 'w \<Rightarrow> u32"
  hkcr_get_sz :: "string \<Rightarrow> string \<Rightarrow> nat \<Rightarrow> 'w \<Rightarrow> (u32 \<times> string) option"
  \<comment> \<open>power schemes\<close>
  battery_flag :: "'w \<Rightarrow> u8 option"
  power_get_active :: "'w \<Rightarrow> u32 \<times> guid option"
  power_set_active :: "guid \<Rightarrow> 'w \<Rightarrow> u32 \<times> 'w"
  \<comment> \<open>service control manager\<close>
  scm_open :: "'w \<Rightarrow> bool"
  service_open :: "string \<Rightarrow> service_access \<Rightarrow> 'w \<Rightarrow> bool"
  service_status :: "string \<Rightarrow> 'w \<Rightarrow> u32 option"
  service_stop :: "string \<Rightarrow> 'w \<Rightarrow> 'w"
  service_start :: "string \<Rightarrow> 'w \<Rightarrow> bool \<times> 'w"
  \<comment> \<open>time: the monotonic clock, the wall clock and its debug text\<close>
  clock_ms :: "'w \<Rightarrow> nat"
  unix_ns :: "'w \<Rightarrow> nat"
  now_debug :: "'w \<Rightarrow> string"
  sleep_ms :: "nat \<Rightarrow> 'w \<Rightarrow> 'w"
  \<comment> \<open>processes; a process entry carries the raw name buffer, a window its handle and process\<close>
  own_pid :: "pid"
  process_list :: "'w \<Rightarrow> (pid \<times> string) list option"
  process_open :: "process_access \<Rightarrow> pid \<Rightarrow> 'w \<Rightarrow> bool"
  process_image :: "pid \<Rightarrow> 'w \<Rightarrow> string option"
  window_list :: "'w \<Rightarrow> (nat \<times> pid) list"
  post_close :: "nat \<Rightarrow> 'w \<Rightarrow> 'w"
  process_wait :: "pid \<Rightarrow> nat \<Rightarrow> 'w \<Rightarrow> u32 \<times> 'w"
  process_exit_code :: "pid \<Rightarrow> 'w \<Rightarrow> u32"
  process_terminate :: "pid \<Rightarrow> 'w \<Rightarrow> 'w"
  process_set_priority :: "pid \<Rightarrow> u32 \<Rightarrow> 'w \<Rightarrow> bool \<times> 'w"
  process_set_affinity :: "pid \<Rightarrow> usize \<Rightarrow> 'w \<Rightarrow> bool \<times> 'w"
  process_spawn :: "path \<Rightarrow> string list \<Rightarrow> path option \<Rightarrow> 'w \<Rightarrow> pid option \<times> 'w"
  create_process_as_user :: "user_token \<Rightarrow> string \<Rightarrow> path option \<Rightarrow> 'w \<Rightarrow> pid option \<times> 'w"
  shell_execute :: "string \<Rightarrow> 'w \<Rightarrow> nat \<times> 'w"
  token_elevation :: "'w \<Rightarrow> u32 option"
  console_session :: "'w \<Rightarrow> u32"
  wts_user_token :: "u32 \<Rightarrow> 'w \<Rightarrow> bool"
  process_session :: "pid \<Rightarrow> 'w \<Rightarrow> u32 option"
  process_token_dup :: "pid \<Rightarrow> 'w \<Rightarrow> bool"
  \<comment> \<open>loaded drivers: base address and base name (empty when it cannot be read), the file name of a
      base address (empty likewise), the output of \<^verbatim>\<open>driverquery\<close>\<close>
  driver_list :: "'w \<Rightarrow> (u64 \<times> string) list option"
  driver_path :: "u64 \<Rightarrow> 'w \<Rightarrow> string"
  driverquery :: "'w \<Rightarrow> string option"
  \<comment> \<open>performance counter frequency; the kernel trace session\<close>
  qpc_frequency :: "'w \<Rightarrow> int option"
  trace_stop :: "'w \<Rightarrow> 'w"
  trace_start :: "u32 \<times> u32 \<times> u32 \<Rightarrow> 'w \<Rightarrow> u32 \<times> 'w"
  trace_open :: "'w \<Rightarrow> u64"
  trace_close :: "u64 \<Rightarrow> 'w \<Rightarrow> 'w"
  \<comment> \<open>the client of the pipe: its process, the elevation a process token shows, and the elevation
      under impersonation (\<open>None\<close> when impersonation fails, \<open>Some None\<close> when its token does)\<close>
  pipe_client_pid :: "'w \<Rightarrow> u32 option"
  process_elevation :: "pid \<Rightarrow> 'w \<Rightarrow> u32 option"
  impersonation_elevation :: "'w \<Rightarrow> u32 option option"
  \<comment> \<open>child processes whose output is read: exit success and standard output\<close>
  powershell :: "ps_script \<Rightarrow> (string \<times> string) list \<Rightarrow> 'w \<Rightarrow> (bool \<times> string) option \<times> 'w"
  netsh :: "string list \<Rightarrow> 'w \<Rightarrow> (bool \<times> string) option \<times> 'w"
  icacls :: "path \<Rightarrow> 'w \<Rightarrow> 'w"
  \<comment> \<open>data protection and random numbers\<close>
  crypt_protect :: "bytes \<Rightarrow> 'w \<Rightarrow> bytes option"
  crypt_unprotect :: "bytes \<Rightarrow> 'w \<Rightarrow> bytes option"
  gen_random32 :: "'w \<Rightarrow> bytes option \<times> 'w"
  \<comment> \<open>file system: \<open>file_id\<close> gives the file a path names, whatever its spelling\<close>
  file_id :: "path \<Rightarrow> path"
  fs_is_dir :: "path \<Rightarrow> 'w \<Rightarrow> bool"
  fs_canonicalize :: "path \<Rightarrow> 'w \<Rightarrow> path option"
  fs_is_symlink :: "path \<Rightarrow> 'w \<Rightarrow> bool"
  fs_attributes :: "path \<Rightarrow> 'w \<Rightarrow> u32 option"
  fs_handle_info :: "path \<Rightarrow> 'w \<Rightarrow> (u32 \<times> u32) option"
  fs_open_ok :: "path \<Rightarrow> 'w \<Rightarrow> bool"
  fs_create_dir :: "path \<Rightarrow> 'w \<Rightarrow> bool \<times> 'w"
  fs_read_ok :: "path \<Rightarrow> 'w \<Rightarrow> bool"
  fs_write_ok :: "path \<Rightarrow> 'w \<Rightarrow> bool"
  fs_remove_ok :: "path \<Rightarrow> 'w \<Rightarrow> bool"
  fs_move_ok :: "path \<Rightarrow> path \<Rightarrow> 'w \<Rightarrow> bool"
  fs_rename_ok :: "path \<Rightarrow> path \<Rightarrow> 'w \<Rightarrow> bool"
  fs_failed_write :: "path \<Rightarrow> bytes \<Rightarrow> 'w \<Rightarrow> bytes option"
  env_var :: "string \<Rightarrow> 'w \<Rightarrow> string option"

record 'w machine =
  env :: 'w
  files :: "path \<rightharpoonup> bytes"
  log :: "effect list"

definition unix_ms :: "'w win32 \<Rightarrow> 'w \<Rightarrow> nat" where
  "unix_ms os w = unix_ns os w div 1000000"

definition emit :: "effect \<Rightarrow> 'w machine \<Rightarrow> 'w machine" where
  "emit e m = m\<lparr>log := log m @ [e]\<rparr>"

text \<open>A state-changing call: the new system state and one entry of the log.\<close>

definition call :: "effect \<Rightarrow> ('w \<Rightarrow> 'r \<times> 'w) \<Rightarrow> 'w machine \<Rightarrow> 'r \<times> 'w machine" where
  "call e f m = (let (r, w) = f (env m) in (r, emit e (m\<lparr>env := w\<rparr>)))"

definition call_unit :: "effect \<Rightarrow> ('w \<Rightarrow> 'w) \<Rightarrow> 'w machine \<Rightarrow> 'w machine" where
  "call_unit e f m = emit e (m\<lparr>env := f (env m)\<rparr>)"

text \<open>A call that lets time pass or reads, without an entry in the log.\<close>

definition advance :: "('w \<Rightarrow> 'r \<times> 'w) \<Rightarrow> 'w machine \<Rightarrow> 'r \<times> 'w machine" where
  "advance f m = (let (r, w) = f (env m) in (r, m\<lparr>env := w\<rparr>))"

lemma advance_simps [simp]:
  "fst (advance f m) = fst (f (env m))"
  "env (snd (advance f m)) = snd (f (env m))"
  "files (snd (advance f m)) = files m"
  "log (snd (advance f m)) = log m"
  by (simp_all add: advance_def Let_def split: prod.splits)

lemma emit_simps [simp]:
  "env (emit e m) = env m" "files (emit e m) = files m" "log (emit e m) = log m @ [e]"
  by (simp_all add: emit_def)

lemma call_simps [simp]:
  "fst (call e f m) = fst (f (env m))"
  "env (snd (call e f m)) = snd (f (env m))"
  "files (snd (call e f m)) = files m"
  "log (snd (call e f m)) = log m @ [e]"
  by (simp_all add: call_def Let_def split: prod.splits)

lemma call_unit_simps [simp]:
  "env (call_unit e f m) = f (env m)" "files (call_unit e f m) = files m" "log (call_unit e f m) = log m @ [e]"
  by (simp_all add: call_unit_def)

text \<open>The log only grows, and every new entry satisfies \<open>P\<close>.\<close>

definition log_grows :: "(effect \<Rightarrow> bool) \<Rightarrow> 'w machine \<Rightarrow> 'w machine \<Rightarrow> bool" where
  "log_grows P m m' \<longleftrightarrow> (\<exists>es. log m' = log m @ es \<and> list_all P es)"

lemma log_grows_refl [simp]: "log_grows P m m"
  by (simp add: log_grows_def)

lemma log_grows_same: "log m' = log m \<Longrightarrow> log_grows P m m'"
  by (simp add: log_grows_def)

lemma log_grows_one: "log m' = log m @ [e] \<Longrightarrow> P e \<Longrightarrow> log_grows P m m'"
  by (simp add: log_grows_def)

lemma log_grows_trans [trans]: "log_grows P a b \<Longrightarrow> log_grows P b c \<Longrightarrow> log_grows P a c"
  by (force simp: log_grows_def)

lemma log_grows_mono: "log_grows P a b \<Longrightarrow> (\<And>e. P e \<Longrightarrow> Q e) \<Longrightarrow> log_grows Q a b"
  by (auto simp: log_grows_def list_all_iff)

lemma log_grows_call [simp]: "P e \<Longrightarrow> log_grows P m (snd (call e f m))" "P e \<Longrightarrow> log_grows P m (call_unit e g m)"
  by (auto intro: log_grows_one)

lemma log_grows_step:
  "log_grows P m0 m \<Longrightarrow> P e \<Longrightarrow> log_grows P m0 (snd (call e f m))"
  "log_grows P m0 m \<Longrightarrow> P e \<Longrightarrow> log_grows P m0 (call_unit e g m)"
  by (auto intro: log_grows_trans log_grows_call)

subsection \<open>Registry\<close>

definition RegCreateKeyExW :: "'w win32 \<Rightarrow> hive \<Rightarrow> string \<Rightarrow> 'w machine \<Rightarrow> u32 \<times> 'w machine" where
  "RegCreateKeyExW os h k = call (CreateKey h k) (reg_create os h k)"

definition RegSetValueExW ::
  "'w win32 \<Rightarrow> hive \<Rightarrow> string \<Rightarrow> string \<Rightarrow> u32 \<Rightarrow> 'w machine \<Rightarrow> u32 \<times> 'w machine" where
  "RegSetValueExW os h k n v = call (SetDword h k n v) (reg_set_dword os h k n v)"

definition RegDeleteValueW ::
  "'w win32 \<Rightarrow> hive \<Rightarrow> string \<Rightarrow> string \<Rightarrow> 'w machine \<Rightarrow> u32 \<times> 'w machine" where
  "RegDeleteValueW os h k n = call (DeleteValue h k n) (reg_delete_value os h k n)"

lemmas registry_calls = RegCreateKeyExW_def RegSetValueExW_def RegDeleteValueW_def

text \<open>
  Documented behaviour of the registry, which ignores the case of key and value names.
  \<open>dwords os w\<close> is everything a DWORD read can tell about the state \<open>w\<close>. A successful write
  sets that one value, a failed call changes no value, creating a key sets no value. Writing or
  deleting a value does not change which keys open, and a key just created with
  \<open>KEY_SET_VALUE\<close> access opens with it. The subkeys of a key have distinct names.
\<close>

definition dwords :: "'w win32 \<Rightarrow> 'w \<Rightarrow> hive \<Rightarrow> string \<Rightarrow> string \<Rightarrow> u32 option" where
  "dwords os w = (\<lambda>h k n. reg_get_dword os h k n w)"

definition update_dword ::
  "hive \<Rightarrow> string \<Rightarrow> string \<Rightarrow> u32 option \<Rightarrow>
    (hive \<Rightarrow> string \<Rightarrow> string \<Rightarrow> u32 option) \<Rightarrow> hive \<Rightarrow> string \<Rightarrow> string \<Rightarrow> u32 option" where
  "update_dword h k n v d =
     (\<lambda>h' k' n'. if h' = h \<and> eq_ignore_ascii_case k' k \<and> eq_ignore_ascii_case n' n
                 then v else d h' k' n')"

definition registry_laws :: "'w win32 \<Rightarrow> bool" where
  "registry_laws os \<longleftrightarrow>
     (\<forall>h k n v w. case reg_set_dword os h k n v w of (st, w') \<Rightarrow>
        dwords os w' = (if st = 0 then update_dword h k n (Some v) (dwords os w) else dwords os w) \<and>
        (\<forall>h' k' a. reg_open os h' k' a w' = reg_open os h' k' a w)) \<and>
     (\<forall>h k n w. case reg_delete_value os h k n w of (st, w') \<Rightarrow>
        dwords os w' = (if st = 0 then update_dword h k n None (dwords os w) else dwords os w) \<and>
        (\<forall>h' k' a. reg_open os h' k' a w' = reg_open os h' k' a w)) \<and>
     (\<forall>h k w. case reg_create os h k w of (st, w') \<Rightarrow>
        dwords os w' = dwords os w \<and>
        (st = 0 \<longrightarrow> reg_open os h k KEY_SET_VALUE w' = 0) \<and>
        (\<forall>h' k' a. reg_open os h' k' a w = 0 \<longrightarrow> reg_open os h' k' a w' = 0)) \<and>
     (\<forall>h k w. distinct (map to_lowercase (reg_subkeys os h k w))) \<and>
     (\<forall>h k n w. dwords os w h (to_lowercase k) (to_lowercase n) = dwords os w h k n)"

text \<open>
  Registry calls do not touch the power scheme, and setting a power scheme touches neither the
  DWORD values nor the keys. A successful \<open>PowerSetActiveScheme\<close> makes the scheme active, a
  failed one leaves it.
\<close>

definition power_laws :: "'w win32 \<Rightarrow> bool" where
  "power_laws os \<longleftrightarrow>
     (\<forall>g w. case power_set_active os g w of (st, w') \<Rightarrow>
        power_get_active os w' = (if st = 0 then (0, Some g) else power_get_active os w) \<and>
        dwords os w' = dwords os w \<and>
        (\<forall>h' k' a. reg_open os h' k' a w' = reg_open os h' k' a w)) \<and>
     (\<forall>h k n v w. power_get_active os (snd (reg_set_dword os h k n v w)) = power_get_active os w) \<and>
     (\<forall>h k n w. power_get_active os (snd (reg_delete_value os h k n w)) = power_get_active os w) \<and>
     (\<forall>h k w. power_get_active os (snd (reg_create os h k w)) = power_get_active os w)"

text \<open>A sleep lasts at least as long as asked.\<close>

definition clock_laws :: "'w win32 \<Rightarrow> bool" where
  "clock_laws os \<longleftrightarrow> (\<forall>d w. clock_ms os w + d \<le> clock_ms os (sleep_ms os d w))"

lemma reg_set_law:
  assumes "registry_laws os" and "reg_set_dword os h k n v w = (st, w')"
  shows "dwords os w' = (if st = 0 then update_dword h k n (Some v) (dwords os w) else dwords os w)"
    and "reg_open os h' k' a w' = reg_open os h' k' a w"
  using assms(1) [unfolded registry_laws_def, THEN conjunct1, THEN spec [of _ h], THEN spec [of _ k], THEN spec [of _ n], THEN spec [of _ v], THEN spec [of _ w]] assms(2)
  by auto

lemma reg_delete_law:
  assumes "registry_laws os" and "reg_delete_value os h k n w = (st, w')"
  shows "dwords os w' = (if st = 0 then update_dword h k n None (dwords os w) else dwords os w)"
    and "reg_open os h' k' a w' = reg_open os h' k' a w"
  using assms(1) [unfolded registry_laws_def, THEN conjunct2, THEN conjunct1, THEN spec [of _ h], THEN spec [of _ k], THEN spec [of _ n], THEN spec [of _ w]] assms(2)
  by auto

lemma reg_create_law:
  assumes "registry_laws os" and "reg_create os h k w = (st, w')"
  shows "dwords os w' = dwords os w"
    and "st = 0 \<Longrightarrow> reg_open os h k KEY_SET_VALUE w' = 0"
    and "reg_open os h' k' a w = 0 \<Longrightarrow> reg_open os h' k' a w' = 0"
  using assms(1) [unfolded registry_laws_def, THEN conjunct2, THEN conjunct2, THEN conjunct1, THEN spec [of _ h], THEN spec [of _ k], THEN spec [of _ w]] assms(2)
  by auto

lemma reg_subkeys_law:
  "registry_laws os \<Longrightarrow> distinct (map to_lowercase (reg_subkeys os h k w))"
  by (simp add: registry_laws_def)

lemma reg_case_law:
  assumes "registry_laws os" and "eq_ignore_ascii_case k k'" and "eq_ignore_ascii_case n n'"
  shows "dwords os w h k n = dwords os w h k' n'"
proof -
  have "dwords os w h (to_lowercase k) (to_lowercase n) = dwords os w h k n" for k n
    using assms(1) by (simp add: registry_laws_def)
  then show ?thesis using assms(2,3) unfolding eq_ignore_ascii_case_def by metis
qed

lemma power_frame:
  "power_laws os \<Longrightarrow> power_get_active os (snd (reg_set_dword os h k n v w)) = power_get_active os w"
  "power_laws os \<Longrightarrow> power_get_active os (snd (reg_delete_value os h k n w)) = power_get_active os w"
  "power_laws os \<Longrightarrow> power_get_active os (snd (reg_create os h k w)) = power_get_active os w"
  by (simp_all add: power_laws_def)

lemma power_set_law:
  assumes "power_laws os" and "power_set_active os g w = (st, w')"
  shows "power_get_active os w' = (if st = 0 then (0, Some g) else power_get_active os w)"
    and "dwords os w' = dwords os w"
    and "reg_open os h' k' a w' = reg_open os h' k' a w"
  using assms(1) [unfolded power_laws_def, THEN conjunct1, THEN spec [of _ g], THEN spec [of _ w]] assms(2)
  by auto

lemma clock_law: "clock_laws os \<Longrightarrow> clock_ms os w + d \<le> clock_ms os (sleep_ms os d w)"
  by (simp add: clock_laws_def)

lemma reg_get_dwords: "reg_get_dword os h k n w = dwords os w h k n"
  by (simp add: dwords_def)

lemma update_dword_apply:
  "update_dword h k n v d h' k' n' =
     (if h' = h \<and> eq_ignore_ascii_case k' k \<and> eq_ignore_ascii_case n' n then v else d h' k' n')"
  by (simp add: update_dword_def)

lemma update_dword_overwrite [simp]:
  "update_dword h k n v (update_dword h k n v' d) = update_dword h k n v d"
  by (auto simp: update_dword_def fun_eq_iff)

lemma update_dword_commute:
  "\<not> eq_ignore_ascii_case k k' \<Longrightarrow>
     update_dword h k n v (update_dword h k' n' v' d) = update_dword h k' n' v' (update_dword h k n v d)"
  by (auto simp: update_dword_def fun_eq_iff eq_ignore_ascii_case_def)

text \<open>Every key that opened before opens afterwards.\<close>

definition keeps_open :: "'w win32 \<Rightarrow> 'w machine \<Rightarrow> 'w machine \<Rightarrow> bool" where
  "keeps_open os m m' \<longleftrightarrow>
     (\<forall>h k a. reg_open os h k a (env m) = 0 \<longrightarrow> reg_open os h k a (env m') = 0)"

lemma keeps_open_refl [simp]: "keeps_open os m m"
  by (simp add: keeps_open_def)

lemma keeps_open_trans [trans]:
  "keeps_open os a b \<Longrightarrow> keeps_open os b c \<Longrightarrow> keeps_open os a c"
  by (simp add: keeps_open_def)

lemma keeps_openD: "keeps_open os m m' \<Longrightarrow> reg_open os h k a (env m) = 0 \<Longrightarrow> reg_open os h k a (env m') = 0"
  by (simp add: keeps_open_def)

lemma registry_keeps_open:
  assumes "registry_laws os"
  shows "keeps_open os m (snd (RegCreateKeyExW os h k m))"
    and "keeps_open os m (snd (RegSetValueExW os h k n v m))"
    and "keeps_open os m (snd (RegDeleteValueW os h k n m))"
proof -
  show "keeps_open os m (snd (RegCreateKeyExW os h k m))"
    using reg_create_law(3) [OF assms surjective_pairing]
    by (simp add: keeps_open_def registry_calls)
  show "keeps_open os m (snd (RegSetValueExW os h k n v m))"
    using reg_set_law(2) [OF assms surjective_pairing]
    by (simp add: keeps_open_def registry_calls)
  show "keeps_open os m (snd (RegDeleteValueW os h k n m))"
    using reg_delete_law(2) [OF assms surjective_pairing]
    by (simp add: keeps_open_def registry_calls)
qed

lemma registry_keeps_open_step:
  assumes "registry_laws os" and "keeps_open os m0 m"
  shows "keeps_open os m0 (snd (RegCreateKeyExW os h k m))"
    and "keeps_open os m0 (snd (RegSetValueExW os h k n v m))"
    and "keeps_open os m0 (snd (RegDeleteValueW os h k n m))"
  using assms registry_keeps_open keeps_open_trans by metis+

lemma registry_dwords:
  assumes "registry_laws os"
  shows "dwords os (env (snd (RegCreateKeyExW os h k m))) = dwords os (env m)"
    and "dwords os (env (snd (RegSetValueExW os h k n v m))) =
           (if fst (RegSetValueExW os h k n v m) = 0
            then update_dword h k n (Some v) (dwords os (env m)) else dwords os (env m))"
    and "dwords os (env (snd (RegDeleteValueW os h k n m))) =
           (if fst (RegDeleteValueW os h k n m) = 0
            then update_dword h k n None (dwords os (env m)) else dwords os (env m))"
  using reg_create_law(1) [OF assms surjective_pairing] reg_set_law(1) [OF assms surjective_pairing]
    reg_delete_law(1) [OF assms surjective_pairing]
  by (simp_all add: registry_calls)

lemma registry_power:
  assumes "power_laws os"
  shows "power_get_active os (env (snd (RegCreateKeyExW os h k m))) = power_get_active os (env m)"
    and "power_get_active os (env (snd (RegSetValueExW os h k n v m))) = power_get_active os (env m)"
    and "power_get_active os (env (snd (RegDeleteValueW os h k n m))) = power_get_active os (env m)"
  by (simp_all add: registry_calls power_frame [OF assms])

section \<open>A setting that can be changed and restored\<close>

text \<open>
  The contract of the three optimizations: \<open>change\<close> returns a backup, and \<open>undo\<close> of that backup,
  in any later state in which the setting still has the changed value, brings back what was
  observed before the change. \<open>later\<close> is the part of the system's history the setting relies on.
\<close>

locale reversible_setting =
  fixes sound :: bool
    and later :: "'s \<Rightarrow> 's \<Rightarrow> bool"
    and observe :: "'s \<Rightarrow> 'o"
    and change :: "'s \<Rightarrow> ('e, 'b) rust_result \<times> 's"
    and undo :: "'b \<Rightarrow> 's \<Rightarrow> ('e, unit) rust_result \<times> 's"
  assumes later_refl: "later s s"
    and later_trans: "later a b' \<Longrightarrow> later b' c \<Longrightarrow> later a c"
    and change_later: "sound \<Longrightarrow> later s (snd (change s))"
    and undo_later: "sound \<Longrightarrow> later s (snd (undo b s))"
    and undo_restores:
      "sound \<Longrightarrow> change s = (Ok b, s1) \<Longrightarrow> later s1 s2 \<Longrightarrow> observe s2 = observe s1 \<Longrightarrow>
         undo b s2 = (Ok (), s3) \<Longrightarrow> observe s3 = observe s"
begin

lemma change_undo:
  "sound \<Longrightarrow> change s = (Ok b, s1) \<Longrightarrow> undo b s1 = (Ok (), s2) \<Longrightarrow> observe s2 = observe s \<and> later s s2"
  using undo_restores [of s b s1 s1 s2] later_refl [of s1] change_later [of s] undo_later [of s1 b]
    later_trans [of s s1 s2] by simp

end

subsection \<open>Time\<close>

definition sleep :: "'w win32 \<Rightarrow> nat \<Rightarrow> 'w machine \<Rightarrow> 'w machine" where
  "sleep os d m = m\<lparr>env := sleep_ms os d (env m)\<rparr>"

lemma sleep_simps [simp]:
  "env (sleep os d m) = sleep_ms os d (env m)" "files (sleep os d m) = files m"
  "log (sleep os d m) = log m"
  by (simp_all add: sleep_def)

subsection \<open>Files\<close>

text \<open>
  \<^verbatim>\<open>std::fs\<close> on file contents. Whether an operation succeeds is up to the system
  (\<open>fs_read_ok\<close> and its kin); a write that fails may leave the file missing, truncated or
  partly written, which \<open>fs_failed_write\<close> says.
\<close>

datatype io_error = IoError

definition fs_exists :: "'w win32 \<Rightarrow> path \<Rightarrow> 'w machine \<Rightarrow> bool" where
  "fs_exists os p m \<longleftrightarrow> files m (file_id os p) \<noteq> None \<or> fs_is_dir os p (env m)"

definition fs_is_file :: "'w win32 \<Rightarrow> path \<Rightarrow> 'w machine \<Rightarrow> bool" where
  "fs_is_file os p m \<longleftrightarrow> files m (file_id os p) \<noteq> None"

definition fs_read :: "'w win32 \<Rightarrow> path \<Rightarrow> 'w machine \<Rightarrow> (io_error, bytes) rust_result" where
  "fs_read os p m =
     (case files m (file_id os p) of
        None \<Rightarrow> Err IoError
      | Some b \<Rightarrow> if fs_read_ok os p (env m) then Ok b else Err IoError)"

definition fs_read_to_string :: "'w win32 \<Rightarrow> path \<Rightarrow> 'w machine \<Rightarrow> (io_error, bytes) rust_result" where
  "fs_read_to_string os p m =
     (case fs_read os p m of
        Inl e \<Rightarrow> Err e
      | Inr b \<Rightarrow> if utf8_valid b then Ok b else Err IoError)"

definition fs_write ::
  "'w win32 \<Rightarrow> path \<Rightarrow> bytes \<Rightarrow> 'w machine \<Rightarrow> (io_error, unit) rust_result \<times> 'w machine" where
  "fs_write os p b m =
     (if fs_write_ok os p (env m)
      then (Ok (), emit (WriteFile p) (m\<lparr>files := (files m)(file_id os p := Some b)\<rparr>))
      else (Err IoError,
            emit (WriteFile p)
              (m\<lparr>files := (files m)(file_id os p := fs_failed_write os p b (env m))\<rparr>)))"

definition fs_append ::
  "'w win32 \<Rightarrow> path \<Rightarrow> bytes \<Rightarrow> 'w machine \<Rightarrow> (io_error, unit) rust_result \<times> 'w machine" where
  "fs_append os p b m =
     (if fs_write_ok os p (env m)
      then (Ok (), emit (AppendFile p)
              (m\<lparr>files := (files m)(file_id os p := Some (opt_unwrap_or (files m (file_id os p)) [] @ b))\<rparr>))
      else (Err IoError, m))"

definition fs_remove_file ::
  "'w win32 \<Rightarrow> path \<Rightarrow> 'w machine \<Rightarrow> (io_error, unit) rust_result \<times> 'w machine" where
  "fs_remove_file os p m =
     (if files m (file_id os p) \<noteq> None \<and> fs_remove_ok os p (env m)
      then (Ok (), emit (RemoveFile p) (m\<lparr>files := (files m)(file_id os p := None)\<rparr>))
      else (Err IoError, m))"

definition move_contents :: "'w win32 \<Rightarrow> path \<Rightarrow> path \<Rightarrow> 'w machine \<Rightarrow> 'w machine" where
  "move_contents os p q m =
     emit (MoveFile p q)
       (m\<lparr>files := (files m)(file_id os p := None, file_id os q := files m (file_id os p))\<rparr>)"

text \<open>\<open>MoveFileExW\<close> with replacement, and \<^verbatim>\<open>fs::rename\<close>; a failed move changes nothing.\<close>

definition fs_move_replace ::
  "'w win32 \<Rightarrow> path \<Rightarrow> path \<Rightarrow> 'w machine \<Rightarrow> (io_error, unit) rust_result \<times> 'w machine" where
  "fs_move_replace os p q m =
     (if files m (file_id os p) \<noteq> None \<and> fs_move_ok os p q (env m) then (Ok (), move_contents os p q m)
      else (Err IoError, m))"

definition fs_rename ::
  "'w win32 \<Rightarrow> path \<Rightarrow> path \<Rightarrow> 'w machine \<Rightarrow> (io_error, unit) rust_result \<times> 'w machine" where
  "fs_rename os p q m =
     (if files m (file_id os p) \<noteq> None \<and> fs_rename_ok os p q (env m) then (Ok (), move_contents os p q m)
      else (Err IoError, m))"

definition fs_create_dir_all ::
  "'w win32 \<Rightarrow> path \<Rightarrow> 'w machine \<Rightarrow> (io_error, unit) rust_result \<times> 'w machine" where
  "fs_create_dir_all os p m =
     (let (ok, m) = call (CreateDir p) (fs_create_dir os p) m
      in (if ok then Ok () else Err IoError, m))"

text \<open>Creating a directory changes no registry value, no key and no power scheme.\<close>

definition dir_laws :: "'w win32 \<Rightarrow> bool" where
  "dir_laws os \<longleftrightarrow>
     (\<forall>p w. dwords os (snd (fs_create_dir os p w)) = dwords os w \<and>
        (\<forall>h k a. reg_open os h k a (snd (fs_create_dir os p w)) = reg_open os h k a w) \<and>
        power_get_active os (snd (fs_create_dir os p w)) = power_get_active os w)"

lemmas fs_defs =
  fs_exists_def fs_is_file_def fs_read_def fs_read_to_string_def fs_write_def fs_append_def
  fs_remove_file_def fs_move_replace_def fs_rename_def move_contents_def

lemma fs_env [simp]:
  "env (snd (fs_write os p b m)) = env m" "env (snd (fs_append os p b m)) = env m"
  "env (snd (fs_remove_file os p m)) = env m"
  "env (snd (fs_move_replace os p q m)) = env m" "env (snd (fs_rename os p q m)) = env m"
  by (simp_all add: fs_defs)

end
