(* ===== verification/Win32_Demo.thy ===== *)
theory Win32_Demo
  imports Win32
begin

text \<open>
  A small concrete system that satisfies the documented laws. It shows that the hypotheses of
  the results can hold together, and the witnesses of the results are stated over it: a
  case-insensitive registry of DWORD values, one power scheme, services, processes with windows,
  a clock that advances by exactly the time slept, and a file system in which every operation
  succeeds.
\<close>

record world =
  w_dwords :: "hive \<Rightarrow> string \<Rightarrow> string \<Rightarrow> u32 option"
  w_subkeys :: "hive \<Rightarrow> string \<Rightarrow> string list"
  w_power :: guid
  w_battery :: u8
  w_services :: "string \<Rightarrow> u32 option"
  w_clock :: nat
  w_procs :: "(pid \<times> string \<times> string) list"
  w_windows :: "(nat \<times> pid) list"
  w_elevated :: bool
  w_drivers :: "(u64 \<times> string) list"

definition demo_image :: "pid \<Rightarrow> world \<Rightarrow> string option" where
  "demo_image p w = map_option (snd \<circ> snd) (find (\<lambda>x. fst x = p) (w_procs w))"

definition demo_alive :: "pid \<Rightarrow> world \<Rightarrow> bool" where
  "demo_alive p w \<longleftrightarrow> demo_image p w \<noteq> None"

definition demo_os :: "world win32" where
  "demo_os =
    \<lparr>reg_open = (\<lambda>h k a w. 0),
     reg_create = (\<lambda>h k w. (0, w)),
     reg_get_dword = (\<lambda>h k n w. w_dwords w h (to_lowercase k) (to_lowercase n)),
     reg_get_sz = (\<lambda>h k n l w. None),
     reg_set_dword = (\<lambda>h k n v w.
       (0, w\<lparr>w_dwords := (\<lambda>h' k' n'. if h' = h \<and> k' = to_lowercase k \<and> n' = to_lowercase n
                                      then Some v else w_dwords w h' k' n')\<rparr>)),
     reg_delete_value = (\<lambda>h k n w.
       if w_dwords w h (to_lowercase k) (to_lowercase n) = None then (2, w)
       else (0, w\<lparr>w_dwords := (\<lambda>h' k' n'. if h' = h \<and> k' = to_lowercase k \<and> n' = to_lowercase n
                                      then None else w_dwords w h' k' n')\<rparr>)),
     reg_subkeys = (\<lambda>h k w. remdups (map to_lowercase (w_subkeys w h (to_lowercase k)))),
     hkcr_open = (\<lambda>k w. 2),
     hkcr_get_sz = (\<lambda>k n l w. None),
     battery_flag = (\<lambda>w. Some (w_battery w)),
     power_get_active = (\<lambda>w. (0, Some (w_power w))),
     power_set_active = (\<lambda>g w. (0, w\<lparr>w_power := g\<rparr>)),
     scm_open = (\<lambda>w. True),
     service_open = (\<lambda>n a w. w_services w (to_lowercase n) \<noteq> None),
     service_status = (\<lambda>n w. w_services w (to_lowercase n)),
     service_stop = (\<lambda>n w. w\<lparr>w_services := (w_services w)(to_lowercase n \<mapsto> 1)\<rparr>),
     service_start = (\<lambda>n w. (True, w\<lparr>w_services := (w_services w)(to_lowercase n \<mapsto> 4)\<rparr>)),
     clock_ms = w_clock,
     unix_ns = (\<lambda>w. 1000000 * w_clock w),
     now_debug = (\<lambda>w. dec_string (w_clock w)),
     sleep_ms = (\<lambda>d w. w\<lparr>w_clock := w_clock w + d\<rparr>),
     own_pid = 100,
     process_list = (\<lambda>w. Some (map (\<lambda>(p, n, _). (p, n)) (w_procs w))),
     process_open = (\<lambda>a p w. demo_alive p w),
     process_image = (\<lambda>p w. demo_image p w),
     window_list = w_windows,
     post_close = (\<lambda>h w. w),
     process_wait = (\<lambda>p d w. (if demo_alive p w then 258 else 0, w)),
     process_exit_code = (\<lambda>p w. if demo_alive p w then 259 else 0),
     process_terminate = (\<lambda>p w. w\<lparr>w_procs := filter (\<lambda>x. fst x \<noteq> p) (w_procs w)\<rparr>),
     process_set_priority = (\<lambda>p c w. (True, w)),
     process_set_affinity = (\<lambda>p c w. (True, w)),
     process_spawn = (\<lambda>p args d w. (Some 500, w)),
     create_process_as_user = (\<lambda>t c d w. (Some 501, w)),
     shell_execute = (\<lambda>u w. (42, w)),
     token_elevation = (\<lambda>w. Some (if w_elevated w then 1 else 0)),
     console_session = (\<lambda>w. 1),
     wts_user_token = (\<lambda>s w. True),
     process_session = (\<lambda>p w. Some 1),
     process_token_dup = (\<lambda>p w. True),
     driver_list = (\<lambda>w. Some (w_drivers w)),
     driver_path = (\<lambda>b w. []),
     driverquery = (\<lambda>w. None),
     qpc_frequency = (\<lambda>w. Some 10000000),
     trace_stop = (\<lambda>w. w),
     trace_start = (\<lambda>c w. (0, w)),
     trace_open = (\<lambda>w. 9),
     trace_close = (\<lambda>h w. w),
     pipe_client_pid = (\<lambda>w. Some 200),
     process_elevation = (\<lambda>p w. if p = 200 then Some 0 else None),
     impersonation_elevation = (\<lambda>w. None),
     powershell = (\<lambda>s vars w. (Some (True, []), w)),
     netsh = (\<lambda>args w. (Some (True, []), w)),
     icacls = (\<lambda>p w. w),
     crypt_protect = (\<lambda>b w. Some (1 # b)),
     crypt_unprotect = (\<lambda>b w. case b of [] \<Rightarrow> None | x # xs \<Rightarrow> if x = 1 then Some xs else None),
     gen_random32 = (\<lambda>w. (Some (replicate 32 7), w)),
     file_id = to_lowercase,
     fs_is_dir = (\<lambda>p w. \<not> contains p ''.''),
     fs_canonicalize = (\<lambda>p w. Some p),
     fs_is_symlink = (\<lambda>p w. False),
     fs_attributes = (\<lambda>p w. Some 0x80),
     fs_handle_info = (\<lambda>p w. Some (0x80, 1)),
     fs_open_ok = (\<lambda>p w. True),
     fs_create_dir = (\<lambda>p w. (True, w)),
     fs_read_ok = (\<lambda>p w. True),
     fs_write_ok = (\<lambda>p w. True),
     fs_remove_ok = (\<lambda>p w. True),
     fs_move_ok = (\<lambda>p q w. True),
     fs_rename_ok = (\<lambda>p q w. True),
     fs_failed_write = (\<lambda>p b w. None),
     env_var = (\<lambda>n w. None)\<rparr>"

definition demo_world :: world where
  "demo_world =
    \<lparr>w_dwords = (\<lambda>h k n. None),
     w_subkeys = (\<lambda>h k. [''{0.0.0.00000000}.{speakers}'', ''{0.0.0.00000000}.{headset}'']),
     w_power = \<lparr>data1 = 0x381b4222, data2 = 0xf694, data3 = 0x41f0,
                data4 = [0x96, 0x85, 0xff, 0x5b, 0xb2, 0x60, 0xdf, 0x2e]\<rparr>,
     w_battery = 128,
     w_services = [''sysmain'' \<mapsto> 4, ''diagtrack'' \<mapsto> 1, ''vgc'' \<mapsto> 4],
     w_clock = 5,
     w_procs = [(4, ''System'', ''System''),
                (100, ''val-opt-core.exe'', win ''C:/Opt/val-opt-core.exe''),
                (200, ''Discord.exe'', win ''C:/Apps/Discord.exe''),
                (300, ''vgc.exe'', win ''C:/Riot/vgc.exe'')],
     w_windows = [(7, 200), (8, 300)],
     w_elevated = True,
     w_drivers = [(1, ''ntoskrnl.exe''), (2, ''vgk.sys'')]\<rparr>"

definition demo_machine :: "world machine" where
  "demo_machine = \<lparr>env = demo_world, files = Map.empty, log = []\<rparr>"

lemma demo_registry_laws: "registry_laws demo_os"
  by (auto simp: registry_laws_def demo_os_def dwords_def update_dword_def fun_eq_iff
      eq_ignore_ascii_case_def distinct_map intro: inj_onI)

lemma demo_power_laws: "power_laws demo_os"
  by (auto simp: power_laws_def demo_os_def dwords_def)

lemma demo_dir_laws: "dir_laws demo_os"
  by (simp add: dir_laws_def demo_os_def dwords_def)

lemma demo_clock_laws: "clock_laws demo_os"
  by (simp add: clock_laws_def demo_os_def)

end
