(* ===== verification/Driver_Isolator.thy ===== *)
theory Driver_Isolator
  imports Win32_Demo "HOL-Library.List_Lexorder" "HOL-Library.Char_ord"
begin

text \<open>
  \<^verbatim>\<open>latency/driver_isolator.rs\<close>: the loaded kernel drivers, the driver a routine address belongs
  to, and the execution statistics of each driver. Addresses, durations and counters are 64-bit
  words. The floating-point average is a value of the type \<open>'f\<close>, computed by the parameter
  \<open>quot\<close> from the total and the count. \<^verbatim>\<open>HashMap::values\<close> lists the entries in an unspecified
  order: it is the parameter \<open>vals\<close>, with the law \<open>lists_values\<close>.

  The binary search is the loop of the standard library; what the lookup needs of it is the
  contract \<open>sorted_search\<close>.
\<close>

section \<open>Binary search\<close>

locale sorted_search =
  fixes search :: "'k::linorder list \<Rightarrow> 'k \<Rightarrow> nat + nat"
  assumes search_law: "sorted xs \<Longrightarrow>
    (case search xs k of
       Inr i \<Rightarrow> i < length xs \<and> xs ! i = k
     | Inl i \<Rightarrow> i \<le> length xs \<and> (\<forall>j<i. xs ! j < k) \<and> (\<forall>j<length xs. i \<le> j \<longrightarrow> k < xs ! j))"
begin

text \<open>The position of the greatest key that is not above the one looked for.\<close>

definition floor_index :: "'k list \<Rightarrow> 'k \<Rightarrow> nat option" where
  "floor_index xs k = (case search xs k of Inr i \<Rightarrow> Some i | Inl 0 \<Rightarrow> None | Inl (Suc i) \<Rightarrow> Some i)"

lemma floor_index_Some:
  assumes "sorted xs" and "floor_index xs k = Some i"
  shows "i < length xs" and "xs ! i \<le> k" and "j < length xs \<Longrightarrow> xs ! j \<le> k \<Longrightarrow> xs ! j \<le> xs ! i"
proof -
  have cases: "(\<exists>n. search xs k = Inr n \<and> i = n) \<or> search xs k = Inl (Suc i)"
    using assms(2) by (auto simp: floor_index_def split: sum.splits nat.splits)
  then show "i < length xs" "xs ! i \<le> k"
    using search_law [OF assms(1), of k] by (auto simp: less_le)
  assume j: "j < length xs" "xs ! j \<le> k"
  from cases show "xs ! j \<le> xs ! i"
  proof
    assume "\<exists>n. search xs k = Inr n \<and> i = n"
    then show ?thesis using search_law [OF assms(1), of k] j(2) by auto
  next
    assume "search xs k = Inl (Suc i)"
    then have "j < Suc i" "Suc i \<le> length xs"
      using search_law [OF assms(1), of k] j by (force simp: not_le [symmetric])+
    then show ?thesis using assms(1) by (simp add: sorted_nth_mono)
  qed
qed

lemma floor_index_None:
  assumes "sorted xs" and "floor_index xs k = None" and "j < length xs"
  shows "k < xs ! j"
  using assms search_law [OF assms(1), of k]
  by (auto simp: floor_index_def split: sum.splits nat.splits)

end

text \<open>The loop of \<^verbatim>\<open>slice::binary_search_by\<close>.\<close>

function bs_loop :: "u64 list \<Rightarrow> u64 \<Rightarrow> nat \<Rightarrow> nat \<Rightarrow> nat" where
  "bs_loop xs k base len =
     (if len \<le> 1 then base
      else let half = len div 2; mid = base + half
           in bs_loop xs k (if xs ! mid > k then base else mid) (len - half))"
  by pat_completeness auto
termination by (relation "measure (\<lambda>(xs, k, base, len). len)") auto

declare bs_loop.simps [simp del]

definition binary_search :: "u64 list \<Rightarrow> u64 \<Rightarrow> nat + nat" where
  "binary_search xs k =
     (if xs = [] then Inl 0
      else let base = bs_loop xs k 0 (length xs)
           in if xs ! base = k then Inr base
              else Inl (base + (if xs ! base < k then 1 else 0)))"

lemma bs_loop_bounds:
  assumes "sorted xs" and "0 < len" and "base + len \<le> length xs"
    and "base = 0 \<or> xs ! base \<le> k" and "\<forall>j<length xs. base + len \<le> j \<longrightarrow> k < xs ! j"
  shows "bs_loop xs k base len < length xs \<and>
    (bs_loop xs k base len = 0 \<or> xs ! bs_loop xs k base len \<le> k) \<and>
    (\<forall>j<length xs. bs_loop xs k base len < j \<longrightarrow> k < xs ! j)"
  using assms
proof (induction xs k base len rule: bs_loop.induct)
  case (1 xs k base len)
  show ?case
  proof (cases "len \<le> 1")
    case True
    then have "bs_loop xs k base len = base" by (simp add: bs_loop.simps)
    then show ?thesis using "1.prems" True by auto
  next
    case False
    let ?half = "len div 2" and ?mid = "base + len div 2"
    let ?b = "if xs ! ?mid > k then base else ?mid"
    have step: "bs_loop xs k base len = bs_loop xs k ?b (len - ?half)"
      using False by (subst bs_loop.simps) (simp add: Let_def)
    have mid: "?mid < length xs" "0 < ?half" "?half < len" using False "1.prems"(3) by auto
    have above: "\<forall>j<length xs. ?b + (len - ?half) \<le> j \<longrightarrow> k < xs ! j"
    proof (intro allI impI)
      fix j assume j: "j < length xs" "?b + (len - ?half) \<le> j"
      show "k < xs ! j"
      proof (cases "xs ! ?mid > k")
        case True
        then have "?mid \<le> j" using j(2) mid by simp
        then show ?thesis using True j(1) "1.prems"(1) by (meson order.strict_trans2 sorted_nth_mono)
      next
        case False
        then show ?thesis using j "1.prems"(5) mid by simp
      qed
    qed
    have "0 < len - ?half" "?b + (len - ?half) \<le> length xs" "?b = 0 \<or> xs ! ?b \<le> k"
      using mid "1.prems"(3,4) by (auto simp: not_less)
    then show ?thesis unfolding step
      by (intro "1.IH" [OF False refl refl "1.prems"(1)] above)
  qed
qed

interpretation std_search: sorted_search binary_search
proof
  fix xs :: "u64 list" and k
  assume sorted: "sorted xs"
  show "case binary_search xs k of
       Inr i \<Rightarrow> i < length xs \<and> xs ! i = k
     | Inl i \<Rightarrow> i \<le> length xs \<and> (\<forall>j<i. xs ! j < k) \<and> (\<forall>j<length xs. i \<le> j \<longrightarrow> k < xs ! j)"
  proof (cases "xs = []")
    case True
    then show ?thesis by (simp add: binary_search_def)
  next
    case False
    let ?b = "bs_loop xs k 0 (length xs)"
    have b: "?b < length xs" "?b = 0 \<or> xs ! ?b \<le> k" "\<forall>j<length xs. ?b < j \<longrightarrow> k < xs ! j"
      using bs_loop_bounds [OF sorted, of "length xs" 0 k] False by auto
    have below: "xs ! j < k" if "xs ! ?b < k" "j \<le> ?b" for j
      using sorted_nth_mono [OF sorted that(2) b(1)] that(1) by simp
    have "k < xs ! j" if "k < xs ! ?b" "j < length xs" for j
      using that b by (cases "j = 0") auto
    then show ?thesis
      using False b below by (auto simp: binary_search_def Let_def Suc_le_eq less_Suc_eq_le)
  qed
qed

section \<open>Data\<close>

definition OFFENDING_DRIVER_THRESHOLD_US :: u64 where "OFFENDING_DRIVER_THRESHOLD_US = 500"

record LoadedDriver =
  base_address :: u64
  driver_file_name :: string
  driver_file_path :: string
  is_verified_base :: bool

record 'f DriverLatencyStat =
  stat_driver_name :: string
  stat_driver_path :: string
  stat_base_address :: u64
  max_execution_us :: u64
  total_execution_us :: u64
  execution_count :: u64
  avg_execution_us :: 'f
  exceeds_500us_threshold :: bool

record 'f KernelDriverIsolator =
  drivers :: "LoadedDriver list"
  driver_stats :: "string \<rightharpoonup> 'f DriverLatencyStat"

section \<open>The driver list\<close>

text \<open>\<open>{:p}\<close> of an address.\<close>

fun hex_string :: "nat \<Rightarrow> string" where
  "hex_string n = (if n < 16 then [hex_digit n] else hex_string (n div 16) @ [hex_digit (n mod 16)])"

declare hex_string.simps [simp del]

definition enumerated_driver :: "'w win32 \<Rightarrow> 'w machine \<Rightarrow> u64 \<times> string \<Rightarrow> LoadedDriver" where
  "enumerated_driver os m = (\<lambda>(addr, base_name).
     let name = (if length base_name > 0 then base_name else ''driver_0x'' @ hex_string (unat addr));
         file = driver_path os addr (env m);
         path = (if length file > 0 then file else name)
     in \<lparr>base_address = addr, driver_file_name = name, driver_file_path = path, is_verified_base = True\<rparr>)"

definition enumerated_drivers :: "'w win32 \<Rightarrow> 'w machine \<Rightarrow> LoadedDriver list" where
  "enumerated_drivers os m =
     (case driver_list os (env m) of
        None \<Rightarrow> []
      | Some ds \<Rightarrow> map (enumerated_driver os m) (filter (\<lambda>(addr, _). addr \<noteq> 0) (take 1024 ds)))"

definition queried_driver :: "string \<Rightarrow> LoadedDriver option" where
  "queried_driver line =
     (let raw_name = trim_matches (CHR 0x22) (trim (hd (split_on CHR '','' line)))
      in if raw_name \<noteq> [] then
           let name = (if ends_with raw_name ''.sys'' \<or> ends_with raw_name ''.exe'' then raw_name
                       else raw_name @ ''.sys'')
           in Some \<lparr>base_address = 0, driver_file_name = name,
                driver_file_path = win ''C:/Windows/System32/drivers/'' @ name, is_verified_base = False\<rparr>
         else None)"

definition queried_drivers :: "'w win32 \<Rightarrow> 'w machine \<Rightarrow> LoadedDriver list" where
  "queried_drivers os m =
     (case driverquery os (env m) of
        None \<Rightarrow> []
      | Some stdout \<Rightarrow> List.map_filter queried_driver (drop 1 (lines stdout)))"

definition fallback_drivers :: "LoadedDriver list" where
  "fallback_drivers =
     map (\<lambda>(name, path). \<lparr>base_address = 0, driver_file_name = name, driver_file_path = path,
                            is_verified_base = False\<rparr>)
       [(''ntoskrnl.exe'', win ''C:/Windows/System32/ntoskrnl.exe''),
        (''ndis.sys'', win ''C:/Windows/System32/drivers/ndis.sys''),
        (''nvlddmkm.sys'', win ''C:/Windows/System32/drivers/nvlddmkm.sys''),
        (''rt640x64.sys'', win ''C:/Windows/System32/drivers/rt640x64.sys''),
        (''vgk.sys'', win ''C:/Program Files/Riot Vanguard/vgk.sys'')]"

definition refresh_driver_list ::
  "'w win32 \<Rightarrow> 'w machine \<Rightarrow> 'f KernelDriverIsolator \<Rightarrow> 'f KernelDriverIsolator" where
  "refresh_driver_list os m kdi =
     (let loaded = enumerated_drivers os m;
          loaded = (if loaded = [] then queried_drivers os m else loaded);
          loaded = (if loaded = [] then fallback_drivers else loaded)
      in kdi\<lparr>drivers := sort_key base_address loaded\<rparr>)"

definition new_isolator :: "'w win32 \<Rightarrow> 'w machine \<Rightarrow> 'f KernelDriverIsolator" where
  "new_isolator os m = refresh_driver_list os m \<lparr>drivers = [], driver_stats = Map.empty\<rparr>"

section \<open>Resolving and recording\<close>

definition verified :: "'f KernelDriverIsolator \<Rightarrow> LoadedDriver list" where
  "verified kdi = filter (\<lambda>d. is_verified_base d \<and> base_address d > 0) (drivers kdi)"

definition resolve_address :: "u64 \<Rightarrow> 'f KernelDriverIsolator \<Rightarrow> LoadedDriver option" where
  "resolve_address address kdi =
     (if address = 0 then None
      else if verified kdi = [] then None
      else case binary_search (map base_address (verified kdi)) address of
             Inr idx \<Rightarrow> Some (verified kdi ! idx)
           | Inl idx \<Rightarrow>
               if idx > 0 then
                 let candidate = verified kdi ! (idx - 1)
                 in if address < base_address candidate + 0x4000000 then Some candidate else None
               else None)"

text \<open>The name, path and base address a routine is accounted to.\<close>

definition attribution :: "u64 \<Rightarrow> 'f KernelDriverIsolator \<Rightarrow> string \<times> string \<times> u64" where
  "attribution address kdi =
     (case resolve_address address kdi of
        Some d \<Rightarrow> (driver_file_name d, driver_file_path d, base_address d)
      | None \<Rightarrow>
          if verified kdi = []
          then (''UnknownKernelRoutine (Administrator elevation required to resolve KASLR addresses)'', ''Unknown'', 0)
          else (''UnknownKernelRoutine'', ''Unknown'', 0))"

definition fresh_stat :: "'f \<Rightarrow> string \<times> string \<times> u64 \<Rightarrow> 'f DriverLatencyStat" where
  "fresh_stat zero = (\<lambda>(name, path, base).
     \<lparr>stat_driver_name = name, stat_driver_path = path, stat_base_address = base, max_execution_us = 0,
      total_execution_us = 0, execution_count = 0, avg_execution_us = zero, exceeds_500us_threshold = False\<rparr>)"

definition update_stat :: "(u64 \<Rightarrow> u64 \<Rightarrow> 'f) \<Rightarrow> u64 \<Rightarrow> 'f DriverLatencyStat \<Rightarrow> 'f DriverLatencyStat" where
  "update_stat quot d st =
     (let st = st\<lparr>execution_count := execution_count st + 1\<rparr>;
          st = st\<lparr>total_execution_us := total_execution_us st + d\<rparr>;
          st = (if d > max_execution_us st then st\<lparr>max_execution_us := d\<rparr> else st);
          st = st\<lparr>avg_execution_us := quot (total_execution_us st) (execution_count st)\<rparr>
      in if max_execution_us st \<ge> OFFENDING_DRIVER_THRESHOLD_US
         then st\<lparr>exceeds_500us_threshold := True\<rparr> else st)"

definition record_execution ::
  "'f \<Rightarrow> (u64 \<Rightarrow> u64 \<Rightarrow> 'f) \<Rightarrow> u64 \<Rightarrow> u64 \<Rightarrow> 'f KernelDriverIsolator \<Rightarrow> string \<times> 'f KernelDriverIsolator" where
  "record_execution zero quot address d kdi =
     (let key = attribution address kdi;
          name = fst key;
          st = opt_unwrap_or (driver_stats kdi name) (fresh_stat zero key)
      in (name, kdi\<lparr>driver_stats := (driver_stats kdi)(name \<mapsto> update_stat quot d st)\<rparr>))"

definition by_max_desc :: "'f DriverLatencyStat \<Rightarrow> int" where
  "by_max_desc st = - uint (max_execution_us st)"

definition get_offending_drivers ::
  "((string \<rightharpoonup> 'f DriverLatencyStat) \<Rightarrow> 'f DriverLatencyStat list) \<Rightarrow> 'f KernelDriverIsolator \<Rightarrow>
     'f DriverLatencyStat list" where
  "get_offending_drivers vals kdi =
     sort_key by_max_desc (filter exceeds_500us_threshold (vals (driver_stats kdi)))"

definition get_top_drivers ::
  "((string \<rightharpoonup> 'f DriverLatencyStat) \<Rightarrow> 'f DriverLatencyStat list) \<Rightarrow> nat \<Rightarrow> 'f KernelDriverIsolator \<Rightarrow>
     'f DriverLatencyStat list" where
  "get_top_drivers vals limit kdi = take limit (sort_key by_max_desc (vals (driver_stats kdi)))"

definition clear_stats :: "'f KernelDriverIsolator \<Rightarrow> 'f KernelDriverIsolator" where
  "clear_stats kdi = kdi\<lparr>driver_stats := Map.empty\<rparr>"

section \<open>Resolution is exact\<close>

definition isolator_inv :: "'f KernelDriverIsolator \<Rightarrow> bool" where
  "isolator_inv kdi \<longleftrightarrow> sorted (map base_address (drivers kdi))"

lemma refresh_inv: "isolator_inv (refresh_driver_list os m kdi)"
  by (simp add: isolator_inv_def refresh_driver_list_def Let_def)

lemma record_inv: "isolator_inv kdi \<Longrightarrow> isolator_inv (snd (record_execution zero quot a d kdi))"
  by (simp add: isolator_inv_def record_execution_def Let_def)

lemma verified_sorted: "isolator_inv kdi \<Longrightarrow> sorted (map base_address (verified kdi))"
  by (simp add: isolator_inv_def verified_def sorted_filter)

lemma resolve_floor:
  assumes "isolator_inv kdi"
  shows "resolve_address a kdi =
     (if a = 0 then None
      else case std_search.floor_index (map base_address (verified kdi)) a of
             None \<Rightarrow> None
           | Some i \<Rightarrow>
               if base_address (verified kdi ! i) = a \<or> a < base_address (verified kdi ! i) + 0x4000000
               then Some (verified kdi ! i) else None)"
proof -
  note law = std_search.search_law [OF verified_sorted [OF assms], of a]
  show ?thesis
  proof (cases "binary_search (map base_address (verified kdi)) a")
    case (Inl i)
    show ?thesis
    proof (cases i)
      case 0
      then show ?thesis using Inl by (simp add: resolve_address_def std_search.floor_index_def)
    next
      case (Suc j)
      have "Suc j \<le> length (map base_address (verified kdi))" "\<forall>n<Suc j. map base_address (verified kdi) ! n < a"
        using law unfolding Inl Suc sum.case by blast+
      then have j: "j < length (verified kdi)" "map base_address (verified kdi) ! j < a" by simp_all
      then have "verified kdi \<noteq> []" "base_address (verified kdi ! j) \<noteq> a" by auto
      with Inl Suc show ?thesis by (simp add: resolve_address_def std_search.floor_index_def)
    qed
  next
    case (Inr i)
    then have "verified kdi \<noteq> []" "base_address (verified kdi ! i) = a" using law by auto
    with Inr show ?thesis by (simp add: resolve_address_def std_search.floor_index_def)
  qed
qed

text \<open>No verified driver lies within 64 MB of the end of the address space.\<close>

definition room_above :: "'f KernelDriverIsolator \<Rightarrow> bool" where
  "room_above kdi \<longleftrightarrow> (\<forall>d \<in> set (verified kdi). unat (base_address d) + 0x4000000 < 2 ^ 64)"

lemma below_limit:
  assumes "unat (b :: u64) + 0x4000000 < 2 ^ 64" and "b \<le> a"
  shows "a < b + 0x4000000 \<longleftrightarrow> a - b < 0x4000000"
proof -
  have "unat (b + 0x4000000) = unat b + 0x4000000"
    using assms(1) by (simp add: unat_word_ariths)
  moreover have "unat (a - b) = unat a - unat b" using assms(2) by (rule unat_sub)
  moreover have "unat b \<le> unat a" using assms(2) by (simp add: word_le_nat_alt)
  ultimately show ?thesis by (auto simp: word_less_nat_alt)
qed

text \<open>A driver whose image may contain the address: the address is at or above its base, by less than 64 MB.\<close>

definition may_contain :: "u64 \<Rightarrow> LoadedDriver \<Rightarrow> bool" where
  "may_contain a d \<longleftrightarrow> base_address d \<le> a \<and> a - base_address d < 0x4000000"

lemma resolve_Some:
  assumes "isolator_inv kdi" and "room_above kdi" and "resolve_address a kdi = Some d"
  shows "d \<in> set (verified kdi)" and "may_contain a d"
    and "\<And>e. e \<in> set (verified kdi) \<Longrightarrow> base_address e \<le> a \<Longrightarrow> base_address e \<le> base_address d"
proof -
  note vs = verified_sorted [OF assms(1)]
  obtain i where i: "std_search.floor_index (map base_address (verified kdi)) a = Some i"
    and d: "d = verified kdi ! i" "base_address d = a \<or> a < base_address d + 0x4000000"
    using assms(3) unfolding resolve_floor [OF assms(1)] by (auto split: if_splits option.splits)
  note floor = std_search.floor_index_Some [OF vs i]
  have le: "i < length (verified kdi)" "base_address d \<le> a" using floor(1,2) d(1) by simp_all
  then show mem: "d \<in> set (verified kdi)" using d(1) by simp
  then have "unat (base_address d) + 0x4000000 < 2 ^ 64" using assms(2) by (simp add: room_above_def)
  from below_limit [OF this le(2)] d(2) le(2) show "may_contain a d"
    by (auto simp: may_contain_def)
  fix e assume "e \<in> set (verified kdi)" "base_address e \<le> a"
  then show "base_address e \<le> base_address d"
    using floor(3) d(1) le(1) by (metis in_set_conv_nth length_map nth_map)
qed

lemma resolve_finds:
  assumes "isolator_inv kdi" and "room_above kdi" and "a \<noteq> 0"
    and "e \<in> set (verified kdi)" and "may_contain a e"
  shows "resolve_address a kdi \<noteq> None"
proof -
  note vs = verified_sorted [OF assms(1)]
  have e: "base_address e \<le> a" "a - base_address e < 0x4000000"
    using assms(5) by (simp_all add: may_contain_def)
  obtain j where j: "j < length (verified kdi)" "verified kdi ! j = e"
    using assms(4) by (metis in_set_conv_nth)
  show ?thesis
  proof (cases "std_search.floor_index (map base_address (verified kdi)) a")
    case None
    then have "a < base_address e" using std_search.floor_index_None [OF vs None, of j] j by simp
    with e(1) show ?thesis by simp
  next
    case (Some i)
    let ?d = "verified kdi ! i"
    note floor = std_search.floor_index_Some [OF vs Some]
    have i: "i < length (verified kdi)" "base_address ?d \<le> a" "base_address e \<le> base_address ?d"
      using floor(1,2) floor(3) [of j] j e(1) by simp_all
    have "a - base_address ?d \<le> a - base_address e"
      using i e(1) by (simp add: word_le_nat_alt unat_sub)
    then have "a - base_address ?d < 0x4000000" using e(2) by simp
    moreover have "unat (base_address ?d) + 0x4000000 < 2 ^ 64" using assms(2) i(1) by (simp add: room_above_def)
    ultimately have "a < base_address ?d + 0x4000000" using below_limit i(2) by blast
    then show ?thesis using Some assms(3) unfolding resolve_floor [OF assms(1)] by simp
  qed
qed
section \<open>Histories\<close>

text \<open>The calls of \<^verbatim>\<open>record_execution\<close> in the order they take the lock.\<close>

definition record_all ::
  "'f \<Rightarrow> (u64 \<Rightarrow> u64 \<Rightarrow> 'f) \<Rightarrow> (u64 \<times> u64) list \<Rightarrow> 'f KernelDriverIsolator \<Rightarrow> 'f KernelDriverIsolator" where
  "record_all zero quot = fold (\<lambda>(a, d) kdi. snd (record_execution zero quot a d kdi))"

lemma record_drivers [simp]: "drivers (snd (record_execution zero quot a d kdi)) = drivers kdi"
  by (simp add: record_execution_def Let_def)

lemma record_all_drivers [simp]: "drivers (record_all zero quot hist kdi) = drivers kdi"
  by (induction hist arbitrary: kdi) (auto simp: record_all_def split: prod.splits)

lemma verified_cong: "drivers kdi = drivers kdi' \<Longrightarrow> verified kdi = verified kdi'"
  by (simp add: verified_def)

lemma resolve_cong: "drivers kdi = drivers kdi' \<Longrightarrow> resolve_address a kdi = resolve_address a kdi'"
proof -
  assume "drivers kdi = drivers kdi'"
  then have v: "verified kdi = verified kdi'" by (rule verified_cong)
  show ?thesis unfolding resolve_address_def v by (rule refl)
qed

lemma attribution_cong: "drivers kdi = drivers kdi' \<Longrightarrow> attribution a kdi = attribution a kdi'"
  by (simp add: attribution_def verified_cong [of kdi kdi'] resolve_cong [of kdi kdi'])

text \<open>The durations of a history that are accounted to a name.\<close>

definition durations :: "'f KernelDriverIsolator \<Rightarrow> string \<Rightarrow> (u64 \<times> u64) list \<Rightarrow> u64 list" where
  "durations kdi n hist = map snd (filter (\<lambda>(a, _). fst (attribution a kdi) = n) hist)"

text \<open>What an entry says of the durations it was made from.\<close>

definition summarizes :: "(u64 \<Rightarrow> u64 \<Rightarrow> 'f) \<Rightarrow> u64 list \<Rightarrow> 'f DriverLatencyStat \<Rightarrow> bool" where
  "summarizes quot ds st \<longleftrightarrow>
     execution_count st = of_nat (length ds) \<and> total_execution_us st = sum_list ds \<and>
     max_execution_us st = fold max ds 0 \<and>
     avg_execution_us st = quot (sum_list ds) (of_nat (length ds)) \<and>
     (exceeds_500us_threshold st \<longleftrightarrow> (\<exists>d \<in> set ds. d \<ge> OFFENDING_DRIVER_THRESHOLD_US))"

lemma summarizes_fresh: "summarizes quot [d] (update_stat quot d (fresh_stat zero key))"
proof -
  have "d \<ge> 500 \<Longrightarrow> 0 < d" "\<not> 0 < d \<Longrightarrow> d = 0" by (auto simp: word_gt_0)
  then show ?thesis
    by (cases key) (auto simp: summarizes_def update_stat_def fresh_stat_def OFFENDING_DRIVER_THRESHOLD_US_def Let_def max_def)
qed

lemma fold_max_reaches: "fold max ds (0 :: u64) \<ge> t \<Longrightarrow> 0 < t \<Longrightarrow> \<exists>d \<in> set ds. d \<ge> t"
proof (induction ds rule: rev_induct)
  case (snoc d ds)
  then show ?case by (cases "d \<ge> t") (auto simp: max_def split: if_splits)
qed simp

lemma summarizes_update:
  assumes "summarizes quot ds st"
  shows "summarizes quot (ds @ [d]) (update_stat quot d st)"
proof -
  have "exceeds_500us_threshold (update_stat quot d st) \<longleftrightarrow>
      exceeds_500us_threshold st \<or> max_execution_us (update_stat quot d st) \<ge> OFFENDING_DRIVER_THRESHOLD_US"
    by (auto simp: update_stat_def Let_def)
  moreover have max: "max_execution_us (update_stat quot d st) = max d (fold max ds 0)"
    using assms by (auto simp: update_stat_def summarizes_def Let_def max_def)
  moreover have "(\<exists>d' \<in> set ds. d' \<ge> OFFENDING_DRIVER_THRESHOLD_US) \<or> max d (fold max ds 0) \<ge> OFFENDING_DRIVER_THRESHOLD_US
      \<longleftrightarrow> (\<exists>d' \<in> set (ds @ [d]). d' \<ge> OFFENDING_DRIVER_THRESHOLD_US)"
    using fold_max_reaches [of OFFENDING_DRIVER_THRESHOLD_US ds]
    by (auto simp: OFFENDING_DRIVER_THRESHOLD_US_def le_max_iff_disj)
  moreover have "execution_count (update_stat quot d st) = of_nat (length (ds @ [d]))"
    "total_execution_us (update_stat quot d st) = sum_list (ds @ [d])"
    "avg_execution_us (update_stat quot d st) = quot (sum_list (ds @ [d])) (of_nat (length (ds @ [d])))"
    using assms by (simp_all add: update_stat_def summarizes_def Let_def add.commute)
  ultimately show ?thesis using assms unfolding summarizes_def by simp
qed

lemma record_all_summarizes:
  assumes "driver_stats kdi = Map.empty"
  shows "(driver_stats (record_all zero quot hist kdi) n = None \<longleftrightarrow> durations kdi n hist = []) \<and>
    (\<forall>st. driver_stats (record_all zero quot hist kdi) n = Some st \<longrightarrow>
       summarizes quot (durations kdi n hist) st \<and> stat_driver_name st = n)"
proof (induction hist arbitrary: n rule: rev_induct)
  case Nil
  then show ?case using assms by (simp add: record_all_def durations_def)
next
  case (snoc e hist)
  obtain a d where e: "e = (a, d)" by force
  let ?kdi = "record_all zero quot hist kdi"
  have step: "record_all zero quot (hist @ [e]) kdi = snd (record_execution zero quot a d ?kdi)"
    by (simp add: record_all_def e)
  have attr: "attribution a ?kdi = attribution a kdi" by (rule attribution_cong) simp
  show ?case
  proof (cases "fst (attribution a kdi) = n")
    case False
    then show ?thesis using snoc.IH [of n] unfolding step
      by (simp add: record_execution_def Let_def attr durations_def e)
  next
    case True
    have ds: "durations kdi n (hist @ [e]) = durations kdi n hist @ [d]"
      using True by (simp add: durations_def e)
    have new: "driver_stats (record_all zero quot (hist @ [e]) kdi) n =
        Some (update_stat quot d (opt_unwrap_or (driver_stats ?kdi n) (fresh_stat zero (attribution a kdi))))"
      unfolding step using True by (simp add: record_execution_def Let_def attr)
    have name: "stat_driver_name (update_stat quot d st) = stat_driver_name st" for st :: "'a DriverLatencyStat"
      by (simp add: update_stat_def Let_def)
    have "stat_driver_name (fresh_stat zero (attribution a kdi)) = n"
      using True by (cases "attribution a kdi") (simp add: fresh_stat_def)
    then show ?thesis unfolding new ds
      using snoc.IH [of n]
      by (cases "driver_stats ?kdi n") (simp_all add: name summarizes_fresh summarizes_update)
  qed
qed

section \<open>Properties\<close>

text \<open>
  C17: resolution is exact. After \<^verbatim>\<open>refresh_driver_list\<close> and any number of recorded executions, the
  driver an address is resolved to is a verified one, starts at or below the address by less than
  64 MB, and no verified driver starts nearer below it; no driver is returned only when no verified
  driver starts within 64 MB below the address.
\<close>

theorem resolve_address_exact:
  assumes "after = record_all zero quot hist (refresh_driver_list os m kdi)" and "room_above after"
  shows "case resolve_address a after of
       None \<Rightarrow> \<forall>e \<in> set (verified after). \<not> may_contain a e
     | Some d \<Rightarrow> d \<in> set (verified after) \<and> may_contain a d \<and>
         (\<forall>e \<in> set (verified after). base_address e \<le> a \<longrightarrow> base_address e \<le> base_address d)"
proof -
  have inv: "isolator_inv after"
    using refresh_inv [of os m kdi] by (simp add: assms(1) isolator_inv_def)
  have "\<not> may_contain a e" if "resolve_address a after = None" "e \<in> set (verified after)" for e
  proof (cases "a = 0")
    case True
    then show ?thesis using that(2) by (auto simp: may_contain_def verified_def word_gt_0)
  next
    case False
    then show ?thesis using resolve_finds [OF inv assms(2)] that by blast
  qed
  then show ?thesis using resolve_Some [OF inv assms(2)] by (auto split: option.split)
qed

text \<open>Two verified drivers and a listing of the statistics in the order of the names.\<close>

definition demo_drivers_os :: "world win32" where
  "demo_drivers_os = demo_os\<lparr>
     driver_list := (\<lambda>_. Some [(0x9000000, ''ndis.sys''), (0, []), (0x1000000, ''ntoskrnl.exe'')]),
     driver_path := (\<lambda>_ _. []), driverquery := (\<lambda>_. None)\<rparr>"

definition sorted_values :: "(string \<rightharpoonup> 'f DriverLatencyStat) \<Rightarrow> 'f DriverLatencyStat list" where
  "sorted_values m = map (the \<circ> m) (sorted_list_of_set (dom m))"

lemma demo_verified:
  "drivers (refresh_driver_list demo_drivers_os m kdi) =
     [\<lparr>base_address = 0x1000000, driver_file_name = ''ntoskrnl.exe'', driver_file_path = ''ntoskrnl.exe'', is_verified_base = True\<rparr>,
      \<lparr>base_address = 0x9000000, driver_file_name = ''ndis.sys'', driver_file_path = ''ndis.sys'', is_verified_base = True\<rparr>]"
  by (simp add: refresh_driver_list_def enumerated_drivers_def enumerated_driver_def demo_drivers_os_def demo_os_def Let_def)

lemma demo_room: "room_above (record_all zero quot hist (refresh_driver_list demo_drivers_os m kdi))"
  by (simp add: room_above_def verified_def demo_verified)

theorem resolve_address_exact_witness:
  "case resolve_address 0x9000010 (record_all (0::nat) (\<lambda>a b. unat a div unat b) [(0x9000010, 700)]
          (new_isolator demo_drivers_os demo_machine)) of
     None \<Rightarrow> False
   | Some d \<Rightarrow> base_address d = 0x9000000"
proof -
  let ?k = "record_all (0::nat) (\<lambda>a b. unat a div unat b) [(0x9000010, 700)] (new_isolator demo_drivers_os demo_machine)"
  have v: "verified ?k = drivers (refresh_driver_list demo_drivers_os demo_machine \<lparr>drivers = [], driver_stats = Map.empty :: string \<rightharpoonup> nat DriverLatencyStat\<rparr>)"
    by (simp add: verified_def new_isolator_def demo_verified)
  have "after = ?k \<Longrightarrow> room_above after" for after
    by (simp add: new_isolator_def demo_room)
  from resolve_address_exact [OF _ this [OF refl], where a = "0x9000010", unfolded new_isolator_def, OF refl]
  show ?thesis unfolding v [unfolded new_isolator_def] demo_verified new_isolator_def
    by (auto simp: may_contain_def split: option.splits)
qed

text \<open>
  the statistics refine the history. From cleared statistics, after any sequence of recorded
  executions, a name has an entry exactly when some execution was accounted to it, and the entry
  holds the number of these executions and the sum of their durations (both modulo the word size),
  the longest duration, the quotient of sum and number, and the flag, set exactly when one of
  them reached the threshold.
\<close>

theorem record_execution_refines_history:
  "case driver_stats (record_all zero quot hist (clear_stats kdi)) n of
     None \<Rightarrow> durations kdi n hist = []
   | Some st \<Rightarrow> durations kdi n hist \<noteq> [] \<and> stat_driver_name st = n \<and>
       summarizes quot (durations kdi n hist) st"
proof -
  have "durations (clear_stats kdi) n hist = durations kdi n hist"
    using attribution_cong [of "clear_stats kdi" kdi] by (simp add: durations_def clear_stats_def)
  with record_all_summarizes [of "clear_stats kdi" zero quot hist n]
  show ?thesis by (auto simp: clear_stats_def split: option.split)
qed

text \<open>What the code relies on in \<^verbatim>\<open>HashMap::values\<close>: every entry of the map is listed, and nothing else.\<close>

definition lists_values :: "((string \<rightharpoonup> 'f DriverLatencyStat) \<Rightarrow> 'f DriverLatencyStat list) \<Rightarrow> bool" where
  "lists_values vals \<longleftrightarrow> (\<forall>m. finite (dom m) \<longrightarrow> set (vals m) = ran m)"

lemma sorted_values_lists: "lists_values sorted_values"
  by (force simp: lists_values_def sorted_values_def ran_def dom_def image_iff)

lemma record_all_finite: "finite (dom (driver_stats kdi)) \<Longrightarrow> finite (dom (driver_stats (record_all zero quot hist kdi)))"
  by (induction hist arbitrary: kdi) (auto simp: record_all_def record_execution_def Let_def split: prod.splits)

lemma offending_drivers_history:
  assumes "lists_values vals"
  shows "stat_driver_name ` set (get_offending_drivers vals (record_all zero quot hist (clear_stats kdi))) =
      {fst (attribution a kdi) | a d. (a, d) \<in> set hist \<and> d \<ge> 500} \<and>
    sorted_wrt (\<lambda>s t. max_execution_us s \<ge> max_execution_us t)
      (get_offending_drivers vals (record_all zero quot hist (clear_stats kdi)))"
proof
  let ?k = "record_all zero quot hist (clear_stats kdi)"
  have dur: "durations (clear_stats kdi) n hist = durations kdi n hist" for n
    using attribution_cong [of "clear_stats kdi" kdi] by (simp add: durations_def clear_stats_def)
  have "finite (dom (driver_stats ?k))" by (rule record_all_finite) (simp add: clear_stats_def)
  then have vals: "set (get_offending_drivers vals ?k) = {st \<in> ran (driver_stats ?k). exceeds_500us_threshold st}"
    using assms by (auto simp: lists_values_def get_offending_drivers_def)
  have sums: "summarizes quot (durations kdi n hist) st \<and> stat_driver_name st = n"
    if "driver_stats ?k n = Some st" for n st
    using record_all_summarizes [of "clear_stats kdi" zero quot hist n, unfolded dur] that
    by (simp add: clear_stats_def)
  have none: "durations kdi n hist = []" if "driver_stats ?k n = None" for n
    using record_all_summarizes [of "clear_stats kdi" zero quot hist n, unfolded dur] that
    by (simp add: clear_stats_def)
  have "(\<exists>st. driver_stats ?k n = Some st \<and> exceeds_500us_threshold st) \<longleftrightarrow> (\<exists>d \<in> set (durations kdi n hist). d \<ge> 500)" for n
    using sums [of n] none [of n] by (cases "driver_stats ?k n") (auto simp: summarizes_def OFFENDING_DRIVER_THRESHOLD_US_def)
  moreover have "stat_driver_name ` set (get_offending_drivers vals ?k) =
      {n. \<exists>st. driver_stats ?k n = Some st \<and> exceeds_500us_threshold st}"
    using sums unfolding vals by (force simp: ran_def)
  ultimately show "stat_driver_name ` set (get_offending_drivers vals ?k) =
      {fst (attribution a kdi) | a d. (a, d) \<in> set hist \<and> d \<ge> 500}"
    by (force simp: durations_def)
  have "sorted (map by_max_desc (get_offending_drivers vals ?k))" by (simp add: get_offending_drivers_def)
  then show "sorted_wrt (\<lambda>s t. max_execution_us s \<ge> max_execution_us t) (get_offending_drivers vals ?k)"
    by (simp add: sorted_map by_max_desc_def word_le_def)
qed

text \<open>
  the offending list is complete and sorted. From cleared statistics, the names it lists are
  exactly those some execution of at least 500 microseconds was accounted to, the longest execution
  first.
\<close>

theorem offending_drivers_exact:
  assumes "lists_values vals"
  shows "stat_driver_name ` set (get_offending_drivers vals (record_all zero quot hist (clear_stats kdi))) =
      {fst (attribution a kdi) | a d. (a, d) \<in> set hist \<and> d \<ge> 500} \<and>
    sorted_wrt (\<lambda>s t. max_execution_us s \<ge> max_execution_us t)
      (get_offending_drivers vals (record_all zero quot hist (clear_stats kdi)))"
  using assms by (rule offending_drivers_history)

lemma long_Cons:
  "{f a | a d. (a, d) \<in> set (e # hist) \<and> t \<le> (d :: u64)} =
     (if t \<le> snd e then {f (fst e)} else {}) \<union> {f a | a d. (a, d) \<in> set hist \<and> t \<le> d}"
  by (cases e) auto

theorem offending_drivers_exact_witness:
  "stat_driver_name ` set (get_offending_drivers sorted_values
     (record_all (0::nat) (\<lambda>a b. unat a div unat b) [(0x9000010, 700), (0x1000010, 30)]
       (clear_stats (new_isolator demo_drivers_os demo_machine)))) = {''ndis.sys''}"
proof -
  let ?k = "new_isolator demo_drivers_os demo_machine :: nat KernelDriverIsolator"
  have "binary_search [0x1000000, 0x9000000] 0x9000010 = Inl 2"
    by (simp add: binary_search_def bs_loop.simps)
  then have "fst (attribution 0x9000010 ?k) = ''ndis.sys''"
    by (simp add: attribution_def resolve_address_def verified_def new_isolator_def demo_verified)
  then have "{fst (attribution a ?k) | a d. (a, d) \<in> set [(0x9000010, 700), (0x1000010, 30)] \<and> d \<ge> (500::u64)} = {''ndis.sys''}"
    unfolding long_Cons by simp
  with offending_drivers_exact [OF sorted_values_lists, where kdi = ?k and hist = "[(0x9000010, 700), (0x1000010, 30)]"]
  show ?thesis by (simp only:)
qed

end
