(* ===== verification/Latency_Monitor.thy ===== *)
theory Latency_Monitor
  imports Prelude
begin

text \<open>
  \<^verbatim>\<open>latency/monitor.rs\<close> and \<^verbatim>\<open>models/latency.rs\<close>: interrupt samples, their severity, the ring
  buffer and the monitor that keeps the latest samples and warnings. Sizes and indices stay below
  the length of an allocated vector and are natural numbers; durations and addresses keep their
  64 bits. An operation that would index out of range gives \<open>None\<close>, the panic.

  The ring buffer and the warning history both promise the same thing, the latest \<open>n\<close> entries in
  the order of arrival; that contract is the locale \<open>bounded_history\<close>.
\<close>

section \<open>The contract\<close>

definition keep_last :: "nat \<Rightarrow> 'a list \<Rightarrow> 'a list" where
  "keep_last n xs = drop (length xs - n) xs"

lemma length_keep_last [simp]: "length (keep_last n xs) = min n (length xs)"
  by (auto simp: keep_last_def)

lemma keep_last_all [simp]: "length xs \<le> n \<Longrightarrow> keep_last n xs = xs"
  by (simp add: keep_last_def)

lemma keep_last_snoc: "keep_last n (keep_last n xs @ [x]) = keep_last n (xs @ [x])"
proof (cases "length xs \<le> n")
  case False
  then have "length (keep_last n xs @ [x]) - n = 1" by simp
  then show ?thesis using False
    by (cases n) (simp_all add: keep_last_def Suc_diff_le flip: Suc_diff_Suc)
qed simp

lemma keep_last_keep_last: "k \<le> n \<Longrightarrow> keep_last k (keep_last n xs) = keep_last k xs"
  by (cases "length xs \<le> n") (simp_all add: keep_last_def)

text \<open>A sequence of operations, each of which may panic.\<close>

fun push_all :: "('a \<Rightarrow> 'b \<Rightarrow> 'b option) \<Rightarrow> 'a list \<Rightarrow> 'b \<Rightarrow> 'b option" where
  "push_all f [] b = Some b"
| "push_all f (x # xs) b = (case f x b of None \<Rightarrow> None | Some b' \<Rightarrow> push_all f xs b')"

lemma recent_keep_last: "(if length xs > k then drop (length xs - k) xs else xs) = keep_last k xs"
  by (simp add: keep_last_def)

locale bounded_history =
  fixes inv :: "'b \<Rightarrow> bool"
    and contents :: "'b \<Rightarrow> 'a list"
    and push :: "'a \<Rightarrow> 'b \<Rightarrow> 'b option"
    and cap :: nat
  assumes push_law: "inv b \<Longrightarrow> \<exists>b'. push x b = Some b' \<and> inv b' \<and> contents b' = keep_last cap (contents b @ [x])"
begin

lemma push_all_contents:
  "inv b \<Longrightarrow> contents b = keep_last cap ys \<Longrightarrow>
     \<exists>b'. push_all push xs b = Some b' \<and> inv b' \<and> contents b' = keep_last cap (ys @ xs)"
proof (induction xs arbitrary: b ys)
  case Nil
  then show ?case by simp
next
  case (Cons x xs)
  obtain b1 where b1: "push x b = Some b1" "inv b1" "contents b1 = keep_last cap (contents b @ [x])"
    using push_law [OF Cons.prems(1)] by blast
  have "contents b1 = keep_last cap (ys @ [x])"
    using b1(3) Cons.prems(2) keep_last_snoc by metis
  from Cons.IH [OF b1(2) this] b1(1) show ?case by simp
qed

end

section \<open>Samples and warnings\<close>

datatype LatencyMeasurementStatus =
    RealEtwCollected
  | UnsupportedElevationRequired
  | UnsupportedSessionInUse
  | SessionError
  | SyntheticTestFixture

fun status_as_str :: "LatencyMeasurementStatus \<Rightarrow> string" where
  "status_as_str RealEtwCollected = ''REAL_ETW_COLLECTED''"
| "status_as_str UnsupportedElevationRequired = ''UNSUPPORTED_ELEVATION_REQUIRED''"
| "status_as_str UnsupportedSessionInUse = ''UNSUPPORTED_SESSION_IN_USE''"
| "status_as_str SessionError = ''SESSION_ERROR''"
| "status_as_str SyntheticTestFixture = ''SYNTHETIC_TEST_FIXTURE''"

record DpcIsrSample =
  timestamp_us :: u64
  duration_us :: u64
  routine_address :: u64
  is_dpc :: bool
  sample_driver_name :: "string option"

datatype LatencySeverity = Normal | Warning | Critical

definition severity_of_duration :: "u64 \<Rightarrow> LatencySeverity" where
  "severity_of_duration d = (if d \<ge> 1000 then Critical else if d \<ge> 500 then Warning else Normal)"

fun severity_as_str :: "LatencySeverity \<Rightarrow> string" where
  "severity_as_str Normal = ''NORMAL''"
| "severity_as_str Warning = ''WARNING''"
| "severity_as_str Critical = ''CRITICAL''"

text \<open>The message of an event, by the parts that are formatted into it.\<close>

datatype warning_message = RoutineExceeded bool string u64 u64

record LatencyWarningEvent =
  event_timestamp_us :: u64
  event_duration_us :: u64
  event_driver_name :: string
  event_routine_address :: u64
  event_is_dpc :: bool
  threshold_us :: u64
  severity :: LatencySeverity
  event_message :: warning_message

definition DEFAULT_MONITOR_RING_CAPACITY :: nat where "DEFAULT_MONITOR_RING_CAPACITY = 4096"
definition WARNING_THRESHOLD_US :: u64 where "WARNING_THRESHOLD_US = 500"
definition CRITICAL_THRESHOLD_US :: u64 where "CRITICAL_THRESHOLD_US = 1000"

section \<open>The ring buffer\<close>

record LatencyRingBuffer =
  samples :: "DpcIsrSample option list"
  capacity :: nat
  head :: nat
  ring_count :: nat

definition new_ring :: "nat \<Rightarrow> LatencyRingBuffer" where
  "new_ring n = \<lparr>samples = replicate n None, capacity = n, head = 0, ring_count = 0\<rparr>"

definition ring_push :: "DpcIsrSample \<Rightarrow> LatencyRingBuffer \<Rightarrow> LatencyRingBuffer option" where
  "ring_push s b =
     (if head b < length (samples b) \<and> capacity b \<noteq> 0
      then Some (b\<lparr>samples := (samples b)[head b := Some s], head := (head b + 1) mod capacity b,
                   ring_count := (if ring_count b < capacity b then ring_count b + 1 else ring_count b)\<rparr>)
      else None)"

definition ring_to_vec :: "LatencyRingBuffer \<Rightarrow> DpcIsrSample list" where
  "ring_to_vec b =
     (let start = (if ring_count b < capacity b then 0 else head b)
      in List.map_filter (\<lambda>i. samples b ! ((start + i) mod capacity b)) [0..<ring_count b])"

definition ring_clear :: "LatencyRingBuffer \<Rightarrow> LatencyRingBuffer" where
  "ring_clear b = b\<lparr>samples := map (\<lambda>_. None) (samples b), head := 0, ring_count := 0\<rparr>"

section \<open>The monitor\<close>

record LatencyMonitor =
  ring_buffer :: LatencyRingBuffer
  warning_events :: "LatencyWarningEvent list"
  max_warnings_history :: nat

definition new_monitor :: "nat \<Rightarrow> LatencyMonitor" where
  "new_monitor n = \<lparr>ring_buffer = new_ring n, warning_events = [], max_warnings_history = 1000\<rparr>"

definition default_monitor :: LatencyMonitor where
  "default_monitor = new_monitor DEFAULT_MONITOR_RING_CAPACITY"

definition warning_of :: "DpcIsrSample \<Rightarrow> LatencyWarningEvent option" where
  "warning_of s =
     (let d = duration_us s
      in if d \<ge> WARNING_THRESHOLD_US then
           let sev = severity_of_duration d;
               driver = opt_unwrap_or (sample_driver_name s) ''Unknown'';
               threshold = (if sev = Critical then CRITICAL_THRESHOLD_US else WARNING_THRESHOLD_US)
           in Some \<lparr>event_timestamp_us = timestamp_us s, event_duration_us = d, event_driver_name = driver,
                event_routine_address = routine_address s, event_is_dpc = is_dpc s, threshold_us = threshold,
                severity = sev, event_message = RoutineExceeded (is_dpc s) driver d threshold\<rparr>
         else None)"

definition push_warning ::
  "nat \<Rightarrow> LatencyWarningEvent \<Rightarrow> LatencyWarningEvent list \<Rightarrow> LatencyWarningEvent list option" where
  "push_warning n e ws =
     (if length ws \<ge> n then (case ws of [] \<Rightarrow> None | _ # rest \<Rightarrow> Some (rest @ [e]))
      else Some (ws @ [e]))"

definition ingest_sample ::
  "DpcIsrSample \<Rightarrow> LatencyMonitor \<Rightarrow> (LatencyWarningEvent option \<times> LatencyMonitor) option" where
  "ingest_sample s mon =
     (case (case warning_of s of
              None \<Rightarrow> Some (warning_events mon)
            | Some e \<Rightarrow> push_warning (max_warnings_history mon) e (warning_events mon)) of
        None \<Rightarrow> None
      | Some ws \<Rightarrow>
          (case ring_push s (ring_buffer mon) of
             None \<Rightarrow> None
           | Some b \<Rightarrow> Some (warning_of s, mon\<lparr>warning_events := ws, ring_buffer := b\<rparr>)))"

definition get_recent_samples :: "nat \<Rightarrow> LatencyMonitor \<Rightarrow> DpcIsrSample list" where
  "get_recent_samples max_count mon =
     (let all = ring_to_vec (ring_buffer mon)
      in if length all > max_count then drop (length all - max_count) all else all)"

definition clear_monitor :: "LatencyMonitor \<Rightarrow> LatencyMonitor" where
  "clear_monitor mon = mon\<lparr>ring_buffer := ring_clear (ring_buffer mon), warning_events := []\<rparr>"

section \<open>The ring buffer keeps its contract\<close>

text \<open>
  The slots in use hold samples: the first \<open>ring_count\<close> ones until the buffer is full, then all.
\<close>

definition ring_inv :: "nat \<Rightarrow> LatencyRingBuffer \<Rightarrow> bool" where
  "ring_inv n b \<longleftrightarrow>
     0 < n \<and> capacity b = n \<and> length (samples b) = n \<and> head b < n \<and> ring_count b \<le> n \<and>
     (ring_count b < n \<longrightarrow> head b = ring_count b) \<and>
     (\<forall>i<ring_count b. samples b ! i \<noteq> None)"

text \<open>The slot of the \<open>i\<close>th sample in arrival order.\<close>

definition slot :: "LatencyRingBuffer \<Rightarrow> nat \<Rightarrow> nat" where
  "slot b i = ((if ring_count b < capacity b then 0 else head b) + i) mod capacity b"

lemma slot_simps:
  assumes "ring_inv n b"
  shows "ring_count b < n \<Longrightarrow> i < ring_count b \<Longrightarrow> slot b i = i"
    and "ring_count b = n \<Longrightarrow> slot b i = (head b + i) mod n"
    and "slot b i < n"
  using assms by (auto simp: slot_def ring_inv_def)

lemma slot_used:
  assumes "ring_inv n b" and "i < ring_count b"
  shows "samples b ! slot b i \<noteq> None"
proof (cases "ring_count b < n")
  case True
  then show ?thesis using slot_simps(1) [OF assms(1) True assms(2)] assms by (simp add: ring_inv_def)
next
  case False
  then have "ring_count b = n" using assms(1) by (simp add: ring_inv_def)
  then show ?thesis using slot_simps(3) [OF assms(1)] assms(1) by (simp add: ring_inv_def)
qed

lemma map_filter_the:
  "(\<And>i. i \<in> set is \<Longrightarrow> f i \<noteq> None) \<Longrightarrow> List.map_filter f is = map (\<lambda>i. the (f i)) is"
proof (induction "is")
  case (Cons a "is")
  then obtain y where "f a = Some y" by fastforce
  with Cons show ?case by (simp add: List.map_filter_simps)
qed (simp add: List.map_filter_simps)

lemma ring_to_vec_slots:
  assumes "ring_inv n b"
  shows "ring_to_vec b = map (\<lambda>i. the (samples b ! slot b i)) [0..<ring_count b]"
proof -
  have "ring_to_vec b = List.map_filter (\<lambda>i. samples b ! slot b i) [0..<ring_count b]"
    by (simp add: ring_to_vec_def slot_def Let_def)
  also have "\<dots> = map (\<lambda>i. the (samples b ! slot b i)) [0..<ring_count b]"
    by (rule map_filter_the) (use slot_used [OF assms] in auto)
  finally show ?thesis .
qed

lemma length_ring_to_vec: "ring_inv n b \<Longrightarrow> length (ring_to_vec b) = ring_count b"
  by (simp add: ring_to_vec_slots)

lemma ring_push_result:
  assumes "ring_inv n b"
  obtains b' where "ring_push s b = Some b'" "ring_inv n b'" "samples b' = (samples b)[head b := Some s]"
    "head b' = (head b + 1) mod n" "ring_count b' = min n (ring_count b + 1)"
proof
  let ?b = "b\<lparr>samples := (samples b)[head b := Some s], head := (head b + 1) mod capacity b,
     ring_count := (if ring_count b < capacity b then ring_count b + 1 else ring_count b)\<rparr>"
  show "ring_push s b = Some ?b" using assms by (simp add: ring_push_def ring_inv_def)
  show "samples ?b = (samples b)[head b := Some s]" "head ?b = (head b + 1) mod n"
    "ring_count ?b = min n (ring_count b + 1)"
    using assms by (auto simp: ring_inv_def)
  show "ring_inv n ?b"
    using assms by (auto simp: ring_inv_def nth_list_update)
qed

lemma ring_push_contents:
  assumes inv: "ring_inv n b" and push: "ring_push s b = Some b'"
  shows "ring_to_vec b' = keep_last n (ring_to_vec b @ [s])"
proof (rule nth_equalityI)
  obtain b1 where b1: "ring_push s b = Some b1" "ring_inv n b1" "samples b1 = (samples b)[head b := Some s]"
    "head b1 = (head b + 1) mod n" "ring_count b1 = min n (ring_count b + 1)"
    by (rule ring_push_result [OF inv])
  then have b': "ring_inv n b'" "samples b' = (samples b)[head b := Some s]"
    "head b' = (head b + 1) mod n" "ring_count b' = min n (ring_count b + 1)"
    using push by simp_all
  have n: "0 < n" "head b < n" "length (samples b) = n" "ring_count b \<le> n"
    using inv by (simp_all add: ring_inv_def)
  show "length (ring_to_vec b') = length (keep_last n (ring_to_vec b @ [s]))"
    by (simp add: length_ring_to_vec [OF inv] length_ring_to_vec [OF b'(1)] b'(4))
  fix i assume "i < length (ring_to_vec b')"
  then have i: "i < min n (ring_count b + 1)" by (simp add: length_ring_to_vec [OF b'(1)] b'(4))
  have lhs: "ring_to_vec b' ! i = the ((samples b)[head b := Some s] ! slot b' i)"
    using i by (simp add: ring_to_vec_slots [OF b'(1)] b'(2,4))
  show "ring_to_vec b' ! i = keep_last n (ring_to_vec b @ [s]) ! i"
  proof (cases "ring_count b < n")
    case True
    have h: "head b = ring_count b" using inv True by (simp add: ring_inv_def)
    have "slot b' i = i"
    proof (cases "ring_count b + 1 < n")
      case True
      then show ?thesis using i b'(4) slot_simps(1) [OF b'(1)] by simp
    next
      case False
      then have "ring_count b + 1 = n" using \<open>ring_count b < n\<close> by simp
      then have "ring_count b' = n" "head b' = 0" using b'(3,4) h by simp_all
      then show ?thesis using i slot_simps(2) [OF b'(1)] by simp
    qed
    then show ?thesis
      using i True h n lhs slot_simps(1) [OF inv True]
      by (cases "i = ring_count b")
        (auto simp: length_ring_to_vec [OF inv] nth_append ring_to_vec_slots [OF inv])
  next
    case False
    then have full: "ring_count b = n" using n by simp
    have len: "length (ring_to_vec b) = n" using length_ring_to_vec [OF inv] full by simp
    have s': "slot b' i = (head b + Suc i) mod n"
      using slot_simps(2) [OF b'(1), of i] b'(3,4) full by (simp add: mod_add_left_eq)
    have k: "keep_last n (ring_to_vec b @ [s]) ! i = (ring_to_vec b @ [s]) ! Suc i"
      using i full len by (simp add: keep_last_def nth_drop del: drop_append)
    show ?thesis
    proof (cases "Suc i < n")
      case True
      have "(head b + Suc i) mod n \<noteq> head b"
        using True n(2) by (cases "head b + Suc i < n") (auto simp: mod_if)
      then show ?thesis
        using True lhs k s' slot_simps(2) [OF inv full, of "Suc i"] full len
        by (simp add: nth_append ring_to_vec_slots [OF inv])
    next
      case False
      then have "Suc i = n" using i full by simp
      then have "slot b' i = head b" using s' n by (metis mod_add_self2 mod_less)
      then show ?thesis using lhs k n len \<open>Suc i = n\<close> by (simp add: nth_append)
    qed
  qed
qed

interpretation ring: bounded_history "ring_inv n" ring_to_vec ring_push n for n
proof
  fix b x assume inv: "ring_inv n b"
  then obtain b' where "ring_push x b = Some b'" "ring_inv n b'" by (rule ring_push_result)
  with ring_push_contents [OF inv] show
    "\<exists>b'. ring_push x b = Some b' \<and> ring_inv n b' \<and> ring_to_vec b' = keep_last n (ring_to_vec b @ [x])"
    by blast
qed

interpretation warnings: bounded_history "\<lambda>ws. 0 < n \<and> length ws \<le> n" "\<lambda>ws. ws" "push_warning n" n for n
  by unfold_locales (auto simp: push_warning_def keep_last_def Suc_diff_le split: list.split)

section \<open>Ingesting a sequence of samples\<close>

definition ingest :: "DpcIsrSample \<Rightarrow> LatencyMonitor \<Rightarrow> LatencyMonitor option" where
  "ingest s mon = map_option snd (ingest_sample s mon)"

definition monitor_inv :: "nat \<Rightarrow> LatencyMonitor \<Rightarrow> bool" where
  "monitor_inv n mon \<longleftrightarrow> ring_inv n (ring_buffer mon) \<and> max_warnings_history mon = 1000 \<and>
     length (warning_events mon) \<le> 1000"

lemma new_monitor_inv: "0 < n \<Longrightarrow> monitor_inv n (new_monitor n)"
  by (simp add: monitor_inv_def new_monitor_def new_ring_def ring_inv_def)

lemma clear_monitor_inv: "monitor_inv n mon \<Longrightarrow> monitor_inv n (clear_monitor mon)"
  by (auto simp: monitor_inv_def clear_monitor_def ring_clear_def ring_inv_def)

lemma empty_contents:
  "ring_to_vec (ring_buffer (new_monitor n)) = []" "warning_events (new_monitor n) = []"
  "ring_to_vec (ring_buffer (clear_monitor mon)) = []" "warning_events (clear_monitor mon) = []"
  by (simp_all add: new_monitor_def new_ring_def clear_monitor_def ring_clear_def ring_to_vec_def map_filter_def)

lemma ingest_step:
  assumes "monitor_inv n mon"
  shows "\<exists>mon'. ingest_sample s mon = Some (warning_of s, mon') \<and> monitor_inv n mon' \<and>
    ring_to_vec (ring_buffer mon') = keep_last n (ring_to_vec (ring_buffer mon) @ [s]) \<and>
    warning_events mon' = keep_last 1000 (warning_events mon @ (case warning_of s of None \<Rightarrow> [] | Some e \<Rightarrow> [e]))"
proof -
  have inv: "ring_inv n (ring_buffer mon)" "max_warnings_history mon = 1000" "length (warning_events mon) \<le> 1000"
    using assms by (simp_all add: monitor_inv_def)
  obtain b where b: "ring_push s (ring_buffer mon) = Some b" "ring_inv n b"
    "ring_to_vec b = keep_last n (ring_to_vec (ring_buffer mon) @ [s])"
    using ring.push_law [OF inv(1)] by blast
  show ?thesis
  proof (cases "warning_of s")
    case None
    with b inv show ?thesis by (simp add: ingest_sample_def monitor_inv_def)
  next
    case (Some e)
    obtain ws where "push_warning 1000 e (warning_events mon) = Some ws" "length ws \<le> 1000"
      "ws = keep_last 1000 (warning_events mon @ [e])"
      using warnings.push_law [of 1000 "warning_events mon" e] inv(3) by auto
    with Some b inv show ?thesis by (simp add: ingest_sample_def monitor_inv_def)
  qed
qed

lemma ingest_all:
  assumes "monitor_inv n mon" and "ring_to_vec (ring_buffer mon) = keep_last n ss"
    and "warning_events mon = keep_last 1000 (List.map_filter warning_of ss)"
  shows "\<exists>mon'. push_all ingest xs mon = Some mon' \<and> monitor_inv n mon' \<and>
    ring_to_vec (ring_buffer mon') = keep_last n (ss @ xs) \<and>
    warning_events mon' = keep_last 1000 (List.map_filter warning_of (ss @ xs))"
  using assms
proof (induction xs arbitrary: mon ss)
  case Nil
  then show ?case by simp
next
  case (Cons x xs)
  obtain mon1 where m1: "ingest_sample x mon = Some (warning_of x, mon1)" "monitor_inv n mon1"
    "ring_to_vec (ring_buffer mon1) = keep_last n (ring_to_vec (ring_buffer mon) @ [x])"
    "warning_events mon1 = keep_last 1000 (warning_events mon @ (case warning_of x of None \<Rightarrow> [] | Some e \<Rightarrow> [e]))"
    using ingest_step [OF Cons.prems(1)] by blast
  have "ring_to_vec (ring_buffer mon1) = keep_last n (ss @ [x])"
    using m1(3) Cons.prems(2) keep_last_snoc by metis
  moreover have "warning_events mon1 = keep_last 1000 (List.map_filter warning_of (ss @ [x]))"
    using m1(4) Cons.prems(3) keep_last_snoc [of 1000 "List.map_filter warning_of ss"]
    by (simp add: map_filter_def split: option.splits)
  ultimately show ?case
    using Cons.IH [OF m1(2), of "ss @ [x]"] m1(1) by (simp add: ingest_def)
qed

section \<open>Properties\<close>

text \<open>
  the ring buffer implements its abstract specification. Pushing any sequence of samples into a
  fresh buffer with room for at least one never panics, and reading it gives the latest ones, as
  many as the capacity, in the order of arrival.
\<close>

theorem ring_keeps_latest:
  assumes "0 < n"
  shows "\<exists>b. push_all ring_push xs (new_ring n) = Some b \<and> ring_to_vec b = keep_last n xs \<and>
    ring_count b = min n (length xs)"
proof -
  have "ring_inv n (new_ring n)" "ring_to_vec (new_ring n) = keep_last n []"
    using assms by (simp_all add: ring_inv_def new_ring_def ring_to_vec_def map_filter_def)
  from ring.push_all_contents [OF this, of xs] show ?thesis
    using length_ring_to_vec by fastforce
qed

theorem ring_keeps_latest_witness:
  "\<exists>b. push_all ring_push (map (\<lambda>i. \<lparr>timestamp_us = i, duration_us = 1, routine_address = 0, is_dpc = True,
       sample_driver_name = None\<rparr>) [1, 2, 3]) (new_ring 2) = Some b \<and> map timestamp_us (ring_to_vec b) = [2, 3]"
  using ring_keeps_latest [of 2 "map (\<lambda>i. \<lparr>timestamp_us = i, duration_us = 1, routine_address = 0, is_dpc = True,
       sample_driver_name = None\<rparr>) [1, 2, 3]"]
  by (auto simp: keep_last_def)

text \<open>
  the monitor never panics and reports exactly the latest interrupts. After any sequence of
  samples a fresh monitor holds the latest of them and the latest thousand warnings, one for each
  sample of 500 microseconds or more, critical from 1000 on.
\<close>

theorem monitor_keeps_latest:
  assumes "0 < n"
  shows "\<exists>mon. push_all ingest xs (new_monitor n) = Some mon \<and>
    get_recent_samples k mon = keep_last (min k n) xs \<and>
    warning_events mon = keep_last 1000 (List.map_filter warning_of xs) \<and>
    map event_duration_us (List.map_filter warning_of xs) = filter (\<lambda>d. d \<ge> 500) (map duration_us xs) \<and>
    list_all (\<lambda>e. (severity e = Critical) = (event_duration_us e \<ge> 1000) \<and> event_duration_us e \<ge> threshold_us e)
      (warning_events mon)"
proof -
  obtain mon where mon: "push_all ingest xs (new_monitor n) = Some mon"
    "ring_to_vec (ring_buffer mon) = keep_last n xs"
    "warning_events mon = keep_last 1000 (List.map_filter warning_of xs)"
    using ingest_all [OF new_monitor_inv [OF assms], of "[]" xs]
    by (auto simp: empty_contents map_filter_def)
  have "get_recent_samples k mon = keep_last k (keep_last n xs)"
    unfolding get_recent_samples_def mon(2) Let_def by (rule recent_keep_last)
  also have "\<dots> = keep_last (min k n) xs"
    by (cases "k \<le> n") (simp_all add: keep_last_keep_last min_def)
  finally have recent: "get_recent_samples k mon = keep_last (min k n) xs" .
  have durations: "map event_duration_us (List.map_filter warning_of xs) = filter (\<lambda>d. d \<ge> 500) (map duration_us xs)"
    by (induction xs) (simp_all add: map_filter_def warning_of_def WARNING_THRESHOLD_US_def Let_def)
  have each: "(severity e = Critical) = (event_duration_us e \<ge> 1000) \<and> event_duration_us e \<ge> threshold_us e"
    if "warning_of s = Some e" for s e
    using that by (auto simp: warning_of_def severity_of_duration_def WARNING_THRESHOLD_US_def
        CRITICAL_THRESHOLD_US_def Let_def split: if_splits)
  have "e \<in> set (List.map_filter warning_of xs)" if "e \<in> set (warning_events mon)" for e
    using that mon(3) set_drop_subset unfolding keep_last_def by fastforce
  then have "list_all (\<lambda>e. (severity e = Critical) = (event_duration_us e \<ge> 1000) \<and> event_duration_us e \<ge> threshold_us e)
      (warning_events mon)"
    using each by (fastforce simp: list_all_iff map_filter_def)
  with mon recent durations show ?thesis by blast
qed

theorem monitor_keeps_latest_witness:
  "\<exists>mon. push_all ingest [\<lparr>timestamp_us = 1, duration_us = 1200, routine_address = 0, is_dpc = True,
       sample_driver_name = None\<rparr>] (new_monitor 8) = Some mon \<and> length (get_recent_samples 5 mon) = 1"
  using monitor_keeps_latest [of 8 "[\<lparr>timestamp_us = 1, duration_us = 1200, routine_address = 0, is_dpc = True,
       sample_driver_name = None\<rparr>]" 5] by auto

text \<open>
  A monitor with no room panics on its first sample.
\<close>

lemma zero_capacity_panics: "ingest_sample s (new_monitor 0) = None"
  by (simp add: ingest_sample_def ring_push_def new_monitor_def new_ring_def push_warning_def split: option.split)

end
