(* ===== verification/Network_Adapter.thy ===== *)
theory Network_Adapter
  imports Win32
begin

text \<open>
  \<^verbatim>\<open>network/adapter.rs\<close>, \<^verbatim>\<open>network/qos.rs\<close> and \<^verbatim>\<open>network/flow_control.rs\<close>: network adapter
  properties, QoS policies, flow control and receive-side scaling, all driven through PowerShell
  with constant scripts whose inputs are environment variables. The JSON decoder is a
  parameter (\<open>net_json\<close>). The three input validators are instances of one interface,
  \<open>identifier_allowlist\<close>.
\<close>

section \<open>Data\<close>

record NicAdvancedProperty =
  nic_display_name :: string
  registry_keyword :: string
  registry_value :: "string list option"

definition first_value :: "NicAdvancedProperty \<Rightarrow> string option" where
  "first_value p =
     (case registry_value p of
        None \<Rightarrow> None
      | Some vs \<Rightarrow> (case vs of [] \<Rightarrow> None | v # _ \<Rightarrow> Some v))"

record AdapterPropertyBackup =
  adapter_name :: string
  keyword :: string
  prop_display_name :: string
  original_value :: string

datatype FlowControlSetting = Disabled | TxEnabled | RxEnabled | RxTxEnabled | UnknownSetting

definition flow_control_of_int :: "int \<Rightarrow> FlowControlSetting" where
  "flow_control_of_int v =
     (if v = 0 then Disabled else if v = 1 then TxEnabled else if v = 2 then RxEnabled
      else if v = 3 then RxTxEnabled else UnknownSetting)"

datatype rss_recommendation = AdapterRssDisabled string | GlobalRssDisabled | TooFewQueues nat

record RssVerificationResult =
  rss_adapter_name :: string
  rss_enabled :: bool
  global_tcp_rss_enabled :: bool
  num_queues :: nat
  meets_minimum_queues :: bool
  is_optimal :: bool
  recommendations :: "rss_recommendation list"

record QosPolicyInfo =
  qos_name :: string
  app_path_name :: string
  protocol :: string
  dscp_value :: nat
  dst_port_start :: nat
  dst_port_end :: nat
  is_active :: bool

record QosPolicyBackup =
  policy_name :: string
  previous_nla_setting :: "string option"
  was_policy_present_before :: bool

text \<open>What \<^verbatim>\<open>serde_json\<close> makes of the output of the scripts.\<close>

record NetQosPolicyRaw =
  raw_name :: "string option"
  raw_app_path_name :: "string option"
  raw_ip_protocol :: "string option"
  raw_ip_dst_port_start :: "nat option"
  raw_ip_dst_port_end :: "nat option"
  raw_dscp_value :: "nat option"

record NetAdapterRssRaw =
  raw_enabled :: "bool option"
  raw_number_of_receive_queues :: "nat option"

record net_json =
  json_nic_properties :: "string \<Rightarrow> NicAdvancedProperty list option"
  json_qos_policy :: "string \<Rightarrow> NetQosPolicyRaw option"
  json_adapter_rss :: "string \<Rightarrow> NetAdapterRssRaw option"

datatype net_error =
    InvalidLength
  | InvalidCharacter char string
  | SpawnFailed ps_script
  | NetshFailed
  | ScriptFailed ps_script string
  | JsonParseFailed string
  | ElevationRequired
  | InvalidNlaValue

section \<open>Validators\<close>

definition ident_char :: "char \<Rightarrow> bool" where
  "ident_char c \<longleftrightarrow> is_ascii_alphanumeric c \<or> c \<in> set ''_-.* ()''"

definition value_char :: "char \<Rightarrow> bool" where
  "value_char c \<longleftrightarrow> is_ascii_alphanumeric c \<or> c \<in> set ''_-. ''"

definition policy_char :: "char \<Rightarrow> bool" where
  "policy_char c \<longleftrightarrow> is_ascii_alphanumeric c \<or> c \<in> set ''_-''"

text \<open>\<open>for c in s.chars() { if !allowed(c) { return Err(..) } }\<close>\<close>

fun check_chars :: "(char \<Rightarrow> bool) \<Rightarrow> string \<Rightarrow> string \<Rightarrow> (net_error, unit) rust_result" where
  "check_chars allowed input [] = Ok ()"
| "check_chars allowed input (c # cs) =
     (if \<not> allowed c then Err (InvalidCharacter c input) else check_chars allowed input cs)"

definition validate_adapter_identifier :: "string \<Rightarrow> (net_error, unit) rust_result" where
  "validate_adapter_identifier input =
     (if input = [] \<or> length input > 256 then Err InvalidLength
      else check_chars ident_char input input)"

definition validate_property_value :: "string \<Rightarrow> (net_error, unit) rust_result" where
  "validate_property_value v =
     (if length v > 256 then Err InvalidLength else check_chars value_char v v)"

definition validate_policy_name :: "string \<Rightarrow> (net_error, unit) rust_result" where
  "validate_policy_name name =
     (if name = [] \<or> length name > 128 then Err InvalidLength
      else check_chars policy_char name name)"

section \<open>Adapter properties\<close>

definition EEE_KEYWORDS :: "string list" where
  "EEE_KEYWORDS = [''*EEE'', ''*AdvancedEEE'', ''*EEELinkAdvertisement'']"

definition GREEN_ETHERNET_KEYWORDS :: "string list" where
  "GREEN_ETHERNET_KEYWORDS =
     [''*GreenEthernet'', ''GreenEthernet'', ''PowerSavingMode'', ''AutoDisableGigabit'', ''GigaLite'']"

definition is_elevation_available :: "'w win32 \<Rightarrow> 'w machine \<Rightarrow> bool" where
  "is_elevation_available os m = (case token_elevation os (env m) of Some v \<Rightarrow> v \<noteq> 0 | None \<Rightarrow> False)"

definition run_ps ::
  "'w win32 \<Rightarrow> ps_script \<Rightarrow> (string \<times> string) list \<Rightarrow> 'w machine \<Rightarrow>
     (bool \<times> string) option \<times> 'w machine" where
  "run_ps os script vars = call (RunPowerShell script vars) (powershell os script vars)"

definition query_adapter_properties ::
  "'w win32 \<Rightarrow> net_json \<Rightarrow> string \<Rightarrow> 'w machine \<Rightarrow>
     (net_error, NicAdvancedProperty list) rust_result \<times> 'w machine" where
  "query_adapter_properties os js name m =
     (case validate_adapter_identifier name of
        Inl e \<Rightarrow> (Err e, m)
      | Inr _ \<Rightarrow>
          (case run_ps os QUERY_ADAPTER_SCRIPT [(''VAL_OPT_ADAPTER'', name)] m of
             (None, m) \<Rightarrow> (Err (SpawnFailed QUERY_ADAPTER_SCRIPT), m)
           | (Some (success, out), m) \<Rightarrow>
               if \<not> success then (Err (ScriptFailed QUERY_ADAPTER_SCRIPT name), m)
               else
                 let stdout = trim out
                 in if stdout = [] \<or> stdout = ''null'' then (Ok [], m)
                    else case json_nic_properties js stdout of
                           None \<Rightarrow> (Err (JsonParseFailed stdout), m)
                         | Some props \<Rightarrow> (Ok props, m)))"

definition query_property ::
  "'w win32 \<Rightarrow> net_json \<Rightarrow> string \<Rightarrow> string \<Rightarrow> 'w machine \<Rightarrow>
     (net_error, NicAdvancedProperty option) rust_result \<times> 'w machine" where
  "query_property os js name kw m =
     (case validate_adapter_identifier name of Inl e \<Rightarrow> (Err e, m) | Inr _ \<Rightarrow>
      case validate_adapter_identifier kw of Inl e \<Rightarrow> (Err e, m) | Inr _ \<Rightarrow>
      case query_adapter_properties os js name m of
        (Inl e, m) \<Rightarrow> (Err e, m)
      | (Inr props, m) \<Rightarrow>
          (Ok (find (\<lambda>p. eq_ignore_ascii_case (registry_keyword p) kw) props), m))"

definition set_adapter_property ::
  "'w win32 \<Rightarrow> string \<Rightarrow> string \<Rightarrow> string \<Rightarrow> 'w machine \<Rightarrow> (net_error, unit) rust_result \<times> 'w machine"
where
  "set_adapter_property os name kw v m =
     (case validate_adapter_identifier name of Inl e \<Rightarrow> (Err e, m) | Inr _ \<Rightarrow>
      case validate_adapter_identifier kw of Inl e \<Rightarrow> (Err e, m) | Inr _ \<Rightarrow>
      case validate_property_value v of Inl e \<Rightarrow> (Err e, m) | Inr _ \<Rightarrow>
      if \<not> is_elevation_available os m then (Err ElevationRequired, m)
      else
        case run_ps os SET_SCRIPT
               [(''VAL_OPT_ADAPTER'', name), (''VAL_OPT_KEYWORD'', kw), (''VAL_OPT_VALUE'', v)] m of
          (None, m) \<Rightarrow> (Err (SpawnFailed SET_SCRIPT), m)
        | (Some (success, _), m) \<Rightarrow>
            if \<not> success then (Err (ScriptFailed SET_SCRIPT name), m) else (Ok (), m))"

definition query_adapter_link_status ::
  "'w win32 \<Rightarrow> string \<Rightarrow> 'w machine \<Rightarrow> (net_error, string) rust_result \<times> 'w machine" where
  "query_adapter_link_status os name m =
     (case validate_adapter_identifier name of
        Inl e \<Rightarrow> (Err e, m)
      | Inr _ \<Rightarrow>
          (case run_ps os STATUS_SCRIPT [(''VAL_OPT_ADAPTER'', name)] m of
             (None, m) \<Rightarrow> (Err (SpawnFailed STATUS_SCRIPT), m)
           | (Some (success, out), m) \<Rightarrow>
               if \<not> success then (Err (ScriptFailed STATUS_SCRIPT name), m) else (Ok (trim out), m)))"

text \<open>
  One of the two keyword loops. A backup is pushed before the property is set, and an error
  leaves the whole operation at once, so the backups collected so far are lost with it.
\<close>

fun zero_keywords ::
  "'w win32 \<Rightarrow> string \<Rightarrow> NicAdvancedProperty list \<Rightarrow> string list \<Rightarrow> AdapterPropertyBackup list \<Rightarrow>
     'w machine \<Rightarrow> (net_error, AdapterPropertyBackup list) rust_result \<times> 'w machine" where
  "zero_keywords os name props [] backups m = (Ok backups, m)"
| "zero_keywords os name props (kw # kws) backups m =
     (case find (\<lambda>p. eq_ignore_ascii_case (registry_keyword p) kw) props of
        None \<Rightarrow> zero_keywords os name props kws backups m
      | Some prop \<Rightarrow>
          let current_val = opt_unwrap_or (first_value prop) ''0''
          in if current_val \<noteq> ''0'' then
               let backups = backups @ [\<lparr>adapter_name = name, keyword = registry_keyword prop,
                     prop_display_name = nic_display_name prop, original_value = current_val\<rparr>]
               in case set_adapter_property os name (registry_keyword prop) ''0'' m of
                    (Inl e, m) \<Rightarrow> (Err e, m)
                  | (Inr _, m) \<Rightarrow> zero_keywords os name props kws backups m
             else zero_keywords os name props kws backups m)"

definition optimize_adapter_latency_properties ::
  "'w win32 \<Rightarrow> net_json \<Rightarrow> string \<Rightarrow> 'w machine \<Rightarrow>
     (net_error, AdapterPropertyBackup list) rust_result \<times> 'w machine" where
  "optimize_adapter_latency_properties os js name m =
     (case query_adapter_properties os js name m of
        (Inl e, m) \<Rightarrow> (Err e, m)
      | (Inr props, m) \<Rightarrow>
          let m = snd (query_adapter_link_status os name m)
          in case zero_keywords os name props EEE_KEYWORDS [] m of
               (Inl e, m) \<Rightarrow> (Err e, m)
             | (Inr backups, m) \<Rightarrow>
                 (case zero_keywords os name props GREEN_ETHERNET_KEYWORDS backups m of
                    (Inl e, m) \<Rightarrow> (Err e, m)
                  | (Inr backups, m) \<Rightarrow>
                      let m = snd (query_adapter_link_status os name m) in (Ok backups, m)))"

fun restore_each_property ::
  "'w win32 \<Rightarrow> AdapterPropertyBackup list \<Rightarrow> 'w machine \<Rightarrow> 'w machine" where
  "restore_each_property os [] m = m"
| "restore_each_property os (b # bs) m =
     restore_each_property os bs
       (snd (set_adapter_property os (adapter_name b) (keyword b) (original_value b) m))"

definition restore_adapter_properties ::
  "'w win32 \<Rightarrow> AdapterPropertyBackup list \<Rightarrow> 'w machine \<Rightarrow> (net_error, unit) rust_result \<times> 'w machine" where
  "restore_adapter_properties os backups m = (Ok (), restore_each_property os backups m)"

section \<open>QoS policies\<close>

definition DEFAULT_VALORANT_QOS_POLICY_NAME :: string where
  "DEFAULT_VALORANT_QOS_POLICY_NAME = ''VALORANT_QoS_Optimized''"

definition query_qos_policy ::
  "'w win32 \<Rightarrow> net_json \<Rightarrow> string \<Rightarrow> 'w machine \<Rightarrow>
     (net_error, QosPolicyInfo option) rust_result \<times> 'w machine" where
  "query_qos_policy os js name m =
     (case validate_policy_name name of
        Inl e \<Rightarrow> (Err e, m)
      | Inr _ \<Rightarrow>
          (case run_ps os QUERY_QOS_SCRIPT [(''VAL_OPT_POLICY_NAME'', name)] m of
             (None, m) \<Rightarrow> (Err (SpawnFailed QUERY_QOS_SCRIPT), m)
           | (Some (_, out), m) \<Rightarrow>
               let stdout = trim out
               in if stdout = [] \<or> stdout = ''null'' then (Ok None, m)
                  else case json_qos_policy js stdout of
                         None \<Rightarrow> (Ok None, m)
                       | Some raw \<Rightarrow>
                           (Ok (Some
                              \<lparr>qos_name = opt_unwrap_or (raw_name raw) name,
                               app_path_name = opt_unwrap_or (raw_app_path_name raw) [],
                               protocol = opt_unwrap_or (raw_ip_protocol raw) ''UDP'',
                               dscp_value = opt_unwrap_or (raw_dscp_value raw) 0,
                               dst_port_start = opt_unwrap_or (raw_ip_dst_port_start raw) 0,
                               dst_port_end = opt_unwrap_or (raw_ip_dst_port_end raw) 0,
                               is_active = True\<rparr>), m)))"

definition restore_nla_setting ::
  "'w win32 \<Rightarrow> string option \<Rightarrow> 'w machine \<Rightarrow> (net_error, unit) rust_result \<times> 'w machine" where
  "restore_nla_setting os previous_setting m =
     (case previous_setting of
        Some val \<Rightarrow>
          if \<not> list_all is_ascii_alphanumeric val then (Err InvalidNlaValue, m)
          else (Ok (), snd (run_ps os SET_NLA [(''VAL_OPT_NLA_VAL'', val)] m))
      | None \<Rightarrow> (Ok (), m))"

definition register_valorant_qos_policy :: "(net_error, QosPolicyBackup) rust_result" where
  "register_valorant_qos_policy =
     Ok \<lparr>policy_name = DEFAULT_VALORANT_QOS_POLICY_NAME, previous_nla_setting = None,
         was_policy_present_before = False\<rparr>"

definition unregister_qos_policy ::
  "'w win32 \<Rightarrow> QosPolicyBackup \<Rightarrow> 'w machine \<Rightarrow> (net_error, unit) rust_result \<times> 'w machine" where
  "unregister_qos_policy os backup m =
     (case validate_policy_name (policy_name backup) of
        Inl e \<Rightarrow> (Err e, m)
      | Inr _ \<Rightarrow>
          let m = (if \<not> was_policy_present_before backup
                   then snd (run_ps os REMOVE_SCRIPT [(''VAL_OPT_POLICY_NAME'', policy_name backup)] m)
                   else m)
          in restore_nla_setting os (previous_nla_setting backup) m)"

section \<open>Flow control and receive-side scaling\<close>

definition FLOW_CONTROL_KEYWORD :: string where
  "FLOW_CONTROL_KEYWORD = ''*FlowControl''"

definition MINIMUM_RECOMMENDED_RSS_QUEUES :: nat where
  "MINIMUM_RECOMMENDED_RSS_QUEUES = 4"

definition query_flow_control ::
  "'w win32 \<Rightarrow> net_json \<Rightarrow> string \<Rightarrow> 'w machine \<Rightarrow>
     (net_error, FlowControlSetting) rust_result \<times> 'w machine" where
  "query_flow_control os js name m =
     (case query_property os js name FLOW_CONTROL_KEYWORD m of
        (Inl e, m) \<Rightarrow> (Err e, m)
      | (Inr None, m) \<Rightarrow> (Ok UnknownSetting, m)
      | (Inr (Some p), m) \<Rightarrow>
          (case first_value p of
             Some v \<Rightarrow> (Ok (flow_control_of_int (opt_unwrap_or (parse_signed 32 v) (- 1))), m)
           | None \<Rightarrow> (Ok UnknownSetting, m)))"

definition disable_flow_control ::
  "'w win32 \<Rightarrow> net_json \<Rightarrow> string \<Rightarrow> 'w machine \<Rightarrow>
     (net_error, AdapterPropertyBackup option) rust_result \<times> 'w machine" where
  "disable_flow_control os js name m =
     (case query_property os js name FLOW_CONTROL_KEYWORD m of
        (Inl e, m) \<Rightarrow> (Err e, m)
      | (Inr None, m) \<Rightarrow> (Ok None, m)
      | (Inr (Some p), m) \<Rightarrow>
          let current_val = opt_unwrap_or (first_value p) ''0''
          in if current_val \<noteq> ''0'' then
               let backup = \<lparr>adapter_name = name, keyword = registry_keyword p,
                     prop_display_name = nic_display_name p, original_value = current_val\<rparr>
               in case set_adapter_property os name (registry_keyword p) ''0'' m of
                    (Inl e, m) \<Rightarrow> (Err e, m)
                  | (Inr _, m) \<Rightarrow> (Ok (Some backup), m)
             else (Ok None, m))"

definition run_netsh :: "'w win32 \<Rightarrow> string list \<Rightarrow> 'w machine \<Rightarrow> (bool \<times> string) option \<times> 'w machine" where
  "run_netsh os args = call (RunNetsh args) (netsh os args)"

fun rss_state_of_lines :: "string list \<Rightarrow> bool" where
  "rss_state_of_lines [] = False"
| "rss_state_of_lines (l # ls) =
     (if contains l ''Receive-Side Scaling State'' then
        let parts = split_on CHR '':'' l
        in if length parts = 2 then to_lowercase (trim (parts ! 1)) = ''enabled''
           else rss_state_of_lines ls
      else rss_state_of_lines ls)"

definition query_global_tcp_rss ::
  "'w win32 \<Rightarrow> 'w machine \<Rightarrow> (net_error, bool) rust_result \<times> 'w machine" where
  "query_global_tcp_rss os m =
     (case run_netsh os [''int'', ''tcp'', ''show'', ''global''] m of
        (None, m) \<Rightarrow> (Err NetshFailed, m)
      | (Some (_, out), m) \<Rightarrow> (Ok (rss_state_of_lines (lines out)), m))"

text \<open>The fallback when the script fails: the two advanced properties.\<close>

definition rss_from_properties ::
  "'w win32 \<Rightarrow> net_json \<Rightarrow> string \<Rightarrow> 'w machine \<Rightarrow> (bool \<times> nat) \<times> 'w machine" where
  "rss_from_properties os js name m =
     (let (r1, m) = query_property os js name ''*RSS'' m;
          enabled = (case r1 of Inr (Some p) \<Rightarrow> first_value p = Some ''1'' | _ \<Rightarrow> False);
          (r2, m) = query_property os js name ''*NumRssQueues'' m;
          queues = (case r2 of
                      Inr (Some p) \<Rightarrow>
                        opt_unwrap_or (Option.bind (first_value p) (parse_unsigned 32)) 0
                    | _ \<Rightarrow> 0)
      in ((enabled, queues), m))"

definition verify_rss ::
  "'w win32 \<Rightarrow> net_json \<Rightarrow> string \<Rightarrow> 'w machine \<Rightarrow>
     (net_error, RssVerificationResult) rust_result \<times> 'w machine" where
  "verify_rss os js name m =
     (case validate_adapter_identifier name of
        Inl e \<Rightarrow> (Err e, m)
      | Inr _ \<Rightarrow>
          (case run_ps os RSS_QUERY_SCRIPT [(''VAL_OPT_ADAPTER'', name)] m of
             (None, m) \<Rightarrow> (Err (SpawnFailed RSS_QUERY_SCRIPT), m)
           | (Some (success, out), m) \<Rightarrow>
               let ((enabled, queues), m) =
                     (if success then
                        (let stdout = trim out
                         in if stdout \<noteq> [] \<and> stdout \<noteq> ''null'' then
                              case json_adapter_rss js stdout of
                                Some raw \<Rightarrow>
                                  ((opt_unwrap_or (raw_enabled raw) False,
                                    opt_unwrap_or (raw_number_of_receive_queues raw) 0), m)
                              | None \<Rightarrow> ((False, 0), m)
                            else ((False, 0), m))
                      else rss_from_properties os js name m);
                   (r, m) = query_global_tcp_rss os m;
                   global = unwrap_or r False;
                   meets = (MINIMUM_RECOMMENDED_RSS_QUEUES \<le> queues)
               in (Ok \<lparr>rss_adapter_name = name, rss_enabled = enabled,
                       global_tcp_rss_enabled = global, num_queues = queues,
                       meets_minimum_queues = meets, is_optimal = (enabled \<and> global \<and> meets),
                       recommendations =
                         (if \<not> enabled then [AdapterRssDisabled name] else []) @
                         (if \<not> global then [GlobalRssDisabled] else []) @
                         (if \<not> meets then [TooFewQueues queues] else [])\<rparr>, m)))"

definition enable_rss ::
  "'w win32 \<Rightarrow> string \<Rightarrow> 'w machine \<Rightarrow> (net_error, unit) rust_result \<times> 'w machine" where
  "enable_rss os name m =
     (case validate_adapter_identifier name of
        Inl e \<Rightarrow> (Err e, m)
      | Inr _ \<Rightarrow>
          if \<not> is_elevation_available os m then (Err ElevationRequired, m)
          else
            let m = snd (run_ps os ENABLE_RSS_SCRIPT [(''VAL_OPT_ADAPTER'', name)] m)
            in case run_netsh os [''int'', ''tcp'', ''set'', ''global'', ''rss=enabled''] m of
                 (None, m) \<Rightarrow> (Err NetshFailed, m)
               | (Some _, m) \<Rightarrow> (Ok (), m))"

section \<open>The validators as one interface\<close>

text \<open>The characters that end or splice a command in PowerShell or \<^verbatim>\<open>cmd\<close>.\<close>

definition shell_special :: "char set" where
  "shell_special =
     set [CHR 0x22, CHR 0x27, CHR 0x60, CHR ''$'', CHR '';'', CHR ''|'', CHR ''&'', CHR ''<'',
          CHR ''>'', CHR ''{'', CHR ''}'', CHR ''['', CHR '']'', CHR ''%'', CHR ''#'', CHR ''@'',
          backslash, CHR ''/'', CHR '':'', CHR '','', CHR ''='', CHR 0x0A, CHR 0x0D, CHR 0x00]"

locale identifier_allowlist =
  fixes validate :: "string \<Rightarrow> (net_error, unit) rust_result"
    and allowed :: "char \<Rightarrow> bool"
    and shortest longest :: nat
  assumes validate_iff:
      "validate s = Ok () \<longleftrightarrow> shortest \<le> length s \<and> length s \<le> longest \<and> list_all allowed s"
    and excludes_special: "c \<in> shell_special \<Longrightarrow> \<not> allowed c"
begin

lemma accepted_no_special: "validate s = Ok () \<Longrightarrow> set s \<inter> shell_special = {}"
  using excludes_special by (auto simp: validate_iff list_all_iff)

lemma accepted_length: "validate s = Ok () \<Longrightarrow> length s \<le> longest"
  by (simp add: validate_iff)

lemma rejected_iff:
  "\<not> is_ok (validate s) \<longleftrightarrow> length s < shortest \<or> longest < length s \<or> \<not> list_all allowed s"
proof -
  have "is_ok (validate s) \<longleftrightarrow> validate s = Ok ()"
    by (cases "validate s") auto
  then show ?thesis by (auto simp: validate_iff)
qed

end

lemma check_chars_ok: "check_chars allowed input s = Ok () \<longleftrightarrow> list_all allowed s"
  by (induction s) auto

lemma special_not_allowed:
  "\<forall>c \<in> shell_special. \<not> ident_char c \<and> \<not> value_char c \<and> \<not> policy_char c"
  unfolding shell_special_def by code_simp

interpretation adapter_identifier: identifier_allowlist validate_adapter_identifier ident_char 1 256
  by unfold_locales
    (auto simp: validate_adapter_identifier_def check_chars_ok special_not_allowed Suc_le_eq)

interpretation property_value: identifier_allowlist validate_property_value value_char 0 256
  by unfold_locales (auto simp: validate_property_value_def check_chars_ok special_not_allowed)

interpretation qos_policy_name: identifier_allowlist validate_policy_name policy_char 1 128
  by unfold_locales
    (auto simp: validate_policy_name_def check_chars_ok special_not_allowed Suc_le_eq)

section \<open>Every script input is allow-listed\<close>

text \<open>
  An entry of the log is safe when a PowerShell call passes only values without a special
  character. The operations below add only safe entries.
\<close>

definition safe_effect :: "effect \<Rightarrow> bool" where
  "safe_effect e \<longleftrightarrow>
     (case e of
        RunPowerShell _ vars \<Rightarrow> list_all (\<lambda>(_, v). set v \<inter> shell_special = {}) vars
      | RunNetsh args \<Rightarrow> args \<in> {[''int'', ''tcp'', ''show'', ''global''],
                              [''int'', ''tcp'', ''set'', ''global'', ''rss=enabled'']}
      | _ \<Rightarrow> False)"

definition only_safe :: "'w machine \<Rightarrow> 'w machine \<Rightarrow> bool" where
  "only_safe m m' \<longleftrightarrow> files m' = files m \<and> log_grows safe_effect m m'"

lemma only_safe_refl [simp]: "only_safe m m"
  by (simp add: only_safe_def)

lemma only_safe_trans [trans]: "only_safe a b \<Longrightarrow> only_safe b c \<Longrightarrow> only_safe a c"
  by (auto simp: only_safe_def intro: log_grows_trans)

lemma run_ps_safe:
  "list_all (\<lambda>(_, v). set v \<inter> shell_special = {}) vars \<Longrightarrow> only_safe m (snd (run_ps os script vars m))"
  by (simp add: run_ps_def only_safe_def safe_effect_def)

lemma run_netsh_safe:
  "args \<in> {[''int'', ''tcp'', ''show'', ''global''], [''int'', ''tcp'', ''set'', ''global'', ''rss=enabled'']} \<Longrightarrow>
     only_safe m (snd (run_netsh os args m))"
  by (simp add: run_netsh_def only_safe_def safe_effect_def)

lemma set_adapter_property_safe: "only_safe m (snd (set_adapter_property os name kw v m))"
proof (cases "validate_adapter_identifier name = Ok () \<and> validate_adapter_identifier kw = Ok () \<and>
    validate_property_value v = Ok ()")
  case True
  let ?r = "run_ps os SET_SCRIPT [(''VAL_OPT_ADAPTER'', name), (''VAL_OPT_KEYWORD'', kw), (''VAL_OPT_VALUE'', v)] m"
  have "only_safe m (snd ?r)"
    using True adapter_identifier.accepted_no_special property_value.accepted_no_special
    by (intro run_ps_safe) simp
  then show ?thesis
    using True by (auto simp: set_adapter_property_def split: prod.split option.split)
next
  case False
  then show ?thesis
    by (auto simp: set_adapter_property_def split: sum.split)
qed

lemma restore_each_property_safe: "only_safe m (restore_each_property os bs m)"
  by (induction bs arbitrary: m) (auto intro: only_safe_trans set_adapter_property_safe)

lemma alnum_no_special: "list_all is_ascii_alphanumeric s \<Longrightarrow> set s \<inter> shell_special = {}"
  using special_not_allowed by (auto simp: list_all_iff policy_char_def)

lemma restore_nla_setting_safe: "only_safe m (snd (restore_nla_setting os p m))"
  by (auto simp: restore_nla_setting_def alnum_no_special intro!: run_ps_safe split: option.split)

lemma unregister_qos_policy_safe: "only_safe m (snd (unregister_qos_policy os backup m))"
proof (cases "validate_policy_name (policy_name backup)")
  case (Inl e)
  then show ?thesis by (simp add: unregister_qos_policy_def)
next
  case (Inr u)
  let ?m = "if \<not> was_policy_present_before backup
    then snd (run_ps os REMOVE_SCRIPT [(''VAL_OPT_POLICY_NAME'', policy_name backup)] m) else m"
  have "only_safe m ?m"
    using Inr qos_policy_name.accepted_no_special [of "policy_name backup"] by (auto intro!: run_ps_safe)
  also have "only_safe ?m (snd (restore_nla_setting os (previous_nla_setting backup) ?m))"
    by (rule restore_nla_setting_safe)
  finally show ?thesis using Inr by (simp add: unregister_qos_policy_def Let_def)
qed

lemma query_adapter_properties_safe: "only_safe m (snd (query_adapter_properties os js name m))"
proof (cases "validate_adapter_identifier name")
  case (Inl e)
  then show ?thesis by (simp add: query_adapter_properties_def)
next
  case (Inr u)
  have "only_safe m (snd (run_ps os QUERY_ADAPTER_SCRIPT [(''VAL_OPT_ADAPTER'', name)] m))"
    using Inr adapter_identifier.accepted_no_special [of name] by (intro run_ps_safe) simp
  then show ?thesis
    using Inr by (auto simp: query_adapter_properties_def Let_def split: prod.split option.split)
qed

lemma query_property_safe: "only_safe m (snd (query_property os js name kw m))"
  using query_adapter_properties_safe [of m os js name]
  by (auto simp: query_property_def split: sum.split prod.split)

lemma query_adapter_link_status_safe: "only_safe m (snd (query_adapter_link_status os name m))"
proof (cases "validate_adapter_identifier name")
  case (Inl e)
  then show ?thesis by (simp add: query_adapter_link_status_def)
next
  case (Inr u)
  have "only_safe m (snd (run_ps os STATUS_SCRIPT [(''VAL_OPT_ADAPTER'', name)] m))"
    using Inr adapter_identifier.accepted_no_special [of name] by (intro run_ps_safe) simp
  then show ?thesis
    using Inr by (auto simp: query_adapter_link_status_def Let_def split: prod.split option.split)
qed

lemma zero_keywords_safe: "only_safe m (snd (zero_keywords os name props kws backups m))"
proof (induction kws arbitrary: backups m)
  case Nil
  then show ?case by simp
next
  case (Cons kw kws)
  have "only_safe m (snd (zero_keywords os name props kws bs m'))" 
    if "set_adapter_property os name k ''0'' m = (r, m')" for r m' k bs
    using set_adapter_property_safe [of m os name k "''0''"] Cons [of m' bs] that
    by (auto intro: only_safe_trans)
  with Cons [of m backups] set_adapter_property_safe [of m os name] show ?case
    by (auto simp: Let_def split: option.split sum.split prod.split) (metis snd_conv)
qed

lemma optimize_adapter_safe: "only_safe m (snd (optimize_adapter_latency_properties os js name m))"
proof -
  obtain r1 m1 where q: "query_adapter_properties os js name m = (r1, m1)" by fastforce
  let ?m2 = "snd (query_adapter_link_status os name m1)"
  have m2: "only_safe m ?m2" and m1: "only_safe m m1"
    using query_adapter_properties_safe [of m os js name] query_adapter_link_status_safe [of m1 os name] q
    by (auto intro: only_safe_trans)
  obtain r3 m3 where eee: "zero_keywords os name (projr r1) EEE_KEYWORDS [] ?m2 = (r3, m3)" by fastforce
  have m3: "only_safe m m3"
    using zero_keywords_safe [of ?m2 os name "projr r1" EEE_KEYWORDS "[]"] m2 eee
    by (auto intro: only_safe_trans)
  obtain r4 m4 where green:
    "zero_keywords os name (projr r1) GREEN_ETHERNET_KEYWORDS (projr r3) m3 = (r4, m4)" by fastforce
  have m4: "only_safe m m4"
    using zero_keywords_safe [of m3 os name "projr r1" GREEN_ETHERNET_KEYWORDS "projr r3"] m3 green
    by (auto intro: only_safe_trans)
  have "only_safe m (snd (query_adapter_link_status os name m4))"
    by (rule only_safe_trans [OF m4 query_adapter_link_status_safe])
  with m1 m3 m4 q eee green show ?thesis
    by (auto simp: optimize_adapter_latency_properties_def Let_def split: sum.splits prod.splits)
qed

section \<open>Properties\<close>

text \<open>
  whatever arguments the adapter and QoS operations get, the only system calls they make are
  constant PowerShell scripts whose variables hold no quote, separator, expansion or line-break
  character, and no file is touched.
\<close>

theorem network_inputs_allow_listed:
  "only_safe m (snd (set_adapter_property os name kw v m)) \<and>
   only_safe m (snd (query_property os js name kw m)) \<and>
   only_safe m (snd (optimize_adapter_latency_properties os js name m)) \<and>
   only_safe m (snd (restore_adapter_properties os backups m)) \<and>
   only_safe m (snd (unregister_qos_policy os qos m))"
  by (simp add: set_adapter_property_safe query_property_safe optimize_adapter_safe
      restore_each_property_safe restore_adapter_properties_def unregister_qos_policy_safe)

text \<open>
  the three validators accept exactly the strings of the documented lengths over the
  documented alphabets.
\<close>

theorem validators_exact:
  "(validate_adapter_identifier s = Ok () \<longleftrightarrow> 1 \<le> length s \<and> length s \<le> 256 \<and> list_all ident_char s) \<and>
   (validate_property_value s = Ok () \<longleftrightarrow> length s \<le> 256 \<and> list_all value_char s) \<and>
   (validate_policy_name s = Ok () \<longleftrightarrow> 1 \<le> length s \<and> length s \<le> 128 \<and> list_all policy_char s)"
  using adapter_identifier.validate_iff [of s] property_value.validate_iff [of s]
    qos_policy_name.validate_iff [of s] by simp

end
