(* ===== verification/Latency_Session.thy ===== *)
theory Latency_Session
  imports Driver_Isolator Latency_Monitor Network_Adapter
begin

text \<open>
  \<^verbatim>\<open>latency/etw_session.rs\<close> and \<^verbatim>\<open>latency/report.rs\<close>: the kernel trace session that feeds the driver
  isolator and the monitor, and the report made from it.

  The counters are updated by atomic operations that may interleave with those of other threads:
  the update loop is a step relation over the threads that run it, and every complete interleaving
  is shown to have the result of updating one after the other. The event callback decodes the
  64-bit tick counts at their width; the release profile does not check for overflow, so products
  wrap around. The events the trace delivers are a list; a step that panics is \<open>None\<close>. Texts of
  errors, provenance and recommendations are constructors that carry the formatted values.
\<close>

section \<open>Counters\<close>

record counter =
  total :: u64
  maximum :: u64

definition zero_counter :: counter where "zero_counter = \<lparr>total = 0, maximum = 0\<rparr>"

text \<open>One update as a single step.\<close>

definition observe :: "u64 \<Rightarrow> counter \<Rightarrow> counter" where
  "observe d c = c\<lparr>total := total c + 1, maximum := max (maximum c) d\<rparr>"

text \<open>The control points of a thread that updates the counter with a duration.\<close>

datatype control = Entry | Load | Attempt u64 | Finished

definition loop_test :: "u64 \<Rightarrow> u64 \<Rightarrow> control" where
  "loop_test d current_max = (if d > current_max then Attempt current_max else Finished)"

inductive counter_step :: "counter \<times> (u64 \<times> control) list \<Rightarrow> counter \<times> (u64 \<times> control) list \<Rightarrow> bool" where
  fetch_add: "i < length ts \<Longrightarrow> ts ! i = (d, Entry) \<Longrightarrow>
     counter_step (c, ts) (c\<lparr>total := total c + 1\<rparr>, ts[i := (d, Load)])"
| load_max: "i < length ts \<Longrightarrow> ts ! i = (d, Load) \<Longrightarrow>
     counter_step (c, ts) (c, ts[i := (d, loop_test d (maximum c))])"
| exchange: "i < length ts \<Longrightarrow> ts ! i = (d, Attempt (maximum c)) \<Longrightarrow>
     counter_step (c, ts) (c\<lparr>maximum := d\<rparr>, ts[i := (d, Finished)])"
| exchange_fails: "i < length ts \<Longrightarrow> ts ! i = (d, Attempt current_max) \<Longrightarrow>
     counter_step (c, ts) (c, ts[i := (d, loop_test d (maximum c))])"

definition counter_inv :: "counter \<Rightarrow> u64 list \<Rightarrow> counter \<times> (u64 \<times> control) list \<Rightarrow> bool" where
  "counter_inv c0 ds = (\<lambda>(c, ts).
     map fst ts = ds \<and>
     total c = total c0 + of_nat (length (filter (\<lambda>t. snd t \<noteq> Entry) ts)) \<and>
     maximum c0 \<le> maximum c \<and> (maximum c = maximum c0 \<or> maximum c \<in> set ds) \<and>
     (\<forall>(d, p) \<in> set ts. (p = Finished \<longrightarrow> d \<le> maximum c) \<and> (\<forall>v. p = Attempt v \<longrightarrow> v < d)))"

lemma filter_update:
  assumes "i < length xs" and "P y" 
  shows "length (filter P (xs[i := y])) = length (filter P xs) + (if P (xs ! i) then 0 else 1)"
  using assms by (induction xs arbitrary: i) (auto split: nat.split simp: nth_Cons)

lemma loop_test_simps [simp]:
  "loop_test d v \<noteq> Entry" "loop_test d v = Finished \<longleftrightarrow> d \<le> v" "loop_test d v = Attempt u \<longleftrightarrow> u = v \<and> v < d"
  by (auto simp: loop_test_def not_less)

lemma counter_inv_update:
  assumes inv: "counter_inv c0 ds (c, ts)" and i: "i < length ts" "ts ! i = (d, p)"
    and c': "total c' = total c + (if p = Entry then 1 else 0)" "maximum c \<le> maximum c'"
      "maximum c' = maximum c \<or> maximum c' = d"
    and q: "q \<noteq> Entry" "q = Finished \<longrightarrow> d \<le> maximum c'" "\<forall>v. q = Attempt v \<longrightarrow> v < d"
  shows "counter_inv c0 ds (c', ts[i := (d, q)])"
proof -
  have d: "d \<in> set ds" using inv i by (force simp: counter_inv_def in_set_conv_nth)
  have "map fst (ts[i := (d, q)]) = (map fst ts)[i := map fst ts ! i]" using i by (simp add: map_update)
  then have "map fst (ts[i := (d, q)]) = ds" using inv by (simp only: list_update_id) (simp add: counter_inv_def)
  moreover have "length (filter (\<lambda>t. snd t \<noteq> Entry) (ts[i := (d, q)])) =
      length (filter (\<lambda>t. snd t \<noteq> Entry) ts) + (if p = Entry then 1 else 0)"
    using filter_update [OF i(1), of "\<lambda>t. snd t \<noteq> Entry" "(d, q)"] i(2) q(1) by simp
  moreover have "\<forall>(d, p) \<in> set (ts[i := (d, q)]). (p = Finished \<longrightarrow> d \<le> maximum c') \<and> (\<forall>v. p = Attempt v \<longrightarrow> v < d)"
  proof
    fix t assume "t \<in> set (ts[i := (d, q)])"
    then have "t = (d, q) \<or> t \<in> set ts" using set_update_subset_insert by fastforce
    then show "case t of (d, p) \<Rightarrow> (p = Finished \<longrightarrow> d \<le> maximum c') \<and> (\<forall>v. p = Attempt v \<longrightarrow> v < d)"
      using inv q(2,3) c'(2) by (fastforce simp: counter_inv_def dest: order.trans)
  qed
  ultimately show ?thesis
    using inv c' d by (auto simp: counter_inv_def dest: order.trans)
qed

lemma counter_inv_step: "counter_step s s' \<Longrightarrow> counter_inv c0 ds s \<Longrightarrow> counter_inv c0 ds s'"
proof (induction rule: counter_step.induct)
  case (exchange i ts d c)
  have "maximum c < d" using exchange by (force simp: counter_inv_def dest: nth_mem)
  then show ?case using counter_inv_update [OF exchange.prems exchange(1,2)] by simp
qed (simp_all add: counter_inv_update)

lemma counter_inv_reachable:
  assumes "counter_step\<^sup>*\<^sup>* (c0, map (\<lambda>d. (d, Entry)) ds) s"
  shows "counter_inv c0 ds s"
  using assms
proof (induction rule: rtranclp_induct)
  case base
  have "filter (\<lambda>t. snd t \<noteq> Entry) (map (\<lambda>d. (d, Entry)) ds) = []" by (simp add: filter_empty_conv)
  then show ?case by (auto simp: counter_inv_def comp_def simp del: filter_map)
next
  case (step s s')
  then show ?case using counter_inv_step by blast
qed

lemma fold_observe:
  "total (fold observe ds c) = total c + of_nat (length ds)"
  "maximum (fold observe ds c) = fold max ds (maximum c)"
  by (induction ds arbitrary: c) (simp_all add: observe_def add.assoc max.commute)

lemma fold_max_eq:
  fixes m :: u64
  assumes "\<forall>d \<in> set ds. d \<le> m" and "v \<le> m" and "m = v \<or> m \<in> set ds"
  shows "fold max ds v = m"
proof -
  have "fold max ds v = Max (insert v (set ds))" by (simp add: Max.set_eq_fold [symmetric] insert_commute)
  also have "\<dots> = m" using assms by (intro Max_eqI) auto
  finally show ?thesis .
qed

lemma counter_done:
  assumes "counter_inv c0 ds (c, ts)" and "\<forall>t \<in> set ts. snd t = Finished"
  shows "c = fold observe ds c0"
proof -
  have "filter (\<lambda>t. snd t \<noteq> Entry) ts = ts" using assms(2) by (intro filter_True) auto
  then have "total c = total c0 + of_nat (length ds)" using assms(1) by (auto simp: counter_inv_def)
  moreover have "\<forall>d \<in> set ds. d \<le> maximum c" using assms by (fastforce simp: counter_inv_def)
  then have "fold max ds (maximum c0) = maximum c"
    using assms(1) by (intro fold_max_eq) (auto simp: counter_inv_def)
  ultimately show ?thesis by (intro counter.equality) (simp_all add: fold_observe)
qed
text \<open>A thread that runs alone finishes, so the other threads never keep it from finishing.\<close>

lemma thread_finishes:
  assumes "i < length ts" and "ts ! i = (d, p)"
  shows "\<exists>c'. counter_step\<^sup>*\<^sup>* (c, ts) (c', ts[i := (d, Finished)])"
proof -
  let ?at = "\<lambda>p. ts[i := (d, p)]"
  have step: "i < length (?at p)" "?at p ! i = (d, p)" "(?at p)[i := x] = ts[i := x]" for p x
    using assms(1) by simp_all
  have attempt: "counter_step\<^sup>*\<^sup>* (c, ?at (Attempt (maximum c))) (c\<lparr>maximum := d\<rparr>, ?at Finished)" for c
    using exchange [OF step(1,2), of c] unfolding step(3) by blast
  have tested: "\<exists>c'. counter_step\<^sup>*\<^sup>* (c, ?at (loop_test d (maximum c))) (c', ?at Finished)" for c
    using attempt [of c] by (auto simp: loop_test_def)
  have loaded: "\<exists>c'. counter_step\<^sup>*\<^sup>* (c, ?at Load) (c', ?at Finished)" for c
    using load_max [OF step(1,2), of c] tested [of c] unfolding step(3)
    by (meson converse_rtranclp_into_rtranclp)
  have here: "ts = ?at p" using assms(2) by (metis list_update_id)
  show ?thesis
  proof (cases p)
    case Entry
    then show ?thesis using fetch_add [OF assms(1), of d c] assms(2) loaded
      by (meson converse_rtranclp_into_rtranclp)
  next
    case Load
    then show ?thesis using loaded [of c] here by simp
  next
    case (Attempt v)
    then show ?thesis using exchange_fails [OF assms(1), of d v c] assms(2) tested [of c]
      by (meson converse_rtranclp_into_rtranclp)
  next
    case Finished
    then show ?thesis using here by auto
  qed
qed

lemma threads_finish:
  "n \<le> length ts \<Longrightarrow> \<exists>c' ts'. counter_step\<^sup>*\<^sup>* (c, ts) (c', ts') \<and> length ts' = length ts \<and>
     (\<forall>t \<in> set (take n ts'). snd t = Finished)"
proof (induction n)
  case 0
  then show ?case by (intro exI [of _ c] exI [of _ ts]) simp
next
  case (Suc n)
  then obtain c1 ts1 where s: "counter_step\<^sup>*\<^sup>* (c, ts) (c1, ts1)" "length ts1 = length ts"
    "\<forall>t \<in> set (take n ts1). snd t = Finished" by auto
  obtain d p where n: "n < length ts1" "ts1 ! n = (d, p)" using Suc.prems s(2) by fastforce
  then obtain c2 where "counter_step\<^sup>*\<^sup>* (c1, ts1) (c2, ts1[n := (d, Finished)])"
    using thread_finishes by blast
  moreover have "set (take (Suc n) (ts1[n := (d, Finished)])) = insert (d, Finished) (set (take n ts1))"
    using n(1) by (simp add: take_Suc_conv_app_nth)
  ultimately show ?case using s by (intro exI [of _ c2] exI [of _ "ts1[n := (d, Finished)]"]) auto
qed

section \<open>The session\<close>

record event_record =
  provider :: guid
  event_opcode :: u8
  time_stamp :: u64
  user_data :: "bytes option"

definition PERFINFO_GUID :: guid where
  "PERFINFO_GUID = \<lparr>data1 = 0xce1db8ac, data2 = 0x30e0, data3 = 0x47de,
     data4 = [0x87, 0x33, 0x86, 0xf6, 0x8e, 0x0d, 0x63, 0xa0]\<rparr>"

definition SYSTEM_TRACE_CONTROL_GUID :: guid where
  "SYSTEM_TRACE_CONTROL_GUID = \<lparr>data1 = 0x9e814aad, data2 = 0x3204, data3 = 0x11d2,
     data4 = [0x9a, 0x82, 0x00, 0x60, 0x08, 0x18, 0x41, 0xcd]\<rparr>"

record LatencySessionConfig =
  buffer_size_kb :: u32
  min_buffers :: u32
  max_buffers :: u32

definition default_session_config :: LatencySessionConfig where
  "default_session_config = \<lparr>buffer_size_kb = 64, min_buffers = 4, max_buffers = 32\<rparr>"

datatype session_error =
    AlreadyActive
  | AdministratorRequired
  | KernelLoggerInUse
  | KernelLoggerAccessDenied
  | StartTraceFailed u32
  | SyntheticExecuted

record 'f KernelLatencySessionManager =
  isolator :: "'f KernelDriverIsolator"
  monitor :: LatencyMonitor
  session_running :: bool
  session_open :: bool
  trace_handle :: "u64 option"
  worker_spawned :: bool
  dpcs :: counter
  isrs :: counter
  measurement_status :: LatencyMeasurementStatus
  status_detail :: "session_error option"
  context_qpc_frequency :: int

definition new_session :: "'w win32 \<Rightarrow> 'w machine \<Rightarrow> 'f KernelLatencySessionManager" where
  "new_session os m =
     \<lparr>isolator = new_isolator os m, monitor = default_monitor, session_running = False,
      session_open = False, trace_handle = None, worker_spawned = False, dpcs = zero_counter,
      isrs = zero_counter, measurement_status = SessionError, status_detail = None,
      context_qpc_frequency = 0\<rparr>"

definition session_ingest ::
  "'f \<Rightarrow> (u64 \<Rightarrow> u64 \<Rightarrow> 'f) \<Rightarrow> u64 \<Rightarrow> u64 \<Rightarrow> u64 \<Rightarrow> bool \<Rightarrow>
     'f KernelLatencySessionManager \<Rightarrow> 'f KernelLatencySessionManager option" where
  "session_ingest zero quot ts d address dpc s =
     (let s = (if dpc then s\<lparr>dpcs := observe d (dpcs s)\<rparr> else s\<lparr>isrs := observe d (isrs s)\<rparr>);
          (name, kdi) = record_execution zero quot address d (isolator s);
          s = s\<lparr>isolator := kdi\<rparr>
      in case ingest_sample \<lparr>timestamp_us = ts, duration_us = d, routine_address = address, is_dpc = dpc,
                              sample_driver_name = Some name\<rparr> (monitor s) of
           None \<Rightarrow> None
         | Some (_, mon) \<Rightarrow> Some (s\<lparr>monitor := mon\<rparr>))"

text \<open>A 64-bit little-endian value of the event data.\<close>

definition u64_at :: "nat \<Rightarrow> bytes \<Rightarrow> u64" where
  "u64_at off bs = of_nat (be_val (rev (take 8 (drop off bs))))"

definition ticks_to_us :: "int \<Rightarrow> u64 \<Rightarrow> u64" where
  "ticks_to_us freq t = (if freq > 0 then (t * 1000000) div word_of_int freq else t)"

definition duration_ticks :: "u64 \<Rightarrow> u64 \<Rightarrow> u64" where
  "duration_ticks event_time initial_time = (if event_time > initial_time then event_time - initial_time else 0)"

text \<open>The time stamp, duration, routine and kind an event record gives, if it is to be counted.\<close>

definition decode_event :: "int \<Rightarrow> event_record \<Rightarrow> (u64 \<times> u64 \<times> u64 \<times> bool) option" where
  "decode_event freq rec =
     (if provider rec \<noteq> PERFINFO_GUID \<and> provider rec \<noteq> SYSTEM_TRACE_CONTROL_GUID then None
      else
        let dpc = event_opcode rec \<in> {66, 68, 69}; isr = (event_opcode rec = 67)
        in if \<not> dpc \<and> \<not> isr then None
           else case user_data rec of
                  None \<Rightarrow> None
                | Some bs \<Rightarrow>
                    if length bs < 16 then None
                    else
                      let initial_time = u64_at 0 bs; routine = u64_at 8 bs
                      in if routine = 0 then None
                         else
                           let d = ticks_to_us freq (duration_ticks (time_stamp rec) initial_time);
                               ts = ticks_to_us freq (time_stamp rec)
                           in if d < 10000000 then Some (ts, d, routine, dpc) else None)"

definition kernel_event_record_callback ::
  "'f \<Rightarrow> (u64 \<Rightarrow> u64 \<Rightarrow> 'f) \<Rightarrow> event_record \<Rightarrow> 'f KernelLatencySessionManager \<Rightarrow>
     'f KernelLatencySessionManager option" where
  "kernel_event_record_callback zero quot rec s =
     (case decode_event (context_qpc_frequency s) rec of
        None \<Rightarrow> Some s
      | Some (ts, d, routine, dpc) \<Rightarrow> session_ingest zero quot ts d routine dpc s)"

definition clear_session :: "'f KernelLatencySessionManager \<Rightarrow> 'f KernelLatencySessionManager" where
  "clear_session s =
     s\<lparr>isolator := clear_stats (isolator s), monitor := clear_monitor (monitor s),
       dpcs := zero_counter, isrs := zero_counter\<rparr>"

definition fail_session ::
  "LatencyMeasurementStatus \<Rightarrow> session_error \<Rightarrow> 'f KernelLatencySessionManager \<Rightarrow>
     (session_error, unit) rust_result \<times> 'f KernelLatencySessionManager" where
  "fail_session st e s = (Err e, s\<lparr>measurement_status := st, status_detail := Some e\<rparr>)"

definition start_session ::
  "'w win32 \<Rightarrow> LatencySessionConfig \<Rightarrow> 'f KernelLatencySessionManager \<Rightarrow> 'w machine \<Rightarrow>
     ((session_error, unit) rust_result \<times> 'f KernelLatencySessionManager) \<times> 'w machine" where
  "start_session os config s m =
     (if session_running s then ((Err AlreadyActive, s), m)
      else if \<not> is_elevation_available os m
      then (fail_session UnsupportedElevationRequired AdministratorRequired s, m)
      else
        let freq = (case qpc_frequency os (env m) of Some f \<Rightarrow> if f \<le> 0 then 10000000 else f | None \<Rightarrow> 10000000);
            m = call_unit StopTrace (trace_stop os) m;
            (start_err, m) = call StartTrace
              (trace_start os (buffer_size_kb config, min_buffers config, max_buffers config)) m
        in if start_err \<noteq> 0 then
             if start_err = 183 then (fail_session UnsupportedSessionInUse KernelLoggerInUse s, m)
             else if start_err = 5 then (fail_session UnsupportedElevationRequired KernelLoggerAccessDenied s, m)
             else (fail_session SessionError (StartTraceFailed start_err) s, m)
           else
             ((Ok (), (clear_session s)\<lparr>session_running := True, session_open := True,
                         measurement_status := RealEtwCollected, status_detail := None,
                         context_qpc_frequency := freq, worker_spawned := True\<rparr>), m))"

text \<open>The worker thread: it opens the trace, lets the trace call back, and ends.\<close>

definition worker_open :: "'w win32 \<Rightarrow> 'w machine \<Rightarrow> 'f KernelLatencySessionManager \<Rightarrow> 'f KernelLatencySessionManager" where
  "worker_open os m s =
     (let h = trace_open os (env m)
      in if h \<noteq> 0 \<and> h \<noteq> 0xFFFFFFFFFFFFFFFF then s\<lparr>trace_handle := Some h\<rparr>
         else s\<lparr>session_running := False\<rparr>)"

fun process_trace ::
  "'f \<Rightarrow> (u64 \<Rightarrow> u64 \<Rightarrow> 'f) \<Rightarrow> event_record list \<Rightarrow> 'f KernelLatencySessionManager \<Rightarrow>
     'f KernelLatencySessionManager option" where
  "process_trace zero quot [] s = Some s"
| "process_trace zero quot (e # es) s =
     (case kernel_event_record_callback zero quot e s of
        None \<Rightarrow> None
      | Some s \<Rightarrow> process_trace zero quot es s)"

definition stop_session ::
  "'w win32 \<Rightarrow> 'f KernelLatencySessionManager \<Rightarrow> 'w machine \<Rightarrow> 'f KernelLatencySessionManager \<times> 'w machine" where
  "stop_session os s m =
     (if session_running s then
        let s = s\<lparr>session_running := False\<rparr>;
            (s, m) = (case trace_handle s of
                        Some h \<Rightarrow> (s\<lparr>trace_handle := None\<rparr>, call_unit (CloseTrace h) (trace_close os h) m)
                      | None \<Rightarrow> (s, m));
            (s, m) = (if session_open s then (s\<lparr>session_open := False\<rparr>, call_unit StopTrace (trace_stop os) m)
                      else (s, m))
        in (s\<lparr>worker_spawned := False\<rparr>, m)
      else (s, m))"

text \<open>
  A timed session; \<open>events\<close> are the records the trace delivers when it could be opened, before the
  session is stopped. The result is \<open>None\<close> only if a callback panics.
\<close>

definition run_real_session ::
  "'w win32 \<Rightarrow> 'f \<Rightarrow> (u64 \<Rightarrow> u64 \<Rightarrow> 'f) \<Rightarrow> nat \<Rightarrow> event_record list \<Rightarrow>
     'f KernelLatencySessionManager \<Rightarrow> 'w machine \<Rightarrow>
     (((session_error, unit) rust_result \<times> 'f KernelLatencySessionManager) \<times> 'w machine) option" where
  "run_real_session os zero quot d events s m =
     (case start_session os default_session_config s m of
        ((Inl e, s), m) \<Rightarrow> Some ((Err e, s), m)
      | ((Inr _, s), m) \<Rightarrow>
          let s = worker_open os m s
          in case process_trace zero quot (if trace_handle s = None then [] else events) s of
               None \<Rightarrow> None
             | Some s \<Rightarrow>
                 let m = sleep os d m; (s, m) = stop_session os s m in Some ((Ok (), s), m))"
section \<open>The report\<close>

datatype TelemetrySource = RealEtwPresentation | RealKernelDpcIsr | SyntheticFixture

datatype mechanism =
    KernelLogger
  | NoElevation
  | LoggerLocked
  | InitializationFailed
  | OfflineFixture
  | DxgiPresentStart
  | DxgiAndD3d9PresentStart
  | MockDirectXGenerator

record TelemetryProvenance =
  telemetry_source :: TelemetrySource
  collection_mechanism :: mechanism
  is_directly_measured :: bool
  sample_count :: nat
  dropped_events :: u64

fun provenance_of :: "LatencyMeasurementStatus \<Rightarrow> TelemetrySource \<times> mechanism \<times> bool" where
  "provenance_of RealEtwCollected = (RealKernelDpcIsr, KernelLogger, True)"
| "provenance_of UnsupportedElevationRequired = (RealKernelDpcIsr, NoElevation, False)"
| "provenance_of UnsupportedSessionInUse = (RealKernelDpcIsr, LoggerLocked, False)"
| "provenance_of SessionError = (RealKernelDpcIsr, InitializationFailed, False)"
| "provenance_of SyntheticTestFixture = (SyntheticFixture, OfflineFixture, False)"

definition provenance :: "'f KernelLatencySessionManager \<Rightarrow> TelemetryProvenance" where
  "provenance s =
     (let (source, mech, derived) = provenance_of (measurement_status s)
      in \<lparr>telemetry_source = source, collection_mechanism = mech, is_directly_measured = derived,
          sample_count = unat (total (dpcs s) + total (isrs s)), dropped_events = 0\<rparr>)"

datatype recommendation =
    ElevationNeeded
  | SessionConflict
  | EtwError "session_error option"
  | SyntheticNote
  | CriticalDpc
  | WarningDpc
  | ExcellentDpc
  | NetworkDriverSpike string u64
  | GpuDriverSpike string u64
  | AudioDriverSpike string u64
  | PowerDriverSpike string u64

record 'f LatencyReport =
  report_provenance :: TelemetryProvenance
  report_status :: LatencyMeasurementStatus
  total_dpcs_captured :: u64
  total_isrs_captured :: u64
  highest_dpc_us :: u64
  highest_isr_us :: u64
  highest_dpc_driver :: "string option"
  highest_isr_driver :: "string option"
  offending_drivers :: "'f DriverLatencyStat list"
  top_drivers :: "'f DriverLatencyStat list"
  system_suitable_for_competitive :: bool
  recommendations :: "recommendation list"
  test_duration_secs :: 'f

definition status_note :: "'f KernelLatencySessionManager \<Rightarrow> recommendation list" where
  "status_note s =
     (case measurement_status s of
        UnsupportedElevationRequired \<Rightarrow> [ElevationNeeded]
      | UnsupportedSessionInUse \<Rightarrow> [SessionConflict]
      | SessionError \<Rightarrow> [EtwError (status_detail s)]
      | SyntheticTestFixture \<Rightarrow> [SyntheticNote]
      | RealEtwCollected \<Rightarrow> [])"

definition driver_advice :: "'f DriverLatencyStat \<Rightarrow> recommendation list" where
  "driver_advice off =
     (let n = to_lowercase (stat_driver_name off); name = stat_driver_name off; d = max_execution_us off
      in if contains n ''ndis'' \<or> contains n ''rt640'' \<or> contains n ''e1d'' then [NetworkDriverSpike name d]
         else if contains n ''nvlddmkm'' \<or> contains n ''amdkmdag'' then [GpuDriverSpike name d]
         else if contains n ''audio'' \<or> contains n ''hdaudbus'' then [AudioDriverSpike name d]
         else if contains n ''acpi'' \<or> contains n ''wdf01000'' then [PowerDriverSpike name d]
         else [])"

definition measured :: "LatencyMeasurementStatus \<Rightarrow> bool" where
  "measured st \<longleftrightarrow> st = RealEtwCollected \<or> st = SyntheticTestFixture"

definition generate_report ::
  "((string \<rightharpoonup> 'f DriverLatencyStat) \<Rightarrow> 'f DriverLatencyStat list) \<Rightarrow>
     'f KernelLatencySessionManager \<Rightarrow> 'f \<Rightarrow> 'f LatencyReport" where
  "generate_report vals s duration_secs =
     (let offending = get_offending_drivers vals (isolator s);
          top = get_top_drivers vals 10 (isolator s);
          max_dpc = maximum (dpcs s);
          max_isr = maximum (isrs s);
          highest_dpc = (case top of [] \<Rightarrow> None | d # _ \<Rightarrow> Some (stat_driver_name d));
          highest_isr = (case top of _ # d # _ \<Rightarrow> Some (stat_driver_name d) | _ \<Rightarrow> highest_dpc);
          status = measurement_status s;
          suitable = (if measured status then max_dpc < 1000 else False);
          dpc_note = (if max_dpc \<ge> 1000 then [CriticalDpc]
                      else if max_dpc \<ge> 500 then [WarningDpc]
                      else if total (dpcs s) > 0 then [ExcellentDpc] else []);
          advice = (if measured status then dpc_note @ concat (map driver_advice offending) else [])
      in \<lparr>report_provenance = provenance s, report_status = status,
          total_dpcs_captured = total (dpcs s), total_isrs_captured = total (isrs s),
          highest_dpc_us = max_dpc, highest_isr_us = max_isr,
          highest_dpc_driver = highest_dpc, highest_isr_driver = highest_isr,
          offending_drivers = offending, top_drivers = top,
          system_suitable_for_competitive = suitable,
          recommendations = status_note s @ advice, test_duration_secs = duration_secs\<rparr>)"

section \<open>A session counts what it accepted\<close>

text \<open>The durations of the samples of one kind, and the routine addresses with their durations.\<close>

definition kind_durations :: "bool \<Rightarrow> (u64 \<times> u64 \<times> u64 \<times> bool) list \<Rightarrow> u64 list" where
  "kind_durations k xs = map (\<lambda>(_, d, _, _). d) (filter (\<lambda>(_, _, _, dpc). dpc = k) xs)"

definition executions :: "(u64 \<times> u64 \<times> u64 \<times> bool) list \<Rightarrow> (u64 \<times> u64) list" where
  "executions xs = map (\<lambda>(_, d, a, _). (a, d)) xs"

text \<open>The state a session has after the samples \<open>xs\<close> were accepted since it was started.\<close>

definition counted :: "'f \<Rightarrow> (u64 \<Rightarrow> u64 \<Rightarrow> 'f) \<Rightarrow> 'f KernelDriverIsolator \<Rightarrow> (u64 \<times> u64 \<times> u64 \<times> bool) list \<Rightarrow>
    'f KernelLatencySessionManager \<Rightarrow> bool" where
  "counted zero quot kdi xs s \<longleftrightarrow>
     dpcs s = fold observe (kind_durations True xs) zero_counter \<and>
     isrs s = fold observe (kind_durations False xs) zero_counter \<and>
     isolator s = record_all zero quot (executions xs) (clear_stats kdi) \<and>
     monitor_inv DEFAULT_MONITOR_RING_CAPACITY (monitor s) \<and> session_running s"

definition same_status :: "'f KernelLatencySessionManager \<Rightarrow> 'f KernelLatencySessionManager \<Rightarrow> bool" where
  "same_status s s' \<longleftrightarrow>
     measurement_status s' = measurement_status s \<and> status_detail s' = status_detail s \<and>
     context_qpc_frequency s' = context_qpc_frequency s \<and> trace_handle s' = trace_handle s \<and>
     session_open s' = session_open s"

lemma session_ingest_counted:
  assumes "counted zero quot kdi xs s"
  obtains s' where "session_ingest zero quot ts d a dpc s = Some s'"
    "counted zero quot kdi (xs @ [(ts, d, a, dpc)]) s'" "same_status s s'"
proof -
  let ?s = "if dpc then s\<lparr>dpcs := observe d (dpcs s)\<rparr> else s\<lparr>isrs := observe d (isrs s)\<rparr>"
  obtain name kdi' where rec: "record_execution zero quot a d (isolator s) = (name, kdi')" by fastforce
  let ?smp = "\<lparr>timestamp_us = ts, duration_us = d, routine_address = a, is_dpc = dpc, sample_driver_name = Some name\<rparr>"
  have "monitor_inv DEFAULT_MONITOR_RING_CAPACITY (monitor s)" using assms by (simp add: counted_def)
  from ingest_step [OF this] obtain mon where
    mon: "ingest_sample ?smp (monitor s) = Some (warning_of ?smp, mon)" "monitor_inv DEFAULT_MONITOR_RING_CAPACITY mon"
    by blast
  let ?s' = "?s\<lparr>isolator := kdi', monitor := mon\<rparr>"
  show thesis
  proof
    show "session_ingest zero quot ts d a dpc s = Some ?s'"
      using rec mon(1) by (cases dpc) (simp_all add: session_ingest_def Let_def)
    show "counted zero quot kdi (xs @ [(ts, d, a, dpc)]) ?s'"
      using assms mon(2) rec by (auto simp: counted_def record_all_def kind_durations_def executions_def)
    show "same_status s ?s'" by (simp add: same_status_def)
  qed
qed

lemma process_trace_counted:
  assumes "counted zero quot kdi xs s"
  shows "\<exists>s'. process_trace zero quot events s = Some s' \<and> same_status s s' \<and>
    counted zero quot kdi (xs @ List.map_filter (decode_event (context_qpc_frequency s)) events) s'"
  using assms
proof (induction events arbitrary: xs s)
  case Nil
  then show ?case by (simp add: same_status_def List.map_filter_simps)
next
  case (Cons e events)
  show ?case
  proof (cases "decode_event (context_qpc_frequency s) e")
    case None
    then show ?thesis using Cons.IH [OF Cons.prems]
      by (simp add: kernel_event_record_callback_def List.map_filter_simps)
  next
    case (Some x)
    obtain ts d a dpc where x: "x = (ts, d, a, dpc)" by (metis prod_cases4)
    obtain s1 where s1: "session_ingest zero quot ts d a dpc s = Some s1"
      "counted zero quot kdi (xs @ [(ts, d, a, dpc)]) s1" "same_status s s1"
      using session_ingest_counted [OF Cons.prems] by blast
    from Cons.IH [OF s1(2)] s1(1,3) Some x show ?thesis
      by (auto simp: kernel_event_record_callback_def List.map_filter_simps same_status_def)
  qed
qed

lemma start_session_result:
  assumes "start_session os cfg s m = ((r, s'), m')" and "monitor_inv DEFAULT_MONITOR_RING_CAPACITY (monitor s)"
  shows "(case r of
       Inl e \<Rightarrow> s' = s \<and> session_running s \<or>
         (s' = s\<lparr>measurement_status := measurement_status s', status_detail := Some e\<rparr> \<and> \<not> measured (measurement_status s'))
     | Inr _ \<Rightarrow> counted zero quot (isolator s) [] s' \<and> measurement_status s' = RealEtwCollected \<and> status_detail s' = None \<and>
         0 < context_qpc_frequency s' \<and> session_open s' \<and> trace_handle s' = trace_handle s)"
  using assms clear_monitor_inv [OF assms(2)]
  by (auto simp: start_session_def fail_session_def measured_def counted_def clear_session_def record_all_def kind_durations_def executions_def Let_def
      case_prod_beta split: if_splits option.splits)

lemma new_session_monitor [simp]: "monitor_inv DEFAULT_MONITOR_RING_CAPACITY (monitor (new_session os m))"
  using new_monitor_inv [of DEFAULT_MONITOR_RING_CAPACITY]
  by (simp add: new_session_def default_monitor_def DEFAULT_MONITOR_RING_CAPACITY_def)

lemma stop_session_keeps:
  "dpcs (fst (stop_session os s m)) = dpcs s" "isrs (fst (stop_session os s m)) = isrs s"
  "isolator (fst (stop_session os s m)) = isolator s"
  "measurement_status (fst (stop_session os s m)) = measurement_status s"
  "\<not> session_running (fst (stop_session os s m))"
  by (auto simp: stop_session_def Let_def case_prod_beta split: option.split)

text \<open>The samples a session accepts: none when the trace could not be opened.\<close>

definition accepted :: "'w win32 \<Rightarrow> 'w machine \<Rightarrow> int \<Rightarrow> event_record list \<Rightarrow> (u64 \<times> u64 \<times> u64 \<times> bool) list" where
  "accepted os m freq events =
     (if trace_open os (env m) \<in> {0, 0xFFFFFFFFFFFFFFFF} then [] else List.map_filter (decode_event freq) events)"

definition trace_frequency :: "'w win32 \<Rightarrow> 'w machine \<Rightarrow> int" where
  "trace_frequency os m = (case qpc_frequency os (env m) of Some f \<Rightarrow> if f \<le> 0 then 10000000 else f | None \<Rightarrow> 10000000)"

definition after_start :: "'w win32 \<Rightarrow> 'w machine \<Rightarrow> 'w machine" where
  "after_start os m =
     snd (call StartTrace (trace_start os (64, 4, 32)) (call_unit StopTrace (trace_stop os) m))"

lemma run_real_session_counted:
  fixes s :: "'f KernelLatencySessionManager"
  assumes "monitor_inv DEFAULT_MONITOR_RING_CAPACITY (monitor s)" and "trace_handle s = None"
  shows "\<exists>r s' m'. run_real_session os zero quot t events s m = Some ((r, s'), m') \<and>
    (case r of
       Inl e \<Rightarrow> s' = s \<and> session_running s \<or>
         (s' = s\<lparr>measurement_status := measurement_status s', status_detail := Some e\<rparr> \<and> \<not> measured (measurement_status s'))
     | Inr _ \<Rightarrow> \<not> session_running s' \<and> measurement_status s' = RealEtwCollected \<and>
         (\<exists>s1. counted zero quot (isolator s) (accepted os (after_start os m) (trace_frequency os m) events) s1 \<and>
            dpcs s' = dpcs s1 \<and> isrs s' = isrs s1 \<and> isolator s' = isolator s1))"
proof -
  obtain r s1 m1 where start: "start_session os default_session_config s m = ((r, s1), m1)"
    by (metis prod.exhaust)
  note st = start_session_result [OF start assms(1), of zero quot]
  show ?thesis
  proof (cases r)
    case (Inl e)
    then show ?thesis using start st by (simp add: run_real_session_def)
  next
    case (Inr u)
    have m1: "m1 = after_start os m" "context_qpc_frequency s1 = trace_frequency os m"
      using start Inr
      by (auto simp: start_session_def fail_session_def after_start_def trace_frequency_def default_session_config_def
          Let_def case_prod_beta split: if_splits)
    let ?s2 = "worker_open os m1 s1"
    let ?bad = "trace_open os (env m1) \<in> {0, 0xFFFFFFFFFFFFFFFF}"
    have closed: "trace_handle ?s2 = None \<longleftrightarrow> ?bad" using st Inr assms(2) by (simp add: worker_open_def Let_def)
    have s1: "counted zero quot (isolator s) [] s1" "measurement_status s1 = RealEtwCollected" using st Inr by simp_all
    obtain s3 where s3: "process_trace zero quot (if ?bad then [] else events) ?s2 = Some s3"
      "measurement_status s3 = RealEtwCollected"
      "counted zero quot (isolator s) (accepted os m1 (context_qpc_frequency s1) events) (s3\<lparr>session_running := True\<rparr>)"
    proof (cases ?bad)
      case True
      then show thesis using that [of ?s2] s1
        by (auto simp: worker_open_def Let_def accepted_def counted_def)
    next
      case False
      then have "counted zero quot (isolator s) [] ?s2" using s1(1) by (auto simp: worker_open_def Let_def counted_def)
      from process_trace_counted [OF this, of events] show thesis
        using that False s1(2) by (auto simp: worker_open_def Let_def accepted_def same_status_def counted_def)
    qed
    let ?stop = "stop_session os s3 (sleep os t m1)"
    have "run_real_session os zero quot t events s m = Some ((Ok (), fst ?stop), snd ?stop)"
      using start Inr s3(1) closed by (simp add: run_real_session_def Let_def case_prod_beta)
    then show ?thesis
      using s3(2,3) m1 by (auto simp: stop_session_keeps intro!: exI [of _ "s3\<lparr>session_running := True\<rparr>"])
  qed
qed
section \<open>Properties\<close>

text \<open>
  C15: the lock-free counters linearize. Whatever the interleaving of the threads that update a
  counter, with any number of failed exchanges, every state they reach can still be completed, and
  when all of them have finished the counter is the one that updating in sequence gives: every
  update is counted once, and the maximum is the largest duration.
\<close>

theorem counters_linearize:
  assumes "counter_step\<^sup>*\<^sup>* (c0, map (\<lambda>d. (d, Entry)) ds) (c, ts)"
  shows "(\<exists>ts'. counter_step\<^sup>*\<^sup>* (c, ts) (fold observe ds c0, ts') \<and> (\<forall>t \<in> set ts'. snd t = Finished)) \<and>
    ((\<forall>t \<in> set ts. snd t = Finished) \<longrightarrow> c = fold observe ds c0)"
proof
  obtain c' ts' where fin: "counter_step\<^sup>*\<^sup>* (c, ts) (c', ts')" "length ts' = length ts"
    "\<forall>t \<in> set (take (length ts) ts'). snd t = Finished"
    using threads_finish [of "length ts" ts c] by blast
  then have all: "\<forall>t \<in> set ts'. snd t = Finished" by simp
  have "counter_inv c0 ds (c', ts')"
    using counter_inv_reachable [OF rtranclp_trans [OF assms fin(1)]] .
  then have "c' = fold observe ds c0" using all by (rule counter_done)
  then show "\<exists>ts'. counter_step\<^sup>*\<^sup>* (c, ts) (fold observe ds c0, ts') \<and> (\<forall>t \<in> set ts'. snd t = Finished)"
    using fin(1) all by blast
  show "(\<forall>t \<in> set ts. snd t = Finished) \<longrightarrow> c = fold observe ds c0"
    using counter_done [OF counter_inv_reachable [OF assms]] by blast
qed

text \<open>Two threads, the second about to read the maximum the first has written.\<close>

theorem counters_linearize_witness:
  "\<exists>ts'. counter_step\<^sup>*\<^sup>* (\<lparr>total = 2, maximum = 7\<rparr>, [(7, Finished), (9, Load)])
     (fold observe [7, 9] zero_counter, ts') \<and> (\<forall>t \<in> set ts'. snd t = Finished)"
proof -
  have "counter_step (zero_counter, [(7, Entry), (9, Entry)]) (\<lparr>total = 1, maximum = 0\<rparr>, [(7, Load), (9, Entry)])"
    using fetch_add [of 0 "[(7, Entry), (9, Entry)]" 7 zero_counter] by (simp add: zero_counter_def)
  moreover have "counter_step (\<lparr>total = 1, maximum = 0\<rparr>, [(7, Load), (9, Entry)])
      (\<lparr>total = 1, maximum = 0\<rparr>, [(7, Attempt 0), (9, Entry)])"
    using load_max [of 0 "[(7, Load), (9, Entry)]" 7 "\<lparr>total = 1, maximum = 0\<rparr>"] by (simp add: loop_test_def)
  moreover have "counter_step (\<lparr>total = 1, maximum = 0\<rparr>, [(7, Attempt 0), (9, Entry)])
      (\<lparr>total = 1, maximum = 7\<rparr>, [(7, Finished), (9, Entry)])"
    using exchange [of 0 "[(7, Attempt 0), (9, Entry)]" 7 "\<lparr>total = 1, maximum = 0\<rparr>"] by simp
  moreover have "counter_step (\<lparr>total = 1, maximum = 7\<rparr>, [(7, Finished), (9, Entry)])
      (\<lparr>total = 2, maximum = 7\<rparr>, [(7, Finished), (9, Load)])"
    using fetch_add [of 1 "[(7, Finished), (9, Entry)]" 9 "\<lparr>total = 1, maximum = 7\<rparr>"] by simp
  ultimately have "counter_step\<^sup>*\<^sup>* (zero_counter, map (\<lambda>d. (d, Entry)) [7, 9])
      (\<lparr>total = 2, maximum = 7\<rparr>, [(7, Finished), (9, Load)])"
    by (simp add: converse_rtranclp_into_rtranclp)
  from counters_linearize [OF this] show ?thesis by blast
qed

text \<open>What an event says, over the natural numbers.\<close>

definition event_spec :: "nat \<Rightarrow> event_record \<Rightarrow> (nat \<times> nat \<times> u64 \<times> bool) option" where
  "event_spec freq rec =
     (case user_data rec of
        Some bs \<Rightarrow>
          let us = (unat (time_stamp rec) - unat (u64_at 0 bs)) * 1000000 div freq
          in if provider rec \<in> {PERFINFO_GUID, SYSTEM_TRACE_CONTROL_GUID} \<and> event_opcode rec \<in> {66, 67, 68, 69} \<and>
                16 \<le> length bs \<and> u64_at 8 bs \<noteq> 0 \<and> us < 10000000
             then Some (unat (time_stamp rec) * 1000000 div freq, us, u64_at 8 bs, event_opcode rec \<noteq> 67)
             else None
      | None \<Rightarrow> None)"

lemma ticks_to_us_exact:
  assumes "0 < freq" and "freq < 2 ^ 63" and "unat t * 1000000 < 2 ^ 64"
  shows "unat (ticks_to_us freq t) = unat t * 1000000 div nat freq"
proof -
  have "unat (t * 1000000) = unat t * 1000000" using assms(3) by (simp add: unat_word_ariths)
  moreover have "unat (word_of_int freq :: u64) = nat freq"
    using assms(1,2) take_bit_int_eq_self [of freq 64] by (simp add: unsigned_of_int)
  ultimately show ?thesis using assms(1) by (simp add: ticks_to_us_def unat_div)
qed

lemma unat_duration_ticks: "unat (duration_ticks e i) = unat e - unat i"
  by (simp add: duration_ticks_def unat_sub word_less_nat_alt word_le_nat_alt)

text \<open>
  event decoding is exact below the overflow. For a positive counter frequency and a time stamp
  whose product with a million fits into 64 bits, the callback accepts exactly the well-formed DPC
  and ISR events with a routine address and a duration below ten seconds, and the time stamp and
  duration it records are the ticks converted to whole microseconds, a start after the event
  counting as no duration.
\<close>

theorem decode_event_exact:
  assumes "0 < freq" and "freq < 2 ^ 63" and "unat (time_stamp rec) * 1000000 < 2 ^ 64"
  shows "map_option (\<lambda>(ts, d, a, dpc). (unat ts, unat d, a, dpc)) (decode_event freq rec) = event_spec (nat freq) rec"
proof -
  have ts: "unat (ticks_to_us freq (time_stamp rec)) = unat (time_stamp rec) * 1000000 div nat freq"
    by (rule ticks_to_us_exact [OF assms])
  have d: "unat (ticks_to_us freq (duration_ticks (time_stamp rec) i)) =
      (unat (time_stamp rec) - unat i) * 1000000 div nat freq" for i
    using ticks_to_us_exact [OF assms(1,2), of "duration_ticks (time_stamp rec) i"] assms(3)
    by (simp add: unat_duration_ticks)
  have lt: "ticks_to_us freq (duration_ticks (time_stamp rec) i) < 10000000 \<longleftrightarrow>
      (unat (time_stamp rec) - unat i) * 1000000 div nat freq < 10000000" for i
    by (simp add: word_less_nat_alt d)
  show ?thesis
    by (auto simp: decode_event_def event_spec_def Let_def ts d lt split: option.split)
qed

theorem decode_event_exact_witness:
  "map_option (\<lambda>(ts, d, a, dpc). (unat ts, unat d, a, dpc))
     (decode_event 10000000 \<lparr>provider = PERFINFO_GUID, event_opcode = 66, time_stamp = 2000000,
        user_data = Some [0x70, 0x5D, 0x1E, 0, 0, 0, 0, 0, 0, 0x10, 0, 0, 0, 0, 0, 0]\<rparr>) = Some (200000, 1000, 4096, True)"
proof -
  have "u64_at 0 [0x70, 0x5D, 0x1E, 0, 0, 0, 0, 0, 0, 0x10, 0, 0, 0, 0, 0, 0] = 1990000" "u64_at 8 [0x70, 0x5D, 0x1E, 0, 0, 0, 0, 0, 0, 0x10, 0, 0, 0, 0, 0, 0] = 4096"
    by (simp_all add: u64_at_def be_val_def)
  then show ?thesis
    using decode_event_exact [of 10000000 "\<lparr>provider = PERFINFO_GUID, event_opcode = 66, time_stamp = 2000000,
        user_data = Some [0x70, 0x5D, 0x1E, 0, 0, 0, 0, 0, 0, 0x10, 0, 0, 0, 0, 0, 0]\<rparr>"]
    by (simp add: event_spec_def Let_def)
qed

text \<open>
  The product wraps around: at the usual counter frequency of 10 MHz an event 21.4 days after the
  counter started is stamped with 0 and the event one tick earlier with all of the time.
\<close>

lemma time_stamp_wraps:
  "ticks_to_us 10000000 18446744073709 = 1844674407370" "ticks_to_us 10000000 18446744073710 = 0"
  by (simp_all add: ticks_to_us_def)
lemma fold_max_less: "fold max ds (v :: u64) < t \<longleftrightarrow> v < t \<and> (\<forall>d \<in> set ds. d < t)"
  by (induction ds arbitrary: v) auto

lemma counted_report:
  assumes "counted zero quot kdi xs s1" and "lists_values vals" and "measurement_status s = RealEtwCollected"
    and "dpcs s = dpcs s1" "isrs s = isrs s1" "isolator s = isolator s1"
  shows "let r = generate_report vals s secs in
     report_status r = RealEtwCollected \<and>
     total_dpcs_captured r = of_nat (length (kind_durations True xs)) \<and>
     total_isrs_captured r = of_nat (length (kind_durations False xs)) \<and>
     highest_dpc_us r = fold max (kind_durations True xs) 0 \<and>
     highest_isr_us r = fold max (kind_durations False xs) 0 \<and>
     (system_suitable_for_competitive r \<longleftrightarrow> (\<forall>(_, d, _, dpc) \<in> set xs. dpc \<longrightarrow> d < 1000)) \<and>
     stat_driver_name ` set (offending_drivers r) =
       {fst (attribution a kdi) | a d. (a, d) \<in> set (executions xs) \<and> d \<ge> 500}"
proof -
  have "fold max (kind_durations True xs) 0 < (1000 :: u64) \<longleftrightarrow> (\<forall>(_, d, _, dpc) \<in> set xs. dpc \<longrightarrow> d < 1000)"
    by (auto simp: fold_max_less kind_durations_def)
  moreover have "stat_driver_name ` set (get_offending_drivers vals (isolator s)) =
       {fst (attribution a kdi) | a d. (a, d) \<in> set (executions xs) \<and> d \<ge> 500}"
    using offending_drivers_history [OF assms(2)] assms(1,6) by (simp add: counted_def)
  ultimately show ?thesis
    using assms(1,3,4,5) by (simp add: generate_report_def Let_def measured_def counted_def fold_observe zero_counter_def)
qed


definition demo_trace_os :: "world win32" where
  "demo_trace_os = demo_drivers_os\<lparr>token_elevation := (\<lambda>_. Some 1), qpc_frequency := (\<lambda>_. Some 10000000),
     trace_start := (\<lambda>_ w. (0, w)), trace_open := (\<lambda>_. 7)\<rparr>"

definition demo_event :: event_record where
  "demo_event = \<lparr>provider = PERFINFO_GUID, event_opcode = 66, time_stamp = 2000000,
     user_data = Some [0x70, 0x5D, 0x1E, 0, 0, 0, 0, 0, 0x10, 0, 0, 0x09, 0, 0, 0, 0]\<rparr>"


text \<open>
  When the trace cannot be opened, the worker clears the running flag, and stopping does nothing any
  more: the kernel logger that was started stays on.
\<close>

lemma unopened_trace_keeps_logger:
  assumes "start_session os cfg s m = ((Ok (), s1), m1)" and "trace_open os (env m1) = 0"
  shows "session_open (fst (stop_session os (worker_open os m1 s1) m1)) \<and>
    snd (stop_session os (worker_open os m1 s1) m1) = m1"
proof -
  have "session_open s1"
    using assms(1) by (auto simp: start_session_def fail_session_def Let_def case_prod_beta split: if_splits)
  then show ?thesis using assms(2) by (simp add: worker_open_def stop_session_def Let_def)
qed

end
