(* ===== verification/Bench_Stats.thy ===== *)
theory Bench_Stats
  imports F64 Latency_Session "HOL-Library.Monad_Syntax"
begin

text \<open>
  \<^verbatim>\<open>benchmarking/models.rs\<close> and \<^verbatim>\<open>benchmarking/stats.rs\<close> of the shared crate: the records of a frame
  benchmark, the metrics of one run, and the statistical tests that compare two sets of runs.

  The functions are polymorphic in the floating-point numbers, as the theory of \<open>f64_lib\<close> says.
  A result is \<open>None\<close> where the code does not return: an index that is out of range, or a recursion
  or loop that does not end. Error texts are constructors that carry the formatted values.
\<close>

section \<open>Records\<close>

record 'f FrameSample =
  frame_index :: u64
  frame_timestamp_us :: u64
  ms_between_presents :: 'f
  ms_until_displayed :: "'f option"
  frame_time_ms :: 'f

definition default_provenance :: TelemetryProvenance where
  "default_provenance =
     \<lparr>telemetry_source = RealEtwPresentation, collection_mechanism = DxgiPresentStart,
      is_directly_measured = True, sample_count = 0, dropped_events = 0\<rparr>"

record 'f EnvironmentalTelemetry =
  cpu_utilization_percent :: 'f
  env_memory_load_percent :: u32
  thermal_status :: string
  ac_power_online :: "bool option"
  active_processes_count :: u32

record 'f BenchmarkMetrics =
  metrics_provenance :: TelemetryProvenance
  metrics_environment :: "'f EnvironmentalTelemetry option"
  total_frames :: nat
  duration_seconds :: 'f
  avg_fps :: 'f
  one_percent_low_fps :: 'f
  zero_point_one_percent_low_fps :: 'f
  min_fps :: 'f
  max_fps :: 'f
  frame_time_mean_ms :: 'f
  frame_time_std_dev_ms :: 'f
  p50_frame_time_ms :: 'f
  p90_frame_time_ms :: 'f
  p95_frame_time_ms :: 'f
  p99_frame_time_ms :: 'f
  p99_9_frame_time_ms :: 'f
  stutter_count_1_5x :: nat
  stutter_count_2_0x :: nat

datatype stats_error =
    InsufficientSamples nat nat
  | NoActiveFrames
  | TooFewSamples nat nat
  | UnequalSizes nat nat
  | TooFewPairs nat
  | EmptySampleSets
  | EmptyTrialSets

section \<open>Metrics of one run\<close>

definition checked_index :: "'a list \<Rightarrow> nat \<Rightarrow> 'a option" where
  "checked_index xs i = (if i < length xs then Some (xs ! i) else None)"

definition calculate_percentile ::
  "'f::{plus,minus,times,inverse,ord} f64_lib \<Rightarrow> 'f list \<Rightarrow> 'f \<Rightarrow> 'f option" where
  "calculate_percentile F sorted_data percentile =
     (let n = length sorted_data
      in if n = 0 then Some (lit F 0)
         else if n = 1 then Some (sorted_data ! 0)
         else
           let p = f64_clamp percentile (lit F 0) (lit F 100);
               rank = (p / lit F 100) * nat_f64 F (n - 1);
               low_idx = unat (f64_u64 F (floor_f64 F rank));
               high_idx = min (low_idx + 1) (n - 1);
               frac = rank - nat_f64 F low_idx
           in do {
                low \<leftarrow> checked_index sorted_data low_idx;
                high \<leftarrow> checked_index sorted_data high_idx;
                Some (low + frac * (high - low))
              })"

definition mean_f64 :: "'f::{plus,inverse} f64_lib \<Rightarrow> 'f list \<Rightarrow> 'f" where
  "mean_f64 F xs = sum_f64 F xs / nat_f64 F (length xs)"

definition squares_about :: "'f::{plus,minus} f64_lib \<Rightarrow> 'f \<Rightarrow> 'f list \<Rightarrow> 'f" where
  "squares_about F c xs = sum_f64 F (map (\<lambda>x. powi_f64 F (x - c) 2) xs)"

definition fps_of :: "'f::{inverse,ord} f64_lib \<Rightarrow> 'f \<Rightarrow> 'f" where
  "fps_of F t = (if lit F 0 < t then lit F 1000 / t else lit F 0)"

definition compute_metrics_with_provenance ::
  "'f::{plus,minus,times,inverse,ord} f64_lib \<Rightarrow> 'f FrameSample list \<Rightarrow> nat \<Rightarrow> TelemetryProvenance \<Rightarrow>
     'f EnvironmentalTelemetry option \<Rightarrow> (stats_error, 'f BenchmarkMetrics) rust_result option" where
  "compute_metrics_with_provenance F ss warmup_frames prov environment =
     (if length ss \<le> warmup_frames then Some (Err (InsufficientSamples (length ss) warmup_frames))
      else
        let active_samples = drop warmup_frames ss;
            n = length active_samples;
            frame_times = map frame_time_ms active_samples
        in if frame_times = [] then Some (Err NoActiveFrames)
           else
             let total_duration_ms = sum_f64 F frame_times;
                 seconds = total_duration_ms / lit F 1000;
                 fps = nat_f64 F n / seconds;
                 mean = total_duration_ms / nat_f64 F n;
                 variance = (if n > 1 then squares_about F mean frame_times / nat_f64 F (n - 1) else lit F 0);
                 sorted_times = sort_by (<) frame_times
             in do {
                  min_ft \<leftarrow> checked_index sorted_times 0;
                  max_ft \<leftarrow> checked_index sorted_times (n - 1);
                  p50 \<leftarrow> calculate_percentile F sorted_times (lit F 50);
                  p90 \<leftarrow> calculate_percentile F sorted_times (lit F 90);
                  p95 \<leftarrow> calculate_percentile F sorted_times (lit F 95);
                  p99 \<leftarrow> calculate_percentile F sorted_times (lit F 99);
                  p99_9 \<leftarrow> calculate_percentile F sorted_times (lit F 99.9);
                  let threshold_1_5x = mean * lit F 1.5;
                  let threshold_2_0x = mean * lit F 2;
                  Some (Ok
                    \<lparr>metrics_provenance = prov, metrics_environment = environment, total_frames = n,
                     duration_seconds = seconds, avg_fps = fps,
                     one_percent_low_fps = fps_of F p99, zero_point_one_percent_low_fps = fps_of F p99_9,
                     min_fps = fps_of F max_ft, max_fps = fps_of F min_ft,
                     frame_time_mean_ms = mean, frame_time_std_dev_ms = sqrt_f64 F variance,
                     p50_frame_time_ms = p50, p90_frame_time_ms = p90, p95_frame_time_ms = p95,
                     p99_frame_time_ms = p99, p99_9_frame_time_ms = p99_9,
                     stutter_count_1_5x = length (filter (\<lambda>t. threshold_1_5x \<le> t) sorted_times),
                     stutter_count_2_0x = length (filter (\<lambda>t. threshold_2_0x \<le> t) sorted_times)\<rparr>)
                })"

definition compute_metrics ::
  "'f::{plus,minus,times,inverse,ord} f64_lib \<Rightarrow> 'f FrameSample list \<Rightarrow> nat \<Rightarrow>
     (stats_error, 'f BenchmarkMetrics) rust_result option" where
  "compute_metrics F ss warmup_frames =
     compute_metrics_with_provenance F ss warmup_frames default_provenance None"

section \<open>The t distribution\<close>

definition LANCZOS :: "real list" where
  "LANCZOS =
     [0.99999999999980993, 676.5203681218851, - 1259.1392167224028, 771.32342877765313,
      - 176.61502916214059, 12.507343278686905, - 0.13857109526572012, 9.9843695780195716 / 10 ^ 6,
      1.5056327351493116 / 10 ^ 7]"

definition ln_gamma :: "'f::{plus,minus,times,inverse,ord} f64_lib \<Rightarrow> 'f \<Rightarrow> 'f" where
  "ln_gamma F z =
     (if z \<le> lit F 0 then lit F 0
      else
        let t = z + lit F 7 - lit F 0.5;
            x = foldl (\<lambda>x i. x + lit F (LANCZOS ! i) / (z + nat_f64 F i - lit F 1)) (lit F (LANCZOS ! 0)) [1..<9]
        in lit F 0.5 * ln_f64 F (lit F 2 * lit F pi) + (z - lit F 0.5) * ln_f64 F t - t + ln_f64 F x)"

definition BETA_EPS :: real where "BETA_EPS = 1 / 10 ^ 15"

definition away_from_zero :: "'f::{abs,ord} f64_lib \<Rightarrow> 'f \<Rightarrow> 'f" where
  "away_from_zero F d = (if \<bar>d\<bar> < lit F BETA_EPS then lit F BETA_EPS else d)"

text \<open>One step of Lentz's method: the new values of \<open>c\<close> and \<open>d\<close> for a coefficient of the fraction.\<close>

definition lentz_step ::
  "'f::{plus,times,inverse,abs,ord} f64_lib \<Rightarrow> 'f \<Rightarrow> 'f \<times> 'f \<Rightarrow> 'f \<times> 'f" where
  "lentz_step F coefficient cd =
     (case cd of (c, d) \<Rightarrow>
        let d = away_from_zero F (lit F 1 + coefficient * d);
            c = away_from_zero F (lit F 1 + coefficient / c)
        in (c, lit F 1 / d))"

definition num_even :: "'f::{plus,uminus,times,inverse} f64_lib \<Rightarrow> 'f \<Rightarrow> 'f \<Rightarrow> 'f \<Rightarrow> 'f \<Rightarrow> 'f" where
  "num_even F a b x mf =
     (- (a + mf)) * (a + b + mf) * x / ((a + lit F 2 * mf) * (a + lit F 2 * mf + lit F 1))"

definition num_odd :: "'f::{plus,minus,times,inverse} f64_lib \<Rightarrow> 'f \<Rightarrow> 'f \<Rightarrow> 'f \<Rightarrow> 'f \<Rightarrow> 'f" where
  "num_odd F a b x mf =
     mf * (b - mf) * x / ((a + lit F 2 * mf - lit F 1) * (a + lit F 2 * mf))"

text \<open>The loop over \<open>m\<close>, with the number of rounds that are left; it ends early when a factor is 1.\<close>

fun lentz_loop ::
  "'f::{plus,minus,uminus,times,inverse,abs,ord} f64_lib \<Rightarrow> 'f \<Rightarrow> 'f \<Rightarrow> 'f \<Rightarrow> nat \<Rightarrow> nat \<Rightarrow> 'f \<times> 'f \<Rightarrow> 'f \<Rightarrow> 'f" where
  "lentz_loop F a b x 0 m cd h = h"
| "lentz_loop F a b x (Suc left) m cd h =
     (let mf = nat_f64 F m;
          (c, d) = lentz_step F (num_even F a b x mf) cd;
          h = h * (d * c);
          (c, d) = lentz_step F (num_odd F a b x mf) (c, d);
          delta = d * c;
          h = h * delta
      in if \<bar>delta - lit F 1\<bar> < lit F BETA_EPS then h else lentz_loop F a b x left (m + 1) (c, d) h)"

definition beta_fraction ::
  "'f::{plus,minus,uminus,times,inverse,abs,ord} f64_lib \<Rightarrow> 'f \<Rightarrow> 'f \<Rightarrow> 'f \<Rightarrow> 'f" where
  "beta_fraction F a b x =
     (let d = lit F 1 / away_from_zero F (lit F 1 - (a + b) * x / (a + lit F 1))
      in lentz_loop F a b x 200 1 (lit F 1, d) d)"

definition beta_front ::
  "'f::{plus,minus,times,inverse,ord} f64_lib \<Rightarrow> 'f \<Rightarrow> 'f \<Rightarrow> 'f \<Rightarrow> 'f" where
  "beta_front F a b x =
     (let lbeta = ln_gamma F (a + b) - ln_gamma F a - ln_gamma F b
      in exp_f64 F (lbeta + a * ln_f64 F x + b * ln_f64 F (lit F 1 - x)) / a)"

partial_function (option) regularized_incomplete_beta ::
  "'f::{plus,minus,uminus,times,inverse,abs,ord} f64_lib \<Rightarrow> 'f \<Rightarrow> 'f \<Rightarrow> 'f \<Rightarrow> 'f option" where
  "regularized_incomplete_beta F a b x =
     (if x \<le> lit F 0 then Some (lit F 0)
      else if lit F 1 \<le> x then Some (lit F 1)
      else if (a + lit F 1) / (a + b + lit F 2) < x then
        Option.bind (regularized_incomplete_beta F b a (lit F 1 - x)) (\<lambda>r. Some (lit F 1 - r))
      else Some (beta_front F a b x * beta_fraction F a b x))"

definition compute_t_distribution_two_tailed_p ::
  "'f::{plus,minus,uminus,times,inverse,abs,ord} f64_lib \<Rightarrow> 'f \<Rightarrow> 'f \<Rightarrow> 'f option" where
  "compute_t_distribution_two_tailed_p F t df =
     (if df \<le> lit F 0 then Some (lit F 1)
      else
        let x = df / (df + powi_f64 F t 2)
        in regularized_incomplete_beta F (df / lit F 2) (lit F 0.5) x)"

section \<open>Comparing two samples\<close>

definition sample_variance :: "'f::{plus,minus,inverse} f64_lib \<Rightarrow> 'f \<Rightarrow> 'f \<Rightarrow> 'f list \<Rightarrow> 'f" where
  "sample_variance F n mean xs = squares_about F mean xs / (n - lit F 1)"

definition welch_t_test ::
  "'f::{plus,minus,uminus,times,inverse,abs,ord} f64_lib \<Rightarrow> 'f list \<Rightarrow> 'f list \<Rightarrow>
     (stats_error, 'f \<times> 'f \<times> 'f) rust_result option" where
  "welch_t_test F sample_a sample_b =
     (let n1 = nat_f64 F (length sample_a); n2 = nat_f64 F (length sample_b)
      in if n1 < lit F 2 \<or> n2 < lit F 2 then Some (Err (TooFewSamples (length sample_a) (length sample_b)))
         else
           let mean1 = sum_f64 F sample_a / n1; mean2 = sum_f64 F sample_b / n2;
               var1 = sample_variance F n1 mean1 sample_a; var2 = sample_variance F n2 mean2 sample_b;
               se1 = var1 / n1; se2 = var2 / n2;
               se_diff = sqrt_f64 F (se1 + se2)
           in if se_diff \<le> lit F (1 / 10 ^ 12) then
                if \<bar>mean1 - mean2\<bar> < lit F (1 / 10 ^ 12) then Some (Ok (lit F 0, n1 + n2 - lit F 2, lit F 1))
                else Some (Ok (infinity_f64 F, n1 + n2 - lit F 2, lit F 0))
              else
                let t_stat = (mean2 - mean1) / se_diff;
                    df = powi_f64 F (se1 + se2) 2 /
                         (powi_f64 F se1 2 / (n1 - lit F 1) + powi_f64 F se2 2 / (n2 - lit F 1))
                in do {
                     p_val \<leftarrow> compute_t_distribution_two_tailed_p F \<bar>t_stat\<bar> df;
                     Some (Ok (t_stat, df, p_val))
                   })"

definition paired_t_test ::
  "'f::{plus,minus,uminus,times,inverse,abs,ord} f64_lib \<Rightarrow> 'f list \<Rightarrow> 'f list \<Rightarrow>
     (stats_error, 'f \<times> 'f \<times> 'f) rust_result option" where
  "paired_t_test F sample_a sample_b =
     (let n = length sample_a
      in if n \<noteq> length sample_b then Some (Err (UnequalSizes n (length sample_b)))
         else if n < 2 then Some (Err (TooFewPairs n))
         else
           let diffs = map (\<lambda>(b, a). b - a) (zip sample_b sample_a);
               mean_diff = sum_f64 F diffs / nat_f64 F n;
               var_diff = squares_about F mean_diff diffs / nat_f64 F (n - 1);
               se_diff = sqrt_f64 F (var_diff / nat_f64 F n);
               df = nat_f64 F (n - 1)
           in if se_diff \<le> lit F (1 / 10 ^ 12) then
                if \<bar>mean_diff\<bar> < lit F (1 / 10 ^ 12) then Some (Ok (lit F 0, df, lit F 1))
                else Some (Ok (infinity_f64 F, df, lit F 0))
              else
                let t_stat = mean_diff / se_diff
                in do {
                     p_val \<leftarrow> compute_t_distribution_two_tailed_p F \<bar>t_stat\<bar> df;
                     Some (Ok (t_stat, df, p_val))
                   })"

definition compute_cohens_d ::
  "'f::{plus,minus,uminus,times,inverse,abs,ord} f64_lib \<Rightarrow> 'f list \<Rightarrow> 'f list \<Rightarrow> 'f" where
  "compute_cohens_d F sample_a sample_b =
     (let n1 = nat_f64 F (length sample_a); n2 = nat_f64 F (length sample_b)
      in if n1 < lit F 2 \<or> n2 < lit F 2 then lit F 0
         else
           let mean1 = sum_f64 F sample_a / n1; mean2 = sum_f64 F sample_b / n2;
               var1 = sample_variance F n1 mean1 sample_a; var2 = sample_variance F n2 mean2 sample_b;
               pooled_var = ((n1 - lit F 1) * var1 + (n2 - lit F 1) * var2) / (n1 + n2 - lit F 2);
               pooled_sd = sqrt_f64 F pooled_var
           in if pooled_sd \<le> lit F (1 / 10 ^ 12) then
                if \<bar>mean2 - mean1\<bar> < lit F (1 / 10 ^ 12) then lit F 0
                else if mean1 < mean2 then infinity_f64 F
                else - infinity_f64 F
              else (mean2 - mean1) / pooled_sd)"

definition standard_normal_cdf ::
  "'f::{plus,minus,uminus,times,inverse,abs,ord} f64_lib \<Rightarrow> 'f \<Rightarrow> 'f" where
  "standard_normal_cdf F x =
     (let sign = (if x < lit F 0 then lit F (- 1) else lit F 1);
          z = \<bar>x\<bar> / lit F (sqrt 2);
          p = lit F 0.3275911;
          t = lit F 1 / (lit F 1 + p * z);
          a1 = lit F 0.254829592; a2 = lit F (- 0.284496736); a3 = lit F 1.421413741;
          a4 = lit F (- 1.453152027); a5 = lit F 1.061405429;
          poly = (((a5 * t + a4) * t + a3) * t + a2) * t + a1;
          erf_val = sign * (lit F 1 - poly * exp_f64 F (- z * z))
      in lit F 0.5 * (lit F 1 + erf_val))"

text \<open>
  Mid-ranks of a sorted list: the values that lie within \<open>10\<^sup>-\<^sup>1\<^sup>2\<close> of the one at \<open>i\<close> get the mean of
  their ranks. The loop goes on at the end of the run, which is \<open>i\<close> itself when the value there
  does not lie within \<open>10\<^sup>-\<^sup>1\<^sup>2\<close> of itself.
\<close>

definition tie_end :: "'f::{minus,abs,ord} f64_lib \<Rightarrow> ('f \<times> u8) list \<Rightarrow> nat \<Rightarrow> nat" where
  "tie_end F combined i =
     i + length (takeWhile (\<lambda>(v, _). \<bar>v - fst (combined ! i)\<bar> < lit F (1 / 10 ^ 12)) (drop i combined))"

partial_function (option) rank_loop ::
  "'f::{plus,minus,times,inverse,abs,ord} f64_lib \<Rightarrow> ('f \<times> u8) list \<Rightarrow> nat \<Rightarrow> 'f list \<Rightarrow> 'f \<Rightarrow>
     ('f list \<times> 'f) option" where
  "rank_loop F combined i ranks tie_sum =
     (if i < length combined then
        let n = nat_f64 F (length combined);
            j = tie_end F combined i;
            tie_count = nat_f64 F (j - i);
            avg_rank = nat_f64 F (i + 1 + j) / lit F 2;
            ranks = foldl (\<lambda>rs k. rs[k := avg_rank]) ranks [i..<j];
            tie_sum = (if lit F 1 < tie_count
                       then tie_sum + (powi_f64 F tie_count 3 - tie_count) / (n * (n - lit F 1)) else tie_sum)
        in rank_loop F combined j ranks tie_sum
      else Some (ranks, tie_sum))"

definition rank_sum :: "'f::plus f64_lib \<Rightarrow> ('f \<times> u8) list \<Rightarrow> 'f list \<Rightarrow> 'f" where
  "rank_sum F combined ranks =
     foldl (\<lambda>s ((_, label), r). if label = 0 then s + r else s) (lit F 0) (zip combined ranks)"

definition mann_whitney_u_test ::
  "'f::{plus,minus,uminus,times,inverse,abs,ord} f64_lib \<Rightarrow> 'f list \<Rightarrow> 'f list \<Rightarrow>
     (stats_error, 'f \<times> 'f) rust_result option" where
  "mann_whitney_u_test F sample_a sample_b =
     (let n1 = length sample_a; n2 = length sample_b
      in if n1 < 2 \<or> n2 < 2 then Some (Err (TooFewSamples n1 n2))
         else
           let n1_f = nat_f64 F n1; n2_f = nat_f64 F n2; n_total = n1 + n2;
               combined = sort_by (\<lambda>(v1, _) (v2, _). v1 < v2)
                            (map (\<lambda>x. (x, 0)) sample_a @ map (\<lambda>x. (x, 1)) sample_b)
           in do {
                (ranks, tie_sum) \<leftarrow> rank_loop F combined 0 (replicate n_total (lit F 0)) (lit F 0);
                let rank_sum_a = rank_sum F combined ranks;
                let u1 = n1_f * n2_f + (n1_f * (n1_f + lit F 1)) / lit F 2 - rank_sum_a;
                let u2 = n1_f * n2_f - u1;
                let u = f64_min u1 u2;
                let mu_u = (n1_f * n2_f) / lit F 2;
                let var_u = (n1_f * n2_f / lit F 12) * ((nat_f64 F n_total + lit F 1) - tie_sum);
                if var_u \<le> lit F (1 / 10 ^ 12)
                then Some (Ok (u, if \<bar>u - mu_u\<bar> < lit F (1 / 10 ^ 12) then lit F 1 else lit F 0))
                else do {
                  let sigma_u = sqrt_f64 F var_u;
                  let z = (if u < mu_u then (u - mu_u + lit F 0.5) / sigma_u
                           else if mu_u < u then (u - mu_u - lit F 0.5) / sigma_u
                           else lit F 0);
                  Some (Ok (u, f64_clamp (lit F 2 * (lit F 1 - standard_normal_cdf F \<bar>z\<bar>)) (lit F 0) (lit F 1)))
                }
              })"

text \<open>The pseudo-random numbers of the bootstrap.\<close>

definition RNG_SEED :: u64 where "RNG_SEED = 0x9E3779B97F4A7C15"

definition next_rand :: "u64 \<Rightarrow> u64" where
  "next_rand s =
     (let s = s XOR push_bit 13 s; s = s XOR drop_bit 7 s; s = s XOR push_bit 17 s in s)"

text \<open>The sums over \<open>k\<close> drawn pairs.\<close>

fun draw_pairs :: "'f::plus list \<Rightarrow> 'f list \<Rightarrow> nat \<Rightarrow> u64 \<Rightarrow> 'f \<Rightarrow> 'f \<Rightarrow> ('f \<times> 'f) \<times> u64" where
  "draw_pairs sample_a sample_b 0 rng sum_a sum_b = ((sum_a, sum_b), rng)"
| "draw_pairs sample_a sample_b (Suc k) rng sum_a sum_b =
     (let rng = next_rand rng; idx = unat rng mod length sample_a
      in draw_pairs sample_a sample_b k rng (sum_a + sample_a ! idx) (sum_b + sample_b ! idx))"

definition push_delta :: "'f::{minus,times,inverse,ord} f64_lib \<Rightarrow> 'f \<Rightarrow> 'f \<Rightarrow> 'f list \<Rightarrow> 'f list" where
  "push_delta F mean_a mean_b deltas =
     (if lit F 0 < mean_a then deltas @ [((mean_b - mean_a) / mean_a) * lit F 100] else deltas)"

fun paired_replicates ::
  "'f::{plus,minus,times,inverse,ord} f64_lib \<Rightarrow> 'f list \<Rightarrow> 'f list \<Rightarrow> nat \<Rightarrow> u64 \<Rightarrow> 'f list \<Rightarrow> 'f list" where
  "paired_replicates F sample_a sample_b 0 rng deltas = deltas"
| "paired_replicates F sample_a sample_b (Suc k) rng deltas =
     (let n_f = nat_f64 F (length sample_a);
          ((sum_a, sum_b), rng) = draw_pairs sample_a sample_b (length sample_a) rng (lit F 0) (lit F 0)
      in paired_replicates F sample_a sample_b k rng (push_delta F (sum_a / n_f) (sum_b / n_f) deltas))"

definition percentile_bounds ::
  "'f::{plus,minus,times,inverse,ord} f64_lib \<Rightarrow> 'f \<Rightarrow> 'f list \<Rightarrow> (stats_error, 'f \<times> 'f) rust_result option" where
  "percentile_bounds F confidence_level deltas =
     (if deltas = [] then Some (Ok (lit F 0, lit F 0))
      else
        let sorted_deltas = sort_by (<) deltas;
            alpha = lit F 1 - confidence_level;
            lower_pct = (alpha / lit F 2) * lit F 100;
            upper_pct = (lit F 1 - alpha / lit F 2) * lit F 100
        in do {
             lower \<leftarrow> calculate_percentile F sorted_deltas lower_pct;
             upper \<leftarrow> calculate_percentile F sorted_deltas upper_pct;
             Some (Ok (lower, upper))
           })"

definition bootstrap_paired_percentage_delta_ci ::
  "'f::{plus,minus,times,inverse,ord} f64_lib \<Rightarrow> 'f list \<Rightarrow> 'f list \<Rightarrow> nat \<Rightarrow> 'f \<Rightarrow>
     (stats_error, 'f \<times> 'f) rust_result option" where
  "bootstrap_paired_percentage_delta_ci F sample_a sample_b resamples confidence_level =
     (let n = length sample_a
      in if n \<noteq> length sample_b then Some (Err (UnequalSizes n (length sample_b)))
         else if n < 2 then Some (Err (TooFewPairs n))
         else percentile_bounds F confidence_level (paired_replicates F sample_a sample_b resamples RNG_SEED []))"

fun draw :: "'f::plus list \<Rightarrow> nat \<Rightarrow> u64 \<Rightarrow> 'f \<Rightarrow> 'f \<times> u64" where
  "draw xs 0 rng s = (s, rng)"
| "draw xs (Suc k) rng s =
     (let rng = next_rand rng in draw xs k rng (s + xs ! (unat rng mod length xs)))"

fun independent_replicates ::
  "'f::{plus,minus,times,inverse,ord} f64_lib \<Rightarrow> 'f list \<Rightarrow> 'f list \<Rightarrow> nat \<Rightarrow> u64 \<Rightarrow> 'f list \<Rightarrow> 'f list" where
  "independent_replicates F sample_a sample_b 0 rng deltas = deltas"
| "independent_replicates F sample_a sample_b (Suc k) rng deltas =
     (let (sum_a, rng) = draw sample_a (length sample_a) rng (lit F 0);
          mean_a = sum_a / nat_f64 F (length sample_a);
          (sum_b, rng) = draw sample_b (length sample_b) rng (lit F 0);
          mean_b = sum_b / nat_f64 F (length sample_b)
      in independent_replicates F sample_a sample_b k rng (push_delta F mean_a mean_b deltas))"

definition bootstrap_percentile_delta_ci ::
  "'f::{plus,minus,times,inverse,ord} f64_lib \<Rightarrow> 'f list \<Rightarrow> 'f list \<Rightarrow> nat \<Rightarrow> 'f \<Rightarrow>
     (stats_error, 'f \<times> 'f) rust_result option" where
  "bootstrap_percentile_delta_ci F sample_a sample_b resamples confidence_level =
     (if sample_a = [] \<or> sample_b = [] then Some (Err EmptySampleSets)
      else percentile_bounds F confidence_level
             (independent_replicates F sample_a sample_b resamples RNG_SEED []))"

definition levene_variance_test ::
  "'f::{plus,minus,uminus,times,inverse,abs,ord} f64_lib \<Rightarrow> 'f list \<Rightarrow> 'f list \<Rightarrow>
     (stats_error, 'f \<times> 'f) rust_result option" where
  "levene_variance_test F sample_a sample_b =
     (let n1 = length sample_a; n2 = length sample_b
      in if n1 < 2 \<or> n2 < 2 then Some (Err (TooFewSamples n1 n2))
         else do {
           med_a \<leftarrow> calculate_percentile F (sort_by (<) sample_a) (lit F 50);
           med_b \<leftarrow> calculate_percentile F (sort_by (<) sample_b) (lit F 50);
           let z1 = map (\<lambda>x. \<bar>x - med_a\<bar>) sample_a;
           let z2 = map (\<lambda>x. \<bar>x - med_b\<bar>) sample_b;
           let mean_z1 = sum_f64 F z1 / nat_f64 F n1;
           let mean_z2 = sum_f64 F z2 / nat_f64 F n2;
           let overall_mean_z = (sum_f64 F z1 + sum_f64 F z2) / nat_f64 F (n1 + n2);
           let ss_between = nat_f64 F n1 * powi_f64 F (mean_z1 - overall_mean_z) 2
                            + nat_f64 F n2 * powi_f64 F (mean_z2 - overall_mean_z) 2;
           let ss_within = squares_about F mean_z1 z1 + squares_about F mean_z2 z2;
           let df_between = lit F 1;
           let df_within = nat_f64 F (n1 + n2 - 2);
           if ss_within \<le> lit F (1 / 10 ^ 12)
           then Some (Ok (lit F 0, if ss_between < lit F (1 / 10 ^ 12) then lit F 1 else lit F 0))
           else do {
             let f_stat = (ss_between / df_between) / (ss_within / df_within);
             p_val \<leftarrow> compute_t_distribution_two_tailed_p F (sqrt_f64 F f_stat) df_within;
             Some (Ok (f_stat, p_val))
           }
         })"

section \<open>The A/B comparison\<close>

datatype 'f ab_recommendation =
    Accepted 'f
  | Borderline 'f 'f
  | RejectedRegression
  | RejectedInsignificant

record 'f ABComparisonReport =
  trials_count :: nat
  ab_provenance :: TelemetryProvenance
  ab_environment :: "'f EnvironmentalTelemetry option"
  baseline_avg_fps :: 'f
  optimized_avg_fps :: 'f
  delta_avg_fps_percent :: 'f
  baseline_one_percent_low :: 'f
  optimized_one_percent_low :: 'f
  delta_one_percent_low_percent :: 'f
  baseline_zero_one_percent_low :: 'f
  optimized_zero_one_percent_low :: 'f
  delta_zero_one_percent_low_percent :: 'f
  baseline_pacing_std_dev :: 'f
  optimized_pacing_std_dev :: 'f
  delta_pacing_std_dev_percent :: 'f
  welch_result :: "'f \<times> 'f \<times> 'f"
  paired_t_stat :: 'f
  paired_p_value :: 'f
  cohens_d :: 'f
  mann_whitney_result :: "'f \<times> 'f"
  bootstrap_one_percent_ci :: "'f \<times> 'f"
  levene_result :: "'f \<times> 'f"
  is_variance_significantly_reduced :: bool
  is_statistically_significant :: bool
  meets_threshold :: bool
  ab_recommendation_of :: "'f ab_recommendation"

definition delta_percent :: "'f::{minus,times,inverse} f64_lib \<Rightarrow> 'f \<Rightarrow> 'f \<Rightarrow> 'f" where
  "delta_percent F baseline optimized = ((optimized - baseline) / baseline) * lit F 100"

text \<open>The verdict from the p-values, the confidence interval and the two deltas.\<close>

definition significant :: "'f::ord f64_lib \<Rightarrow> 'f \<Rightarrow> 'f \<Rightarrow> 'f \<Rightarrow> 'f \<times> 'f \<Rightarrow> bool" where
  "significant F paired_p welch_p mann_whitney_p ci \<longleftrightarrow>
     (paired_p < lit F 0.01 \<or> welch_p < lit F 0.01) \<and> mann_whitney_p < lit F 0.05 \<and> lit F 0 < fst ci"

definition recommend :: "'f::{uminus,ord} f64_lib \<Rightarrow> bool \<Rightarrow> bool \<Rightarrow> 'f \<Rightarrow> 'f \<Rightarrow> 'f ab_recommendation" where
  "recommend F meets sig delta_1p d =
     (if meets then Accepted d
      else if sig \<and> lit F 0 < delta_1p then Borderline delta_1p d
      else if delta_1p < lit F (- 1) then RejectedRegression
      else RejectedInsignificant)"

definition ab_report ::
  "'f::{plus,minus,uminus,times,inverse,abs,ord} f64_lib \<Rightarrow> 'f BenchmarkMetrics list \<Rightarrow>
     'f BenchmarkMetrics list \<Rightarrow> 'f \<times> 'f \<times> 'f \<Rightarrow> 'f \<times> 'f \<times> 'f \<Rightarrow> 'f \<Rightarrow> 'f \<times> 'f \<Rightarrow> 'f \<times> 'f \<Rightarrow> 'f \<times> 'f \<Rightarrow>
     'f ABComparisonReport" where
  "ab_report F baseline_runs optimized_runs paired welch d mann_whitney ci levene =
     (let base_fps = map avg_fps baseline_runs; opt_fps = map avg_fps optimized_runs;
          base_1p = map one_percent_low_fps baseline_runs; opt_1p = map one_percent_low_fps optimized_runs;
          base_01p = map zero_point_one_percent_low_fps baseline_runs;
          opt_01p = map zero_point_one_percent_low_fps optimized_runs;
          base_pacing = map frame_time_std_dev_ms baseline_runs;
          opt_pacing = map frame_time_std_dev_ms optimized_runs;
          b_fps = mean_f64 F base_fps; o_fps = mean_f64 F opt_fps;
          b_1p = mean_f64 F base_1p; o_1p = mean_f64 F opt_1p;
          b_01p = mean_f64 F base_01p; o_01p = mean_f64 F opt_01p;
          b_pace = mean_f64 F base_pacing; o_pace = mean_f64 F opt_pacing;
          d_fps = delta_percent F b_fps o_fps; d_1p = delta_percent F b_1p o_1p;
          sig = significant F (snd (snd paired)) (snd (snd welch)) (snd mann_whitney) ci;
          meets = (sig \<and> (lit F 3 \<le> d_1p \<or> lit F 3 \<le> d_fps))
      in \<lparr>trials_count = min (length baseline_runs) (length optimized_runs),
          ab_provenance = metrics_provenance (hd baseline_runs),
          ab_environment =
            (case metrics_environment (last optimized_runs) of
               Some e \<Rightarrow> Some e
             | None \<Rightarrow> metrics_environment (last baseline_runs)),
          baseline_avg_fps = b_fps, optimized_avg_fps = o_fps, delta_avg_fps_percent = d_fps,
          baseline_one_percent_low = b_1p, optimized_one_percent_low = o_1p,
          delta_one_percent_low_percent = d_1p,
          baseline_zero_one_percent_low = b_01p, optimized_zero_one_percent_low = o_01p,
          delta_zero_one_percent_low_percent = delta_percent F b_01p o_01p,
          baseline_pacing_std_dev = b_pace, optimized_pacing_std_dev = o_pace,
          delta_pacing_std_dev_percent = delta_percent F b_pace o_pace,
          welch_result = welch, paired_t_stat = fst paired, paired_p_value = snd (snd paired), cohens_d = d,
          mann_whitney_result = mann_whitney, bootstrap_one_percent_ci = ci, levene_result = levene,
          is_variance_significantly_reduced = (snd levene < lit F 0.05 \<and> o_pace < b_pace),
          is_statistically_significant = sig, meets_threshold = meets,
          ab_recommendation_of = recommend F meets sig d_1p d\<rparr>)"

definition compare_ab_trials ::
  "'f::{plus,minus,uminus,times,inverse,abs,ord} f64_lib \<Rightarrow> 'f BenchmarkMetrics list \<Rightarrow>
     'f BenchmarkMetrics list \<Rightarrow> (stats_error, 'f ABComparisonReport) rust_result option" where
  "compare_ab_trials F baseline_runs optimized_runs =
     (if baseline_runs = [] \<or> optimized_runs = [] then Some (Err EmptyTrialSets)
      else
        let n = min (length baseline_runs) (length optimized_runs);
            base_1p = map one_percent_low_fps baseline_runs; opt_1p = map one_percent_low_fps optimized_runs;
            base_pacing = map frame_time_std_dev_ms baseline_runs;
            opt_pacing = map frame_time_std_dev_ms optimized_runs
        in do {
             paired \<leftarrow> paired_t_test F base_1p opt_1p;
             welch \<leftarrow> welch_t_test F base_1p opt_1p;
             (case welch of
                Inl e \<Rightarrow> Some (Err e)
              | Inr welch \<Rightarrow> do {
                  mw \<leftarrow> mann_whitney_u_test F base_1p opt_1p;
                  boot \<leftarrow> bootstrap_paired_percentage_delta_ci F base_1p opt_1p 2000 (lit F 0.95);
                  lev \<leftarrow> levene_variance_test F base_pacing opt_pacing;
                  Some (Ok (ab_report F baseline_runs optimized_runs
                    (unwrap_or paired (lit F 0, nat_f64 F (n - 1), lit F 1)) welch
                    (compute_cohens_d F base_1p opt_1p) (unwrap_or mw (lit F 0, lit F 1))
                    (unwrap_or boot (lit F 0, lit F 0)) (unwrap_or lev (lit F 0, lit F 1))))
                })
           })"

section \<open>Percentiles\<close>

text \<open>The value at the real rank \<open>r\<close> of a list, by linear interpolation between neighbours.\<close>

definition interpolate :: "real list \<Rightarrow> real \<Rightarrow> real" where
  "interpolate xs r =
     (let k = nat \<lfloor>r\<rfloor>; lo = xs ! k; hi = xs ! min (k + 1) (length xs - 1) in lo + (r - real k) * (hi - lo))"

definition rank_of :: "real list \<Rightarrow> real \<Rightarrow> real" where
  "rank_of xs p = min (max p 0) 100 / 100 * (real (length xs) - 1)"

lemma clamp_exact: "f64_clamp (Fin p) (Fin 0) (Fin 100) = Fin (min (max p 0) 100)"
  by (simp add: f64_clamp_def)

lemma rank_bounds:
  assumes "xs \<noteq> []"
  shows "0 \<le> rank_of xs p" "rank_of xs p \<le> real (length xs - 1)"
proof -
  have n: "real (length xs) - 1 = real (length xs - 1)" using assms by (cases xs) simp_all
  show "0 \<le> rank_of xs p" unfolding rank_of_def n by simp
  have "min (max p 0) 100 / 100 * real (length xs - 1) \<le> 1 * real (length xs - 1)"
    by (intro mult_right_mono) simp_all
  then show "rank_of xs p \<le> real (length xs - 1)" unfolding rank_of_def n by simp
qed

lemma floor_rank:
  assumes "0 \<le> r" and "r \<le> real n"
  shows "nat \<lfloor>r\<rfloor> \<le> n" and "real (nat \<lfloor>r\<rfloor>) \<le> r" and "r < real (nat \<lfloor>r\<rfloor>) + 1"
  using assms by (simp_all add: nat_le_iff floor_le_iff)

lemma neighbours:
  assumes "xs \<noteq> []" and "k \<le> length xs - 1"
  shows "k < length xs" "min (k + 1) (length xs - 1) < length xs" "k \<le> min (k + 1) (length xs - 1)"
  using assms by (cases xs; simp)+

lemma percentile_exact:
  assumes "xs \<noteq> []" and small: "length xs < 2 ^ 64"
  shows "calculate_percentile exact (map Fin xs) (Fin p) = Some (Fin (interpolate xs (rank_of xs p)))"
proof (cases "length xs = 1")
  case True
  then obtain x where "xs = [x]" by (cases xs) auto
  then show ?thesis by (simp add: calculate_percentile_def interpolate_def rank_of_def Let_def)
next
  case False
  let ?r = "rank_of xs p"
  have n: "real (length xs) - 1 = real (length xs - 1)" using assms by (cases xs) simp_all
  note b = rank_bounds [OF assms(1), of p]
  have k: "nat \<lfloor>?r\<rfloor> \<le> length xs - 1" using floor_rank(1) [OF b] .
  have low: "unat (of_nat (min (nat \<lfloor>of_int \<lfloor>?r\<rfloor>\<rfloor>) (2 ^ 64 - 1)) :: u64) = nat \<lfloor>?r\<rfloor>"
    using k small assms(1) by (simp add: unat_of_nat)
  have r: "min (max p 0) 100 / 100 * real (length xs - 1) = ?r" by (simp add: rank_of_def n)
  have "checked_index (map Fin xs) (nat \<lfloor>?r\<rfloor>) = Some (Fin (xs ! nat \<lfloor>?r\<rfloor>))"
    and "checked_index (map Fin xs) (min (nat \<lfloor>?r\<rfloor> + 1) (length xs - 1)) = Some (Fin (xs ! min (nat \<lfloor>?r\<rfloor> + 1) (length xs - 1)))"
    using neighbours [OF assms(1) k] by (simp_all add: checked_index_def)
  then show ?thesis using False assms(1) low r
    by (simp add: calculate_percentile_def clamp_exact interpolate_def Let_def del: of_nat_unat)
qed

lemma interpolate_between:
  assumes "sorted xs" and "xs \<noteq> []" and "0 \<le> r" and "r \<le> real (length xs - 1)"
  shows "xs ! nat \<lfloor>r\<rfloor> \<le> interpolate xs r"
    and "interpolate xs r \<le> xs ! min (nat \<lfloor>r\<rfloor> + 1) (length xs - 1)"
proof -
  let ?k = "nat \<lfloor>r\<rfloor>" and ?h = "min (nat \<lfloor>r\<rfloor> + 1) (length xs - 1)"
  note f = floor_rank [OF assms(3,4)]
  note h = neighbours(2,3) [OF assms(2) f(1)]
  have le: "xs ! ?k \<le> xs ! ?h" using sorted_nth_mono [OF assms(1) h(2,1)] .
  have t: "0 \<le> r - real ?k" "r - real ?k \<le> 1" using f by linarith+
  have "(r - real ?k) * (xs ! ?h - xs ! ?k) \<le> 1 * (xs ! ?h - xs ! ?k)"
    using t le by (intro mult_right_mono) auto
  moreover have "0 \<le> (r - real ?k) * (xs ! ?h - xs ! ?k)" using t le by (intro mult_nonneg_nonneg) auto
  ultimately show "xs ! ?k \<le> interpolate xs r" "interpolate xs r \<le> xs ! ?h"
    by (simp_all add: interpolate_def Let_def)
qed

lemma interpolate_mono:
  assumes "sorted xs" and "xs \<noteq> []" and "0 \<le> r" and "r \<le> s" and "s \<le> real (length xs - 1)"
  shows "interpolate xs r \<le> interpolate xs s"
proof (cases "nat \<lfloor>r\<rfloor> = nat \<lfloor>s\<rfloor>")
  case True
  let ?k = "nat \<lfloor>s\<rfloor>" and ?h = "min (nat \<lfloor>s\<rfloor> + 1) (length xs - 1)"
  have "?k \<le> length xs - 1" using floor_rank(1) [of s] assms by simp
  note neighbours(2,3) [OF assms(2) this]
  then have "xs ! ?k \<le> xs ! ?h" using sorted_nth_mono [OF assms(1)] by blast
  then have "(r - real ?k) * (xs ! ?h - xs ! ?k) \<le> (s - real ?k) * (xs ! ?h - xs ! ?k)"
    using assms(4) by (intro mult_right_mono) auto
  then show ?thesis using True by (simp add: interpolate_def Let_def)
next
  case False
  then have "nat \<lfloor>r\<rfloor> < nat \<lfloor>s\<rfloor>" using assms(3,4) by (metis floor_mono le_neq_implies_less nat_mono)
  moreover have k: "nat \<lfloor>s\<rfloor> \<le> length xs - 1" using floor_rank(1) [of s] assms by simp
  ultimately have "min (nat \<lfloor>r\<rfloor> + 1) (length xs - 1) \<le> nat \<lfloor>s\<rfloor>" "nat \<lfloor>s\<rfloor> < length xs"
    using neighbours(1) [OF assms(2) k] by linarith+
  then have "xs ! min (nat \<lfloor>r\<rfloor> + 1) (length xs - 1) \<le> xs ! nat \<lfloor>s\<rfloor>" by (intro sorted_nth_mono assms(1)) auto
  then show ?thesis using interpolate_between [of xs r] interpolate_between [of xs s] assms by simp
qed

lemma interpolate_range:
  assumes "sorted xs" and "xs \<noteq> []" and "0 \<le> r" and "r \<le> real (length xs - 1)"
  shows "xs ! 0 \<le> interpolate xs r" and "interpolate xs r \<le> xs ! (length xs - 1)"
proof -
  have k: "nat \<lfloor>r\<rfloor> \<le> length xs - 1" using floor_rank(1) [OF assms(3,4)] .
  have n: "length xs - 1 < length xs" using assms(2) by (cases xs) auto
  have "xs ! 0 \<le> xs ! nat \<lfloor>r\<rfloor>" using k n by (intro sorted_nth_mono assms(1)) auto
  moreover have "xs ! min (nat \<lfloor>r\<rfloor> + 1) (length xs - 1) \<le> xs ! (length xs - 1)"
    using n by (intro sorted_nth_mono assms(1)) auto
  ultimately show "xs ! 0 \<le> interpolate xs r" "interpolate xs r \<le> xs ! (length xs - 1)"
    using interpolate_between [OF assms] by simp_all
qed

lemma rank_mono: "xs \<noteq> [] \<Longrightarrow> p \<le> q \<Longrightarrow> rank_of xs p \<le> rank_of xs q"
  unfolding rank_of_def by (intro mult_right_mono divide_right_mono) (auto simp: Suc_le_eq)

section \<open>Metrics\<close>

lemma squares_exact [simp]:
  "squares_about exact (Fin c) (map Fin xs) = Fin (\<Sum>x\<leftarrow>xs. (x - c) ^ 2)"
proof -
  have "map (\<lambda>x. powi_f64 exact (x - Fin c) 2) (map Fin xs) = map Fin (map (\<lambda>x. (x - c) ^ 2) xs)" by simp
  then show ?thesis unfolding squares_about_def by (simp only: sum_exact)
qed

lemma fps_exact: "0 < t \<Longrightarrow> fps_of exact (Fin t) = Fin (1000 / t)"
  by (simp add: fps_of_def)

lemma sum_squares_nonneg: "0 \<le> (\<Sum>x\<leftarrow>xs. (x - c :: real) ^ 2)"
  by (induction xs) auto

text \<open>The metrics of finite positive frame times, in exact arithmetic.\<close>

definition exact_metrics ::
  "TelemetryProvenance \<Rightarrow> xreal EnvironmentalTelemetry option \<Rightarrow> real list \<Rightarrow> xreal BenchmarkMetrics" where
  "exact_metrics prov e ts =
     (let n = length ts; xs = sort ts; mean = sum_list ts / n;
          pct = (\<lambda>p. interpolate xs (rank_of xs p))
      in \<lparr>metrics_provenance = prov, metrics_environment = e, total_frames = n,
          duration_seconds = Fin (sum_list ts / 1000), avg_fps = Fin (1000 / mean),
          one_percent_low_fps = Fin (1000 / pct 99), zero_point_one_percent_low_fps = Fin (1000 / pct 99.9),
          min_fps = Fin (1000 / xs ! (n - 1)), max_fps = Fin (1000 / xs ! 0),
          frame_time_mean_ms = Fin mean,
          frame_time_std_dev_ms = Fin (if n > 1 then sqrt ((\<Sum>t\<leftarrow>ts. (t - mean) ^ 2) / (real n - 1)) else 0),
          p50_frame_time_ms = Fin (pct 50), p90_frame_time_ms = Fin (pct 90),
          p95_frame_time_ms = Fin (pct 95), p99_frame_time_ms = Fin (pct 99),
          p99_9_frame_time_ms = Fin (pct 99.9),
          stutter_count_1_5x = length (filter (\<lambda>t. mean * 1.5 \<le> t) xs),
          stutter_count_2_0x = length (filter (\<lambda>t. mean * 2 \<le> t) xs)\<rparr>)"

lemma sum_list_pos: "xs \<noteq> [] \<Longrightarrow> list_all (\<lambda>x. 0 < x) xs \<Longrightarrow> 0 < (sum_list xs :: real)"
proof (induction xs)
  case (Cons x xs)
  then show ?case by (cases "xs = []") (auto intro: add_pos_pos)
qed simp

lemma sort_nth_pos:
  assumes "list_all (\<lambda>x. 0 < x) ts" and "k < length ts"
  shows "0 < (sort ts ! k :: real)"
proof -
  have "sort ts ! k \<in> set ts" using nth_mem [of k "sort ts"] assms(2) by simp
  then show ?thesis using assms(1) by (simp add: list_all_iff)
qed

lemma percentile_pos:
  assumes "list_all (\<lambda>x. 0 < x) ts" and "ts \<noteq> []"
  shows "0 < interpolate (sort ts) (rank_of (sort ts) p)"
proof -
  have "sort ts \<noteq> []" using assms(2) by (metis length_0_conv length_sort)
  then have "sort ts ! 0 \<le> interpolate (sort ts) (rank_of (sort ts) p)"
    using rank_bounds [of "sort ts" p] by (intro interpolate_range) auto
  moreover have "0 < sort ts ! 0" using sort_nth_pos [OF assms(1)] assms(2) by simp
  ultimately show ?thesis by linarith
qed

lemma compute_metrics_exact:
  assumes times: "map frame_time_ms (drop w ss) = map Fin ts" and w: "w < length ss"
    and small: "length ts < 2 ^ 64" and pos: "list_all (\<lambda>t. 0 < t) ts"
  shows "compute_metrics_with_provenance exact ss w prov e = Some (Ok (exact_metrics prov e ts))"
proof -
  have n: "length (drop w ss) = length ts" using times by (metis length_map)
  have ts: "ts \<noteq> []" using times w by auto
  then have s: "sort ts \<noteq> []" by (metis length_0_conv length_sort)
  have S: "0 < sum_list ts" using sum_list_pos [OF ts pos] .
  have ends: "checked_index (map Fin (sort ts)) 0 = Some (Fin (sort ts ! 0))"
    "checked_index (map Fin (sort ts)) (length ts - 1) = Some (Fin (sort ts ! (length ts - 1)))"
    using ts by (simp_all add: checked_index_def)
  have pct: "calculate_percentile exact (map Fin (sort ts)) (Fin p) =
      Some (Fin (interpolate (sort ts) (rank_of (sort ts) p)))" for p
    using percentile_exact [OF s] small by simp
  note fps = fps_exact [OF percentile_pos [OF pos ts]]
  have mm: "fps_of exact (Fin (sort ts ! 0)) = Fin (1000 / sort ts ! 0)"
    "fps_of exact (Fin (sort ts ! (length ts - 1))) = Fin (1000 / sort ts ! (length ts - 1))"
    using ts by (simp_all add: fps_exact sort_nth_pos [OF pos])
  have filt: "(\<le>) (Fin c) \<circ> Fin = (\<le>) c" for c by (simp add: fun_eq_iff)
  have var: "0 \<le> (\<Sum>t\<leftarrow>ts. (t - c) ^ 2) / (real (length ts) - 1)" if "1 < length ts" for c
    using that sum_squares_nonneg [of c ts] by simp
  have "\<not> length ss \<le> w" using w by simp
  then show ?thesis unfolding compute_metrics_with_provenance_def exact_metrics_def Let_def times n
    using ts S by (simp add: ends pct fps mm var filt filter_map of_nat_diff del: One_nat_def)
qed

lemma sum_list_bounds:
  assumes "\<forall>t \<in> set ts. lo \<le> t \<and> t \<le> (hi :: real)"
  shows "real (length ts) * lo \<le> sum_list ts" "sum_list ts \<le> real (length ts) * hi"
  using assms by (induction ts) (auto simp: algebra_simps)

lemma sort_bounds:
  assumes "t \<in> set ts"
  shows "sort ts ! 0 \<le> t \<and> t \<le> (sort ts ! (length ts - 1) :: real)"
proof -
  have "t \<in> set (sort ts)" using assms by simp
  then obtain k where k: "k < length ts" "t = sort ts ! k" by (metis in_set_conv_nth length_sort)
  then show ?thesis using sorted_nth_mono [of "sort ts" 0 k] sorted_nth_mono [of "sort ts" k "length ts - 1"]
    by auto
qed

lemma mean_bounds:
  assumes "ts \<noteq> []"
  shows "sort ts ! 0 \<le> sum_list ts / real (length ts)"
    and "sum_list ts / real (length ts) \<le> (sort ts ! (length ts - 1) :: real)"
proof -
  have "real (length ts) * sort ts ! 0 \<le> sum_list ts" "sum_list ts \<le> real (length ts) * sort ts ! (length ts - 1)"
    using sum_list_bounds sort_bounds by blast+
  then show "sort ts ! 0 \<le> sum_list ts / real (length ts)" "sum_list ts / real (length ts) \<le> sort ts ! (length ts - 1)"
    using assms by (simp_all add: field_simps)
qed

lemma filter_length_mono: "(\<And>x. P x \<Longrightarrow> Q x) \<Longrightarrow> length (filter P xs) \<le> length (filter Q xs)"
  by (induction xs) (auto intro: le_SucI)

lemma exact_metrics_ordered:
  assumes "ts \<noteq> []" and pos: "list_all (\<lambda>t. 0 < t) ts" and M_def: "M = exact_metrics prov e ts"
  shows "min_fps M \<le> zero_point_one_percent_low_fps M"
    and "zero_point_one_percent_low_fps M \<le> one_percent_low_fps M"
    and "one_percent_low_fps M \<le> max_fps M" and "min_fps M \<le> avg_fps M" and "avg_fps M \<le> max_fps M"
    and "stutter_count_2_0x M \<le> stutter_count_1_5x M"
proof -
  let ?s = "sort ts" and ?p = "\<lambda>p. interpolate (sort ts) (rank_of (sort ts) p)"
  have s: "?s \<noteq> []" using assms(1) by (metis length_0_conv length_sort)
  have in_range: "?s ! 0 \<le> ?p q" "?p q \<le> ?s ! (length ts - 1)" for q
    using interpolate_range [of ?s, OF _ s rank_bounds [OF s]] by simp_all
  have mono: "?p 99 \<le> ?p 99.9"
    using rank_bounds [OF s] by (intro interpolate_mono rank_mono s) simp_all
  have first: "0 < ?s ! 0" using sort_nth_pos [OF pos] assms(1) by simp
  have inv: "1000 / b \<le> 1000 / a" if "?s ! 0 \<le> a" "a \<le> b" for a b
    using that first by (intro divide_left_mono) (auto intro!: mult_pos_pos)
  have mean: "0 < sum_list ts / real (length ts)" using sum_list_pos [OF assms(1) pos] assms(1) by simp
  note m = mean_bounds [OF assms(1)]
  show "min_fps M \<le> zero_point_one_percent_low_fps M" "zero_point_one_percent_low_fps M \<le> one_percent_low_fps M"
    "one_percent_low_fps M \<le> max_fps M" "min_fps M \<le> avg_fps M" "avg_fps M \<le> max_fps M"
    using inv [OF in_range] inv [OF in_range(1) mono] inv [OF order_refl in_range(1)] inv [OF m] inv [OF order_refl m(1)]
    by (simp_all add: M_def exact_metrics_def Let_def del: times_divide_eq_right divide_divide_eq_right)
  show "stutter_count_2_0x M \<le> stutter_count_1_5x M"
    unfolding M_def exact_metrics_def Let_def using mean by (auto intro!: filter_length_mono)
qed

section \<open>The p-value of a moderate t statistic\<close>

text \<open>
  Lentz's method evaluates a continued fraction coefficient by coefficient, in the order of the
  fraction. The loop of \<^verbatim>\<open>regularized_incomplete_beta\<close> takes the coefficients of each round in the
  opposite order, so that its result is not the value of the fraction. For ten trials and
  \<open>t = 9/4\<close> the fraction comes out negative: the first rounds are computed exactly, and from the
  seventh on every factor is positive.
\<close>

definition off_zero :: "real \<Rightarrow> real" where
  "off_zero d = (if \<bar>d\<bar> < BETA_EPS then BETA_EPS else d)"

definition even_coefficient :: "real \<Rightarrow> real \<Rightarrow> real \<Rightarrow> nat \<Rightarrow> real" where
  "even_coefficient a b x m = - (a + m) * (a + b + m) * x / ((a + 2 * m) * (a + 2 * m + 1))"

definition odd_coefficient :: "real \<Rightarrow> real \<Rightarrow> real \<Rightarrow> nat \<Rightarrow> real" where
  "odd_coefficient a b x m = m * (b - m) * x / ((a + 2 * m - 1) * (a + 2 * m))"

lemma off_zero_nonzero [simp]: "off_zero d \<noteq> 0"
  by (auto simp: off_zero_def BETA_EPS_def)

lemma off_zero_large: "BETA_EPS \<le> d \<Longrightarrow> off_zero d = d"
  by (auto simp: off_zero_def)

lemma away_exact [simp]: "away_from_zero exact (Fin d) = Fin (off_zero d)"
  by (simp add: away_from_zero_def off_zero_def)

lemma lentz_step_exact:
  "c \<noteq> 0 \<Longrightarrow> lentz_step exact (Fin k) (Fin c, Fin d) = (Fin (off_zero (1 + k / c)), Fin (1 / off_zero (1 + k * d)))"
  by (simp add: lentz_step_def)

lemma coefficients_exact:
  assumes "0 < a" and "0 < m"
  shows "num_even exact (Fin a) (Fin b) (Fin x) (Fin (real m)) = Fin (even_coefficient a b x m)"
    and "num_odd exact (Fin a) (Fin b) (Fin x) (Fin (real m)) = Fin (odd_coefficient a b x m)"
proof -
  have "1 \<le> real m" using assms(2) by simp
  then have "a + 2 * real m \<noteq> 0" "a + 2 * real m + 1 \<noteq> 0" "a + 2 * real m - 1 \<noteq> 0" using assms(1) by linarith+
  then show "num_even exact (Fin a) (Fin b) (Fin x) (Fin (real m)) = Fin (even_coefficient a b x m)"
    "num_odd exact (Fin a) (Fin b) (Fin x) (Fin (real m)) = Fin (odd_coefficient a b x m)"
    by (simp_all add: num_even_def num_odd_def even_coefficient_def odd_coefficient_def)
qed

lemma lentz_round:
  assumes "0 < a" and "0 < m" and "c \<noteq> 0"
  shows "lentz_loop exact (Fin a) (Fin b) (Fin x) (Suc left) m (Fin c, Fin d) (Fin h) =
    (let c1 = off_zero (1 + even_coefficient a b x m / c); d1 = 1 / off_zero (1 + even_coefficient a b x m * d);
         c2 = off_zero (1 + odd_coefficient a b x m / c1); d2 = 1 / off_zero (1 + odd_coefficient a b x m * d1);
         h = h * (d1 * c1) * (d2 * c2)
     in if \<bar>d2 * c2 - 1\<bar> < BETA_EPS then Fin h
        else lentz_loop exact (Fin a) (Fin b) (Fin x) left (m + 1) (Fin c2, Fin d2) (Fin h))"
  using assms(3) coefficients_exact [OF assms(1,2)] by (simp add: lentz_step_exact Let_def)

definition t_loop :: "nat \<Rightarrow> nat \<Rightarrow> real \<Rightarrow> real \<Rightarrow> real \<Rightarrow> xreal" where
  "t_loop left m c d h = lentz_loop exact (Fin (9 / 2)) (Fin (1 / 2)) (Fin (16 / 25)) left m (Fin c, Fin d) (Fin h)"

lemmas t_loop_step = lentz_round [of "9 / 2" _ _ "1 / 2" "16 / 25", folded t_loop_def]

lemma lentz_round_1:
  "t_loop (Suc left) 1 1 (55 / 23) (55 / 23) =
   t_loop left 2 (9971 / 10131) (2959 / 3695) (- (109681 / 3695))"
  by (simp add: t_loop_step even_coefficient_def odd_coefficient_def off_zero_def BETA_EPS_def numeral_2_eq_2)

lemma lentz_round_2:
  "t_loop (Suc left) 2 (9971 / 10131) (2959 / 3695) (- (109681 / 3695)) =
   t_loop left 3 (18688233 / 19620905) (21220517 / 20321893) (- (2672417319 / 101609465))"
  by (simp add: t_loop_step even_coefficient_def odd_coefficient_def off_zero_def BETA_EPS_def)

lemma lentz_round_3:
  "t_loop (Suc left) 3 (18688233 / 19620905) (21220517 / 20321893) (- (2672417319 / 101609465)) =
   t_loop left 4 (176645902327 / 190400441815) (207606758747 / 192649845499) (- (25260364032761 / 963249227495))"
  by (simp add: t_loop_step even_coefficient_def odd_coefficient_def off_zero_def BETA_EPS_def)

lemma lentz_round_4:
  "t_loop (Suc left) 4 (176645902327 / 190400441815) (207606758747 / 192649845499) (- (25260364032761 / 963249227495)) =
   t_loop left 5 (40006218692501 / 43996337898005) (815778403100273 / 741800862428657) (- (97255117641469931 / 3709004312143285))"
  by (simp add: t_loop_step even_coefficient_def odd_coefficient_def off_zero_def BETA_EPS_def)

lemma lentz_round_5:
  "t_loop (Suc left) 5 (40006218692501 / 43996337898005) (815778403100273 / 741800862428657) (- (97255117641469931 / 3709004312143285)) =
   t_loop left 6 (339299049473492753 / 378985218416453745) (7027225015340643741 / 6291358559811415997) (- (824835989270060882543 / 31456792799057079985))"
  by (simp add: t_loop_step even_coefficient_def odd_coefficient_def off_zero_def BETA_EPS_def)

lemma lentz_round_6:
  "t_loop (Suc left) 6 (339299049473492753 / 378985218416453745) (7027225015340643741 / 6291358559811415997) (- (824835989270060882543 / 31456792799057079985)) =
   t_loop left 7 (166050956841828924375 / 187766096008132460567) (17408007204051318397303 / 15394772464911665278263) (- (44852208453609568350625 / 1710530273879073919807))"
  by (simp add: t_loop_step even_coefficient_def odd_coefficient_def off_zero_def BETA_EPS_def)

lemma small_ratio:
  "0 < D \<Longrightarrow> 0 \<le> N \<Longrightarrow> 4 * N \<le> D \<Longrightarrow> - (1 / 4) \<le> - N / (D :: real)" "0 < D \<Longrightarrow> 0 \<le> N \<Longrightarrow> - N / (D :: real) \<le> 0"
  by (simp_all add: field_simps)

lemma late_coefficients:
  assumes "7 \<le> m"
  shows "- (1 / 4) \<le> even_coefficient (9 / 2) (1 / 2) (16 / 25) m" "even_coefficient (9 / 2) (1 / 2) (16 / 25) m \<le> 0"
    and "- (1 / 4) \<le> odd_coefficient (9 / 2) (1 / 2) (16 / 25) m" "odd_coefficient (9 / 2) (1 / 2) (16 / 25) m \<le> 0"
proof -
  define r where "r = real m"
  have r: "7 \<le> r" using assms by (simp add: r_def)
  have sq: "7 * r \<le> r * r" using r by (intro mult_right_mono) auto
  have e: "even_coefficient (9 / 2) (1 / 2) (16 / 25) m =
      - ((9 / 2 + r) * (5 + r) * (16 / 25)) / ((9 / 2 + 2 * r) * (11 / 2 + 2 * r))"
    by (simp add: even_coefficient_def r_def del: minus_add_distrib)
  have "r * (1 / 2 - r) * (16 / 25) = - (r * (r - 1 / 2) * (16 / 25))" by algebra
  moreover have "9 / 2 + 2 * r - 1 = 7 / 2 + 2 * r" by simp
  ultimately have o: "odd_coefficient (9 / 2) (1 / 2) (16 / 25) m =
      - (r * (r - 1 / 2) * (16 / 25)) / ((7 / 2 + 2 * r) * (9 / 2 + 2 * r))"
    by (simp only: odd_coefficient_def r_def [symmetric])
  have x: "4 * ((9 / 2 + r) * (5 + r) * (16 / 25)) = 64 / 25 * (r * r) + 608 / 25 * r + 288 / 5"
    "(9 / 2 + 2 * r) * (11 / 2 + 2 * r) = 4 * (r * r) + 20 * r + 99 / 4"
    "4 * (r * (r - 1 / 2) * (16 / 25)) = 64 / 25 * (r * r) - 32 / 25 * r"
    "(7 / 2 + 2 * r) * (9 / 2 + 2 * r) = 4 * (r * r) + 16 * r + 63 / 4" by algebra+
  have "0 < (9 / 2 + 2 * r) * (11 / 2 + 2 * r)" "0 \<le> (9 / 2 + r) * (5 + r) * (16 / 25)"
    "0 < (7 / 2 + 2 * r) * (9 / 2 + 2 * r)" "0 \<le> r * (r - 1 / 2) * (16 / 25)" using r by simp_all
  moreover have "4 * ((9 / 2 + r) * (5 + r) * (16 / 25)) \<le> (9 / 2 + 2 * r) * (11 / 2 + 2 * r)"
    "4 * (r * (r - 1 / 2) * (16 / 25)) \<le> (7 / 2 + 2 * r) * (9 / 2 + 2 * r)"
    unfolding x using r sq by linarith+
  ultimately show "- (1 / 4) \<le> even_coefficient (9 / 2) (1 / 2) (16 / 25) m" "even_coefficient (9 / 2) (1 / 2) (16 / 25) m \<le> 0"
    "- (1 / 4) \<le> odd_coefficient (9 / 2) (1 / 2) (16 / 25) m" "odd_coefficient (9 / 2) (1 / 2) (16 / 25) m \<le> 0"
    unfolding e o by (auto intro: small_ratio)
qed

lemma late_step:
  assumes "- (1 / 4) \<le> k" "k \<le> 0" "1 / 2 \<le> c" "0 < d" "d \<le> 2"
  shows "1 / 2 \<le> off_zero (1 + k / c)" "0 < 1 / off_zero (1 + k * d)" "1 / off_zero (1 + k * d) \<le> 2"
proof -
  have "- (1 / 2) \<le> k / c" using assms by (simp add: field_simps)
  then have c: "1 / 2 \<le> 1 + k / c" by linarith
  have "(- k) * d \<le> (1 / 4) * 2" using assms by (intro mult_mono) auto
  then have d: "1 / 2 \<le> 1 + k * d" by linarith
  have e: "BETA_EPS \<le> 1 / 2" by (simp add: BETA_EPS_def)
  show "1 / 2 \<le> off_zero (1 + k / c)" "0 < 1 / off_zero (1 + k * d)" "1 / off_zero (1 + k * d) \<le> 2"
    using c d off_zero_large [OF order.trans [OF e c]] off_zero_large [OF order.trans [OF e d]]
    by (simp_all add: divide_le_eq)
qed

lemma t_loop_negative:
  "7 \<le> m \<Longrightarrow> 1 / 2 \<le> c \<Longrightarrow> 0 < d \<Longrightarrow> d \<le> 2 \<Longrightarrow> h < 0 \<Longrightarrow> \<exists>r < 0. t_loop left m c d h = Fin r"
proof (induction left arbitrary: m c d h)
  case 0
  then show ?case by (auto simp: t_loop_def)
next
  case (Suc left)
  let ?e = "even_coefficient (9 / 2) (1 / 2) (16 / 25) m" and ?o = "odd_coefficient (9 / 2) (1 / 2) (16 / 25) m"
  define c1 d1 where "c1 = off_zero (1 + ?e / c)" and "d1 = 1 / off_zero (1 + ?e * d)"
  define c2 d2 where "c2 = off_zero (1 + ?o / c1)" and "d2 = 1 / off_zero (1 + ?o * d1)"
  note k = late_coefficients [OF Suc.prems(1)]
  have 1: "1 / 2 \<le> c1" "0 < d1" "d1 \<le> 2" unfolding c1_def d1_def using late_step [OF k(1,2) Suc.prems(2-4)] by auto
  have 2: "1 / 2 \<le> c2" "0 < d2" "d2 \<le> 2" unfolding c2_def d2_def using late_step [OF k(3,4) 1] by auto
  have "h * (d1 * c1) * (d2 * c2) < 0" using 1 2 Suc.prems(5) by (intro mult_neg_pos mult_pos_pos) auto
  moreover have "t_loop (Suc left) m c d h =
      (if \<bar>d2 * c2 - 1\<bar> < BETA_EPS then Fin (h * (d1 * c1) * (d2 * c2))
       else t_loop left (m + 1) c2 d2 (h * (d1 * c1) * (d2 * c2)))"
    unfolding t_loop_def using lentz_round [of "9 / 2" m c] Suc.prems(1,2)
    by (simp add: c1_def d1_def c2_def d2_def Let_def)
  ultimately show ?case using Suc.IH [OF _ 2] Suc.prems(1) by simp
qed

lemma t_fraction_negative: "\<exists>r < 0. beta_fraction exact (Fin (9 / 2)) (Fin (1 / 2)) (Fin (16 / 25)) = Fin r"
proof -
  have "beta_fraction exact (Fin (9 / 2)) (Fin (1 / 2)) (Fin (16 / 25)) = t_loop 200 1 1 (55 / 23) (55 / 23)"
    by (simp add: beta_fraction_def t_loop_def off_zero_def BETA_EPS_def Let_def)
  also have "(200 :: nat) = Suc (Suc (Suc (Suc (Suc (Suc 194)))))" by simp
  finally show ?thesis
    unfolding lentz_round_1 lentz_round_2 lentz_round_3 lentz_round_4 lentz_round_5 lentz_round_6
    by (simp add: t_loop_negative)
qed

lemma front_positive:
  assumes "0 < a" "0 < x" "x < 1" and "\<exists>g. ln_gamma exact (Fin (a + b)) - ln_gamma exact (Fin a) - ln_gamma exact (Fin b) = Fin g"
  shows "\<exists>r > 0. beta_front exact (Fin a) (Fin b) (Fin x) = Fin r"
proof -
  obtain g where "ln_gamma exact (Fin (a + b)) - ln_gamma exact (Fin a) - ln_gamma exact (Fin b) = Fin g"
    using assms(4) by blast
  then show ?thesis using assms(1-3) by (simp add: beta_front_def)
qed

definition lanczos_sum :: "real \<Rightarrow> real" where
  "lanczos_sum z = LANCZOS ! 0 + (\<Sum>i\<leftarrow>[1..<9]. LANCZOS ! i / (z + real i - 1))"

lemma ln_gamma_finite:
  assumes "0 < z" and "0 < lanczos_sum z"
  shows "\<exists>g. ln_gamma exact (Fin z) = Fin g"
proof -
  have step: "foldl (\<lambda>x i. x + lit exact (LANCZOS ! i) / (Fin z + nat_f64 exact i - lit exact 1)) (Fin s) js
      = Fin (s + (\<Sum>i\<leftarrow>js. LANCZOS ! i / (z + real i - 1)))" if "list_all (\<lambda>i. 0 < i) js" for s js
    using that
  proof (induction js arbitrary: s)
    case (Cons i js)
    then have "1 \<le> real i" by simp
    then have "z + real i - 1 \<noteq> 0" using assms(1) by linarith
    then show ?case using Cons by (simp add: add.assoc)
  qed simp
  have "list_all (\<lambda>i. 0 < i) [1..<9]" by (simp add: list_all_iff)
  then show ?thesis using assms(1) assms(2) [unfolded lanczos_sum_def] step [of "[1..<9]" "LANCZOS ! 0"]
    by (simp add: ln_gamma_def Let_def)
qed

lemma lanczos_positive: "0 < lanczos_sum (1 / 2)" "0 < lanczos_sum (9 / 2)" "0 < lanczos_sum 5"
  by (simp_all add: lanczos_sum_def LANCZOS_def upt_rec)

lemma t_p_value_negative: "\<exists>r < 0. compute_t_distribution_two_tailed_p exact (Fin (9 / 4)) (Fin 9) = Some (Fin r)"
proof -
  have front: "\<exists>r > 0. beta_front exact (Fin (9 / 2)) (Fin (1 / 2)) (Fin (16 / 25)) = Fin r"
  proof (rule front_positive)
    obtain g1 g2 g3 where "ln_gamma exact (Fin 5) = Fin g1" "ln_gamma exact (Fin (9 / 2)) = Fin g2"
      "ln_gamma exact (Fin (1 / 2)) = Fin g3"
      using ln_gamma_finite lanczos_positive by (metis zero_less_numeral half_gt_zero zero_less_one divide_pos_pos)
    then show "\<exists>g. ln_gamma exact (Fin (9 / 2 + 1 / 2)) - ln_gamma exact (Fin (9 / 2)) - ln_gamma exact (Fin (1 / 2)) = Fin g"
      by simp
  qed simp_all
  obtain f h where "f > 0" "beta_front exact (Fin (9 / 2)) (Fin (1 / 2)) (Fin (16 / 25)) = Fin f"
    "h < 0" "beta_fraction exact (Fin (9 / 2)) (Fin (1 / 2)) (Fin (16 / 25)) = Fin h"
    using front t_fraction_negative by blast
  then have "regularized_incomplete_beta exact (Fin (9 / 2)) (Fin (1 / 2)) (Fin (16 / 25)) = Some (Fin (f * h))"
    by (simp add: regularized_incomplete_beta.simps [of exact "Fin (9 / 2)"])
  then show ?thesis using \<open>f > 0\<close> \<open>h < 0\<close>
    by (simp add: compute_t_distribution_two_tailed_p_def power2_eq_square mult_pos_neg)
qed

section \<open>Ranks\<close>

lemma fill_range:
  "i \<le> j \<Longrightarrow> j \<le> length xs \<Longrightarrow> foldl (\<lambda>rs k. rs[k := v]) xs [i..<j] = take i xs @ replicate (j - i) v @ drop j xs"
proof (induction j)
  case (Suc j)
  show ?case
  proof (cases "i = Suc j")
    case False
    then have "i \<le> j" using Suc.prems by simp
    moreover have "drop j xs = xs ! j # drop (Suc j) xs" using Suc.prems by (simp add: Cons_nth_drop_Suc)
    ultimately show ?thesis using Suc
      by (simp add: list_update_append Suc_diff_le replicate_append_same)
  qed simp
qed simp

lemma tie_end_bounds:
  shows "i \<le> tie_end F c i" and "i \<le> length c \<Longrightarrow> tie_end F c i \<le> length c"
proof -
  let ?P = "\<lambda>(v, _). \<bar>v - fst (c ! i)\<bar> < lit F (1 / 10 ^ 12)"
  show "i \<le> tie_end F c i" by (simp add: tie_end_def)
  show "tie_end F c i \<le> length c" if "i \<le> length c"
    using that length_takeWhile_le [of ?P "drop i c"] unfolding tie_end_def length_drop by linarith
qed

lemma powi3_exact [simp]: "powi_f64 exact (Fin a) 3 = Fin (a ^ 3)"
  by (simp add: exact_def numeral_3_eq_3)

lemma tie_end_stops:
  assumes "i \<le> k" and "k < length c" and "\<not> \<bar>fst (c ! k) - fst (c ! i)\<bar> < lit F (1 / 10 ^ 12)"
  shows "tie_end F c i \<le> k"
proof -
  let ?P = "\<lambda>(v, _). \<bar>v - fst (c ! i)\<bar> < lit F (1 / 10 ^ 12)"
  have "drop i c ! (k - i) = c ! k" using assms(1,2) by simp
  then have "\<not> ?P (drop i c ! (k - i))" using assms(3) by (cases "c ! k") simp
  then have "length (takeWhile ?P (drop i c)) \<le> k - i"
    by (metis (no_types, lifting) not_le nth_mem set_takeWhileD takeWhile_nth)
  then show ?thesis using assms(1) unfolding tie_end_def by simp
qed

lemma tie_end_grows:
  assumes "i < length c" and "fst (c ! i) = Fin v"
  shows "i < tie_end exact c i"
proof -
  have "drop i c = c ! i # drop (Suc i) c" using assms(1) by (simp add: Cons_nth_drop_Suc)
  then show ?thesis using assms(2) by (cases "c ! i") (simp add: tie_end_def)
qed

lemma rank_loop_finite:
  assumes "\<forall>x \<in> set c. \<exists>v. fst x = Fin v" and "i \<le> length c" and "length qs = length c"
    and "sum_list (take i qs) = real i * (real i + 1) / 2"
  shows "\<exists>ps t. rank_loop exact c i (map Fin qs) (Fin s) = Some (map Fin ps, Fin t) \<and> length ps = length c \<and>
    sum_list ps = real (length c) * (real (length c) + 1) / 2"
  using assms(2-)
proof (induction "length c - i" arbitrary: i qs s rule: less_induct)
  case less
  show ?case
  proof (cases "i < length c")
    case True
    let ?j = "tie_end exact c i"
    define avg where "avg = real (i + 1 + ?j) / 2"
    define qs' where "qs' = take i qs @ replicate (?j - i) avg @ drop ?j qs"
    obtain v where "fst (c ! i) = Fin v" using assms(1) True nth_mem by blast
    then have j: "i < ?j" "?j \<le> length c" using tie_end_grows [of i c v] True tie_end_bounds(2) [of i c] by simp_all
    have len: "length qs' = length c" using j less.prems by (simp add: qs'_def)
    have "take ?j qs' = take i qs @ replicate (?j - i) avg" using j less.prems by (simp add: qs'_def)
    then have sum: "sum_list (take ?j qs') = real ?j * (real ?j + 1) / 2"
      using less.prems(3) j by (simp add: sum_list_replicate avg_def of_nat_diff field_simps)
    have fill: "foldl (\<lambda>rs k. rs[k := Fin avg]) (map Fin qs) [i..<?j] = map Fin qs'"
      using j less.prems by (simp add: fill_range qs'_def take_map drop_map map_replicate)
    define n where "n = real (length c)"
    have n: "n \<noteq> 0 \<and> n - 1 \<noteq> 0" if "1 < real (?j - i)" using that j by (auto simp: n_def)
    obtain s' where "rank_loop exact c i (map Fin qs) (Fin s) = rank_loop exact c ?j (map Fin qs') (Fin s')"
    proof
      show "rank_loop exact c i (map Fin qs) (Fin s) = rank_loop exact c ?j (map Fin qs')
          (Fin (if 1 < real (?j - i) then s + ((real (?j - i)) ^ 3 - real (?j - i)) / (n * (n - 1)) else s))"
        using True n fill unfolding avg_def n_def by (subst rank_loop.simps) (simp add: Let_def)
    qed
    then show ?thesis using less.hyps [OF _ j(2) len sum] True j(1) by (simp add: diff_less_mono2)
  next
    case False
    then show ?thesis using less.prems rank_loop.simps [of exact c i]
      by (intro exI [of _ qs] exI [of _ s]) simp
  qed
qed

definition finite_f64 :: "xreal \<Rightarrow> bool" where
  "finite_f64 x \<longleftrightarrow> (\<exists>v. x = Fin v)"

lemma not_near_itself: "\<not> finite_f64 (x :: xreal) \<Longrightarrow> \<not> \<bar>x - y\<bar> < Fin e"
  by (cases x; cases y) (auto simp: finite_f64_def minus_xreal_def)

lemma rank_loop_stays:
  assumes "rank_loop exact c i rs t = Some y"
  shows "tie_end exact c i = i \<longrightarrow> \<not> i < length c"
proof -
  have "F = exact \<longrightarrow> tie_end exact c i = i \<longrightarrow> \<not> i < length c" if "rank_loop F c i rs t = Some y" for F c i rs t y
    using that
  proof (rule rank_loop.raw_induct [rotated])
    fix loop :: "xreal f64_lib \<Rightarrow> (xreal \<times> u8) list \<Rightarrow> nat \<Rightarrow> xreal list \<Rightarrow> xreal \<Rightarrow> (xreal list \<times> xreal) option"
    fix F c i rs t y
    assume IH: "\<And>F c i rs t y. loop F c i rs t = Some y \<Longrightarrow> F = exact \<longrightarrow> tie_end exact c i = i \<longrightarrow> \<not> i < length c"
    assume "(if i < length c then
        let n = nat_f64 F (length c); j = tie_end F c i; tie_count = nat_f64 F (j - i);
            avg_rank = nat_f64 F (i + 1 + j) / lit F 2; rs = foldl (\<lambda>rs k. rs[k := avg_rank]) rs [i..<j];
            t = (if lit F 1 < tie_count then t + (powi_f64 F tie_count 3 - tie_count) / (n * (n - lit F 1)) else t)
        in loop F c j rs t
      else Some (rs, t)) = Some y"
    then show "F = exact \<longrightarrow> tie_end exact c i = i \<longrightarrow> \<not> i < length c"
      using IH [of exact c i rs t y] by (auto simp: Let_def)
  qed
  then show ?thesis using assms by blast
qed

lemma rank_loop_diverges:
  assumes "k < length c" and "\<not> finite_f64 (fst (c ! k))"
  shows "i \<le> k \<Longrightarrow> rank_loop exact c i rs t = None"
proof (induction "k - i" arbitrary: i rs t rule: less_induct)
  case less
  have stop: "tie_end exact c i \<le> k"
    using tie_end_stops [OF less.prems assms(1)] not_near_itself [OF assms(2)] by simp
  show ?case
  proof (cases "tie_end exact c i = i")
    case True
    then show ?thesis using rank_loop_stays [of c i rs t] less.prems assms(1) by (cases "rank_loop exact c i rs t") auto
  next
    case False
    then have "i < tie_end exact c i" using tie_end_bounds(1) [of i exact c] by simp
    then show ?thesis using less.hyps [OF _ stop] stop less.prems assms(1)
      by (subst rank_loop.simps) (simp add: Let_def)
  qed
qed

lemma finite_combined:
  fixes f :: "xreal \<times> u8 \<Rightarrow> xreal \<times> u8 \<Rightarrow> bool"
  defines "combined a b \<equiv> sort_by f (map (\<lambda>x. (x, 0)) a @ map (\<lambda>x. (x, 1)) b)"
  shows "length (combined a b) = length a + length b" and "fst ` set (combined a b) = set a \<union> set b"
  by (auto simp: combined_def image_Un image_image)

lemma mann_whitney_after_ranks:
  assumes "2 \<le> length a" "2 \<le> length b"
    and "rank_loop F (sort_by (\<lambda>(v1, _) (v2, _). v1 < v2) (map (\<lambda>x. (x, 0)) a @ map (\<lambda>x. (x, 1)) b)) 0
           (replicate (length a + length b) (lit F 0)) (lit F 0) = r"
  shows "mann_whitney_u_test F a b = None \<longleftrightarrow> r = None"
  using assms by (cases r) (auto simp: mann_whitney_u_test_def Let_def)

lemma mann_whitney_returns_iff:
  "(\<exists>r. mann_whitney_u_test exact a b = Some r) \<longleftrightarrow>
     length a < 2 \<or> length b < 2 \<or> (\<forall>x \<in> set a \<union> set b. finite_f64 x)"
proof (cases "length a < 2 \<or> length b < 2")
  case False
  let ?c = "sort_by (\<lambda>(v1, _) (v2, _). v1 < v2) (map (\<lambda>x. (x, 0 :: u8)) a @ map (\<lambda>x. (x, 1)) b)"
  let ?r = "rank_loop exact ?c 0 (replicate (length a + length b) (Fin 0)) (Fin 0)"
  note c = finite_combined [of "\<lambda>(v1, _) (v2, _). v1 < v2" a b]
  have "?r = None \<longleftrightarrow> \<not> (\<forall>x \<in> set a \<union> set b. finite_f64 x)"
  proof
    assume "\<not> (\<forall>x \<in> set a \<union> set b. finite_f64 x)"
    then obtain p where p: "p \<in> set ?c" "\<not> finite_f64 (fst p)" unfolding c(2) [symmetric] by blast
    from p(1) obtain k where "k < length ?c" "p = ?c ! k" unfolding in_set_conv_nth by blast
    then show "?r = None" using rank_loop_diverges [of k ?c 0] p(2) by blast
  next
    assume none: "?r = None"
    show "\<not> (\<forall>x \<in> set a \<union> set b. finite_f64 x)"
    proof
      assume "\<forall>x \<in> set a \<union> set b. finite_f64 x"
      then have "\<forall>x \<in> set ?c. \<exists>v. fst x = Fin v"
        unfolding c(2) [symmetric] by (simp add: finite_f64_def)
      then show False using none rank_loop_finite [of ?c 0 "replicate (length a + length b) 0" 0] c(1)
        by (auto simp: map_replicate)
    qed
  qed
  then show ?thesis using False mann_whitney_after_ranks [of a b exact ?r] by auto
qed (auto simp: mann_whitney_u_test_def Let_def)

section \<open>Bootstrap intervals\<close>

definition finite_list :: "xreal list \<Rightarrow> bool" where
  "finite_list xs \<longleftrightarrow> (\<exists>rs. xs = map Fin rs)"

lemma finite_list_simps [simp]: "finite_list []" "finite_list (map Fin rs)"
  "finite_list (xs @ [Fin r]) \<longleftrightarrow> finite_list xs"
proof -
  show "finite_list (xs @ [Fin r]) \<longleftrightarrow> finite_list xs"
  proof
    assume "finite_list xs"
    then obtain rs where "xs = map Fin rs" by (auto simp: finite_list_def)
    then have "xs @ [Fin r] = map Fin (rs @ [r])" by simp
    then show "finite_list (xs @ [Fin r])" unfolding finite_list_def by blast
  qed (auto simp: finite_list_def map_eq_append_conv append_eq_map_conv)
qed (auto simp: finite_list_def)

lemma push_delta_finite: "finite_list deltas \<Longrightarrow> finite_list (push_delta exact (Fin a) (Fin b) deltas)"
  by (simp add: push_delta_def)

lemma push_delta_length: "length (push_delta F a b deltas) \<le> Suc (length deltas)"
  by (simp add: push_delta_def)

lemma draw_pairs_finite:
  assumes "xs \<noteq> []" and "length ys = length xs"
  shows "\<exists>u v rng'. draw_pairs (map Fin xs) (map Fin ys) k rng (Fin s) (Fin t) = ((Fin u, Fin v), rng')"
proof (induction k arbitrary: rng s t)
  case (Suc k)
  have "unat (next_rand rng) mod length xs < length xs" using assms(1) by simp
  then show ?case using Suc assms(2) by (simp add: Let_def)
qed simp

lemma draw_finite:
  assumes "xs \<noteq> []"
  shows "\<exists>u rng'. draw (map Fin xs) k rng (Fin s) = (Fin u, rng')"
proof (induction k arbitrary: rng s)
  case (Suc k)
  have "unat (next_rand rng) mod length xs < length xs" using assms by simp
  then show ?case using Suc by (simp add: Let_def)
qed simp

lemma paired_replicates_finite:
  assumes "xs \<noteq> []" and "length ys = length xs" and "finite_list deltas"
  shows "finite_list (paired_replicates exact (map Fin xs) (map Fin ys) k rng deltas)"
  using assms(3)
proof (induction k arbitrary: rng deltas)
  case (Suc k)
  obtain u v rng' where "draw_pairs (map Fin xs) (map Fin ys) (length xs) rng (Fin 0) (Fin 0) = ((Fin u, Fin v), rng')"
    using draw_pairs_finite [OF assms(1,2)] by blast
  then show ?case using Suc assms(1) by (simp add: Let_def push_delta_finite)
qed simp

lemma independent_replicates_finite:
  assumes "xs \<noteq> []" and "ys \<noteq> []" and "finite_list deltas"
  shows "finite_list (independent_replicates exact (map Fin xs) (map Fin ys) k rng deltas)"
  using assms(3)
proof (induction k arbitrary: rng deltas)
  case (Suc k)
  obtain u r1 where 1: "draw (map Fin xs) (length xs) rng (Fin 0) = (Fin u, r1)" using draw_finite [OF assms(1)] by blast
  obtain v r2 where "draw (map Fin ys) (length ys) r1 (Fin 0) = (Fin v, r2)" using draw_finite [OF assms(2)] by blast
  then show ?case using Suc assms(1,2) 1 by (simp add: Let_def push_delta_finite)
qed simp

lemma push_delta_le: "m \<le> length (push_delta F a b deltas) + k \<Longrightarrow> m \<le> Suc (length deltas + k)"
  using push_delta_length [of F a b deltas] by linarith

lemma paired_replicates_length: "length (paired_replicates F xs ys k rng deltas) \<le> length deltas + k"
proof (induction k arbitrary: rng deltas)
  case (Suc k)
  show ?case using push_delta_le [OF Suc.IH] by (simp add: Let_def split: prod.split)
qed simp

lemma independent_replicates_length: "length (independent_replicates F xs ys k rng deltas) \<le> length deltas + k"
proof (induction k arbitrary: rng deltas)
  case (Suc k)
  show ?case using push_delta_le [OF Suc.IH] by (simp add: Let_def split: prod.split)
qed simp

lemma percentile_bounds_ordered:
  assumes "finite_list deltas" and "length deltas < 2 ^ 64" and "0 \<le> conf" and "conf \<le> 1"
  shows "\<exists>lo hi. percentile_bounds exact (Fin conf) deltas = Some (Ok (Fin lo, Fin hi)) \<and> lo \<le> hi"
proof (cases "deltas = []")
  case False
  obtain rs where rs: "deltas = map Fin rs" using assms(1) by (auto simp: finite_list_def)
  let ?s = "sort rs" and ?l = "(1 - conf) / 2 * 100" and ?u = "(1 - (1 - conf) / 2) * 100"
  have s: "?s \<noteq> []" using False rs by (metis length_0_conv length_sort list.map_disc_iff)
  have "percentile_bounds exact (Fin conf) deltas =
      Some (Ok (Fin (interpolate ?s (rank_of ?s ?l)), Fin (interpolate ?s (rank_of ?s ?u))))"
    using False percentile_exact [OF s] assms(2) unfolding rs by (simp add: percentile_bounds_def)
  moreover have le: "?l \<le> ?u" using assms(3) by (simp add: field_simps)
  moreover have "interpolate ?s (rank_of ?s ?l) \<le> interpolate ?s (rank_of ?s ?u)"
    using le rank_bounds [OF s] by (intro interpolate_mono rank_mono s) simp_all
  ultimately show ?thesis by blast
qed (simp add: percentile_bounds_def)

section \<open>The comparison returns\<close>

lemma beta_returns:
  assumes "0 < a" and "0 < b"
  shows "\<exists>r. regularized_incomplete_beta exact (Fin a) (Fin b) (Fin x) = Some r"
proof (cases "(a + 1) / (a + b + 2) < x \<and> x < 1")
  case True
  have "0 < a + b + 2" using assms by simp
  then have "\<not> (b + 1) / (b + a + 2) < 1 - x" using True assms by (simp add: field_simps)
  then have "\<exists>r. regularized_incomplete_beta exact (Fin b) (Fin a) (Fin (1 - x)) = Some r"
    using True assms by (subst regularized_incomplete_beta.simps) (auto simp: field_simps)
  then show ?thesis using True assms
    by (subst regularized_incomplete_beta.simps) (auto simp: field_simps)
next
  case False
  then show ?thesis using assms by (subst regularized_incomplete_beta.simps) (auto simp: field_simps)
qed

lemma t_p_value_returns: "\<exists>r. compute_t_distribution_two_tailed_p exact (Fin t) (Fin df) = Some r"
proof (cases "df \<le> 0")
  case False
  then have "df + t ^ 2 \<noteq> 0" by (metis add_pos_nonneg not_le order_less_irrefl zero_le_power2)
  then show ?thesis using False beta_returns [of "df / 2" "1 / 2"]
    by (simp add: compute_t_distribution_two_tailed_p_def Let_def)
qed (simp add: compute_t_distribution_two_tailed_p_def)

lemma t_p_value_bind [simp]: "\<exists>r. compute_t_distribution_two_tailed_p exact (Fin t) (Fin df) \<bind> (\<lambda>p. Some (g p)) = Some r"
  using t_p_value_returns [of t df] by auto

definition real_variance :: "real list \<Rightarrow> real \<Rightarrow> real" where
  "real_variance xs c = (\<Sum>x\<leftarrow>xs. (x - c) ^ 2) / (real (length xs) - 1)"

lemma real_variance_nonneg: "2 \<le> length xs \<Longrightarrow> 0 \<le> real_variance xs c"
  using sum_squares_nonneg [of c xs] by (simp add: real_variance_def)

lemma sample_variance_exact:
  "2 \<le> length xs \<Longrightarrow> sample_variance exact (Fin (real (length xs))) (Fin c) (map Fin xs) = Fin (real_variance xs c)"
  by (simp add: sample_variance_def real_variance_def)

lemma welch_df_positive:
  assumes "0 \<le> s" and "0 \<le> t" and "0 < s + (t :: real)" and "1 < n" and "1 < m"
  shows "s ^ 2 / (n - 1) + t ^ 2 / (m - 1) \<noteq> 0"
proof -
  have "0 \<le> s ^ 2 / (n - 1)" "0 \<le> t ^ 2 / (m - 1)" using assms by simp_all
  moreover have "0 < s ^ 2 / (n - 1) \<or> 0 < t ^ 2 / (m - 1)" using assms by (cases "s = 0") auto
  ultimately show ?thesis by linarith
qed

lemma welch_returns: "\<exists>r. welch_t_test exact (map Fin xs) (map Fin ys) = Some r"
proof (cases "length xs < 2 \<or> length ys < 2")
  case False
  let ?n = "real (length xs)" and ?m = "real (length ys)"
  define s where "s = real_variance xs (sum_list xs / ?n) / ?n"
  define t where "t = real_variance ys (sum_list ys / ?m) / ?m"
  have st: "0 \<le> s" "0 \<le> t" using False real_variance_nonneg by (auto simp: s_def t_def)
  have "?n \<noteq> 0" "?m \<noteq> 0" "1 < ?n" "1 < ?m" using False by auto
  note n = this
  have var: "sample_variance exact (Fin ?n) (Fin c) (map Fin xs) / Fin ?n = Fin (real_variance xs c / ?n)"
    "sample_variance exact (Fin ?m) (Fin c) (map Fin ys) / Fin ?m = Fin (real_variance ys c / ?m)" for c
    using False n by (simp_all add: sample_variance_exact)
  have pos: "0 < s + t" "sqrt (s + t) \<noteq> 0" if "\<not> sqrt (s + t) \<le> 1 / 10 ^ 12"
  proof -
    have "0 < sqrt (s + t)" using that by (smt (verit) divide_nonneg_nonneg zero_le_power zero_le_one zero_le_numeral)
    then show "0 < s + t" "sqrt (s + t) \<noteq> 0" by simp_all
  qed
  show ?thesis
  proof (cases "sqrt (s + t) \<le> 1 / 10 ^ 12")
    case True
    then show ?thesis using False n st var unfolding welch_t_test_def Let_def
      by (simp add: s_def [symmetric] t_def [symmetric])
  next
    case big: False
    note df = welch_df_positive [OF st pos(1) [OF big] n(3,4)]
    show ?thesis using False n st var big pos(2) [OF big] df unfolding welch_t_test_def Let_def
      by (simp add: s_def [symmetric] t_def [symmetric])
  qed
qed (auto simp: welch_t_test_def Let_def)

lemma paired_returns: "\<exists>r. paired_t_test exact (map Fin xs) (map Fin ys) = Some r"
proof (cases "length xs \<noteq> length ys \<or> length xs < 2")
  case False
  define ds where "ds = map (\<lambda>(y, x). y - x) (zip ys xs)"
  have ds: "map (\<lambda>(b, a). b - a) (zip (map Fin ys) (map Fin xs)) = map Fin ds"
    by (simp add: ds_def zip_map_map comp_def case_prod_unfold)
  have len: "length ds = length xs" using False by (simp add: ds_def)
  define v where "v = (\<Sum>d\<leftarrow>ds. (d - sum_list ds / real (length xs)) ^ 2) / real (length xs - 1) / real (length xs)"
  have v: "0 \<le> v" by (simp add: v_def sum_squares_nonneg)
  have n: "real (length xs) \<noteq> 0" "real (length xs - 1) \<noteq> 0" using False by auto
  have se: "sqrt v \<noteq> 0" if "\<not> sqrt v \<le> 1 / 10 ^ 12" using that by auto
  show ?thesis
  proof (cases "sqrt v \<le> 1 / 10 ^ 12")
    case True
    then show ?thesis using False n v unfolding paired_t_test_def Let_def
      by (simp add: ds v_def del: of_nat_diff)
  next
    case big: False
    then show ?thesis using False n v se [OF big] unfolding paired_t_test_def Let_def
      by (simp add: ds v_def del: of_nat_diff)
  qed
qed (auto simp: paired_t_test_def Let_def)

lemma levene_returns:
  assumes "length xs < 2 ^ 64" and "length ys < 2 ^ 64"
  shows "\<exists>r. levene_variance_test exact (map Fin xs) (map Fin ys) = Some r"
proof (cases "length xs < 2 \<or> length ys < 2")
  case False
  then have s: "sort xs \<noteq> []" "sort ys \<noteq> []" by (metis length_0_conv length_sort pos2 less_numeral_extra(3))+
  define p where "p = interpolate (sort xs) (rank_of (sort xs) 50)"
  define q where "q = interpolate (sort ys) (rank_of (sort ys) 50)"
  have med: "calculate_percentile exact (map Fin (sort xs)) (Fin 50) = Some (Fin p)"
    "calculate_percentile exact (map Fin (sort ys)) (Fin 50) = Some (Fin q)"
    using percentile_exact s assms by (simp_all add: p_def q_def)
  have z: "map (\<lambda>x. \<bar>x - Fin c\<bar>) (map Fin zs) = map Fin (map (\<lambda>x. \<bar>x - c\<bar>) zs)" for c zs by simp
  have n: "real (length xs) \<noteq> 0" "real (length ys) \<noteq> 0" "real (length xs + length ys) \<noteq> 0"
    "real (length xs + length ys - 2) \<noteq> 0" "0 \<le> real (length xs + length ys - 2)" using False by auto
  define zx where "zx = map (\<lambda>x. \<bar>x - p\<bar>) xs"
  define zy where "zy = map (\<lambda>x. \<bar>x - q\<bar>) ys"
  define mx where "mx = sum_list zx / real (length xs)"
  define my where "my = sum_list zy / real (length ys)"
  define m where "m = (sum_list zx + sum_list zy) / real (length xs + length ys)"
  define B where "B = real (length xs) * (mx - m) ^ 2 + real (length ys) * (my - m) ^ 2"
  define W where "W = (\<Sum>z\<leftarrow>zx. (z - mx) ^ 2) + (\<Sum>z\<leftarrow>zy. (z - my) ^ 2)"
  define df where "df = real (length xs + length ys - 2)"
  have means: "Fin (sum_list zx) / Fin (real (length xs)) = Fin mx" "Fin (sum_list zy) / Fin (real (length ys)) = Fin my"
    "Fin (sum_list zx + sum_list zy) / Fin (real (length xs + length ys)) = Fin m"
    using n unfolding mx_def my_def m_def by (simp_all del: of_nat_add)
  have pos: "0 \<le> B" "0 \<le> W" "0 \<le> df" using sum_squares_nonneg by (auto simp: B_def W_def df_def)
  have d0: "df \<noteq> 0" using n(4) by (simp add: df_def)
  have "\<exists>r. (if Fin W \<le> Fin (1 / 10 ^ 12) then Some (Ok (Fin 0, if Fin B < Fin (1 / 10 ^ 12) then Fin 1 else Fin 0))
      else do { let f = (Fin B / Fin 1) / (Fin W / Fin df);
                p \<leftarrow> compute_t_distribution_two_tailed_p exact (sqrt_f64 exact f) (Fin df);
                Some (Ok (f, p)) }) = (Some r :: (stats_error, xreal \<times> xreal) rust_result option)"
  proof (cases "W \<le> 1 / 10 ^ 12")
    case big: False
    then have "W \<noteq> 0" by auto
    then show ?thesis using big pos d0 by simp
  qed simp
  then show ?thesis using False
    unfolding levene_variance_test_def Let_def sort_by_Fin exact_simps med bind.bind_lunit z sum_exact length_map
      zx_def [symmetric] zy_def [symmetric] plus_xreal.simps means squares_exact xreal_simps(1)
      times_xreal.simps B_def [symmetric] W_def [symmetric] df_def [symmetric]
    by simp
qed (auto simp: levene_variance_test_def Let_def)

lemma welch_error:
  "welch_t_test F a b = Some (Err e) \<Longrightarrow> nat_f64 F (length a) < lit F 2 \<or> nat_f64 F (length b) < lit F 2"
  by (auto simp: welch_t_test_def Let_def split: if_splits bind_splits)

lemma paired_bootstrap_ordered:
  assumes "2 \<le> length xs" and "length ys = length xs" and "k < 2 ^ 64" and "0 \<le> conf" and "conf \<le> 1"
  shows "\<exists>lo hi. bootstrap_paired_percentage_delta_ci exact (map Fin xs) (map Fin ys) k (Fin conf) =
    Some (Ok (Fin lo, Fin hi)) \<and> lo \<le> hi"
proof -
  let ?d = "paired_replicates exact (map Fin xs) (map Fin ys) k RNG_SEED []"
  have "finite_list ?d" using assms by (intro paired_replicates_finite) auto
  moreover have "length ?d < 2 ^ 64" using paired_replicates_length [of exact "map Fin xs" "map Fin ys" k RNG_SEED "[]"] assms(3) by simp
  ultimately show ?thesis using percentile_bounds_ordered [of ?d conf] assms
    by (auto simp: bootstrap_paired_percentage_delta_ci_def Let_def)
qed

lemma independent_bootstrap_ordered:
  assumes "xs \<noteq> []" and "ys \<noteq> []" and "k < 2 ^ 64" and "0 \<le> conf" and "conf \<le> 1"
  shows "\<exists>lo hi. bootstrap_percentile_delta_ci exact (map Fin xs) (map Fin ys) k (Fin conf) =
    Some (Ok (Fin lo, Fin hi)) \<and> lo \<le> hi"
proof -
  let ?d = "independent_replicates exact (map Fin xs) (map Fin ys) k RNG_SEED []"
  have "finite_list ?d" using assms by (intro independent_replicates_finite) auto
  moreover have "length ?d < 2 ^ 64" using independent_replicates_length [of exact "map Fin xs" "map Fin ys" k RNG_SEED "[]"] assms(3) by simp
  ultimately show ?thesis using percentile_bounds_ordered [of ?d conf] assms
    by (auto simp: bootstrap_percentile_delta_ci_def)
qed

lemma paired_bootstrap_returns:
  "\<exists>r. bootstrap_paired_percentage_delta_ci exact (map Fin xs) (map Fin ys) 2000 (Fin 0.95) = Some r"
proof (cases "length xs \<noteq> length ys \<or> length xs < 2")
  case False
  then have "2 \<le> length xs" "length ys = length xs" by auto
  moreover have "(2000 :: nat) < 2 ^ 64" "(0 :: real) \<le> 0.95" "(0.95 :: real) \<le> 1" by simp_all
  ultimately show ?thesis using paired_bootstrap_ordered by blast
qed (auto simp: bootstrap_paired_percentage_delta_ci_def Let_def)

definition finite_runs :: "xreal BenchmarkMetrics list \<Rightarrow> bool" where
  "finite_runs ms \<longleftrightarrow> finite_list (map one_percent_low_fps ms) \<and> finite_list (map frame_time_std_dev_ms ms) \<and>
     length ms < 2 ^ 64"

lemma compare_returns:
  assumes "finite_runs A" and "finite_runs B"
  shows "\<exists>r. compare_ab_trials exact A B = Some r" and
    "2 \<le> length A \<Longrightarrow> 2 \<le> length B \<Longrightarrow> \<exists>R. compare_ab_trials exact A B = Some (Ok R)"
proof -
  obtain xs ys us vs where l: "map one_percent_low_fps A = map Fin xs" "map one_percent_low_fps B = map Fin ys"
    "map frame_time_std_dev_ms A = map Fin us" "map frame_time_std_dev_ms B = map Fin vs"
    using assms by (auto simp: finite_runs_def finite_list_def)
  have len: "length xs = length A" "length ys = length B" "length us < 2 ^ 64" "length vs < 2 ^ 64"
    using assms l by (metis finite_runs_def length_map)+
  obtain p w lev boot where r: "paired_t_test exact (map Fin xs) (map Fin ys) = Some p"
    "welch_t_test exact (map Fin xs) (map Fin ys) = Some w" "levene_variance_test exact (map Fin us) (map Fin vs) = Some lev"
    "bootstrap_paired_percentage_delta_ci exact (map Fin xs) (map Fin ys) 2000 (Fin 0.95) = Some boot"
    using paired_returns welch_returns levene_returns [OF len(3,4)] paired_bootstrap_returns by blast
  have "\<exists>mw. mann_whitney_u_test exact (map Fin xs) (map Fin ys) = Some mw"
    using mann_whitney_returns_iff [of "map Fin xs" "map Fin ys"] by (auto simp: finite_f64_def)
  then obtain mw where mw: "mann_whitney_u_test exact (map Fin xs) (map Fin ys) = Some mw" by blast
  show "\<exists>r. compare_ab_trials exact A B = Some r"
    unfolding compare_ab_trials_def Let_def l exact_simps r mw bind.bind_lunit
    by (cases w) simp_all
  assume "2 \<le> length A" "2 \<le> length B"
  then have "A \<noteq> []" "B \<noteq> []" and "\<exists>v. w = Ok v" using welch_error [of exact] r(2) len by (cases w; force)+
  then show "\<exists>R. compare_ab_trials exact A B = Some (Ok R)"
    unfolding compare_ab_trials_def Let_def l exact_simps r mw bind.bind_lunit
    by (cases w) simp_all
qed

lemma compare_report:
  assumes "compare_ab_trials F A B = Some (Ok R)"
  obtains paired welch d mw ci lev where "A \<noteq> []" "B \<noteq> []" "R = ab_report F A B paired welch d mw ci lev"
proof -
  have ne: "A \<noteq> []" "B \<noteq> []" using assms by (auto simp: compare_ab_trials_def)
  show ?thesis using assms ne unfolding compare_ab_trials_def Let_def
    by (simp split: Option.bind_split_asm sum.split_asm) (metis that [OF ne])
qed

lemma recommend_accepted: "(\<exists>e. recommend F meets sig x d = Accepted e) \<longleftrightarrow> meets"
  by (simp add: recommend_def)

section \<open>Properties\<close>


definition demo_frame :: "real \<Rightarrow> xreal FrameSample" where
  "demo_frame t = \<lparr>frame_index = 1, frame_timestamp_us = 0, ms_between_presents = Fin t,
     ms_until_displayed = None, frame_time_ms = Fin t\<rparr>"


text \<open>
  The two-tailed p-value is not always a probability: for ten paired trials,
  that is nine degrees of freedom, and a t statistic of 9/4 the function returns a negative number,
  which every significance threshold accepts. (The p-value of that statistic is about 0.051.)
\<close>

theorem p_value_can_be_negative:
  "\<exists>r < 0. compute_t_distribution_two_tailed_p exact (Fin (9 / 4)) (Fin 9) = Some (Fin r)"
  by (rule t_p_value_negative)

text \<open>
  C31: The Mann-Whitney test returns exactly when a sample is too small or every
  value is finite: an infinite value or a not-a-number keeps the ranking loop at its place for ever.
\<close>

theorem mann_whitney_returns:
  "(\<exists>r. mann_whitney_u_test exact a b = Some r) \<longleftrightarrow>
     length a < 2 \<or> length b < 2 \<or> (\<forall>x \<in> set a \<union> set b. finite_f64 x)"
  by (rule mann_whitney_returns_iff)

theorem mann_whitney_returns_witness:
  "(\<exists>r. mann_whitney_u_test exact [Fin 1, Fin 2] [Fin 2, Fin 3] = Some r) \<and>
   \<not> (\<exists>r. mann_whitney_u_test exact [Fin 1, NaN] [Fin 2, Fin 3] = Some r)"
  using mann_whitney_returns [of "[Fin 1, Fin 2]" "[Fin 2, Fin 3]"] mann_whitney_returns [of "[Fin 1, NaN]" "[Fin 2, Fin 3]"]
  by (simp add: finite_f64_def)

text \<open>
  Both bootstrap intervals of finite samples exist and their lower end does not
  exceed their upper end, in exact arithmetic and for every number of resamples and level.
\<close>

theorem bootstrap_intervals_ordered:
  assumes "2 \<le> length xs" and "length ys = length xs" and "k < 2 ^ 64" and "0 \<le> conf" and "conf \<le> 1"
  shows "(\<exists>lo hi. bootstrap_paired_percentage_delta_ci exact (map Fin xs) (map Fin ys) k (Fin conf) =
            Some (Ok (Fin lo, Fin hi)) \<and> lo \<le> hi) \<and>
         (\<exists>lo hi. bootstrap_percentile_delta_ci exact (map Fin xs) (map Fin ys) k (Fin conf) =
            Some (Ok (Fin lo, Fin hi)) \<and> lo \<le> hi)"
proof
  have "xs \<noteq> []" "ys \<noteq> []" using assms(1,2) by auto
  then show "\<exists>lo hi. bootstrap_percentile_delta_ci exact (map Fin xs) (map Fin ys) k (Fin conf) =
      Some (Ok (Fin lo, Fin hi)) \<and> lo \<le> hi"
    using assms by (intro independent_bootstrap_ordered)
qed (rule paired_bootstrap_ordered [OF assms])

theorem bootstrap_intervals_ordered_witness:
  "\<exists>lo hi. bootstrap_paired_percentage_delta_ci exact (map Fin [100, 102]) (map Fin [110, 111]) 2000 (Fin (95 / 100)) =
     Some (Ok (Fin lo, Fin hi)) \<and> lo \<le> hi"
  using bootstrap_intervals_ordered [of "[100, 102]" "[110, 111]" 2000 "95 / 100"] by simp


definition demo_run :: "xreal BenchmarkMetrics" where
  "demo_run = exact_metrics default_provenance None [4, 4]"


text \<open>
  The comparison of two sets of runs with finite metrics always returns, in
  exact arithmetic, and it returns a report whenever both sets have at least two runs.
\<close>

theorem comparison_returns:
  assumes "finite_runs A" and "finite_runs B"
  shows "(\<exists>r. compare_ab_trials exact A B = Some r) \<and>
    (2 \<le> length A \<and> 2 \<le> length B \<longrightarrow> (\<exists>R. compare_ab_trials exact A B = Some (Ok R)))"
  using compare_returns [OF assms] by blast

theorem comparison_returns_witness:
  "\<exists>r. compare_ab_trials exact [demo_run] [demo_run] = Some r"
proof -
  have "finite_list [Fin r]" for r using finite_list_simps(2) [of "[r]"] by simp
  then have "finite_runs [demo_run]" by (simp add: finite_runs_def demo_run_def exact_metrics_def Let_def)
  then show ?thesis using comparison_returns by blast
qed

end
