(* ===== verification/Bufferbloat.thy ===== *)
theory Bufferbloat
  imports Bench_Stats
begin

text \<open>
  \<^verbatim>\<open>network/probe.rs\<close>, \<^verbatim>\<open>network/bufferbloat.rs\<close> and the grade of \<^verbatim>\<open>models/network.rs\<close>: the UDP probe
  that measures round trips, and the test that probes an idle and a loaded line and grades the
  difference.

  The socket calls are the record \<open>udp\<close>; an address is its printed form. The threads that load
  the line act on the network only and are two functions that start and end the load.
\<close>

section \<open>The UDP probe\<close>

record 'w udp =
  qpc_counter :: "'w \<Rightarrow> int"
  udp_bind :: "'w \<Rightarrow> bool"
  udp_set_timeout :: "nat \<Rightarrow> 'w \<Rightarrow> bool"
  udp_send :: "bytes \<Rightarrow> string \<Rightarrow> 'w \<Rightarrow> bool \<times> 'w"
  udp_recv :: "nat \<Rightarrow> 'w \<Rightarrow> bytes option \<times> 'w"
  load_begin :: "nat \<Rightarrow> string \<Rightarrow> 'w \<Rightarrow> 'w"
  load_end :: "'w \<Rightarrow> 'w"

definition get_qpc_time_us :: "'f::{times,inverse} f64_lib \<Rightarrow> 'w udp \<Rightarrow> int \<Rightarrow> 'w \<Rightarrow> u64" where
  "get_qpc_time_us F udp freq w =
     f64_u64 F ((int_f64 F (qpc_counter udp w) * lit F 1000000) / int_f64 F freq)"

record UdpProbeConfig =
  probe_target :: string
  packet_count :: u32
  packet_interval_ms :: nat
  probe_timeout_ms :: nat

definition default_probe_config :: UdpProbeConfig where
  "default_probe_config =
     \<lparr>probe_target = ''127.0.0.1:27015'', packet_count = 50, packet_interval_ms = 10, probe_timeout_ms = 200\<rparr>"

record 'f PingProbeReport =
  target_endpoint :: string
  packets_sent :: u32
  packets_received :: u32
  packet_loss_percent :: 'f
  min_rtt_ms :: 'f
  avg_rtt_ms :: 'f
  max_rtt_ms :: 'f
  median_rtt_ms :: 'f
  jitter_ms :: 'f
  rtt_std_dev_ms :: 'f

datatype probe_error = NoCounter | BindFailed | TimeoutRejected

definition probe_payload :: "u32 \<Rightarrow> u64 \<Rightarrow> bytes" where
  "probe_payload seq send_time_us = le_bytes 4 (unat seq) @ le_bytes 8 (unat send_time_us)"

definition reply_seq :: "bytes \<Rightarrow> u32" where
  "reply_seq data = of_nat (be_val (rev (take 4 data)))"

text \<open>One packet: the round-trip times and the number of answers so far.\<close>

definition probe_packet ::
  "'f::{times,inverse} f64_lib \<Rightarrow> 'w win32 \<Rightarrow> 'w udp \<Rightarrow> UdpProbeConfig \<Rightarrow> int \<Rightarrow> u32 \<Rightarrow>
     ('f list \<times> u32) \<times> 'w machine \<Rightarrow> ('f list \<times> u32) \<times> 'w machine" where
  "probe_packet F os udp cfg qpc_freq seq s =
     (case s of ((rtts, received), m) \<Rightarrow>
        let send_time_us = get_qpc_time_us F udp qpc_freq (env m);
            (sent, m) = advance (udp_send udp (probe_payload seq send_time_us) (probe_target cfg)) m
        in if \<not> sent then ((rtts, received), sleep os (packet_interval_ms cfg) m)
           else
             let (answer, m) = advance (udp_recv udp (probe_timeout_ms cfg)) m;
                 (rtts, received) =
                   (case answer of
                      None \<Rightarrow> (rtts, received)
                    | Some data \<Rightarrow>
                        if length data \<ge> 12 then
                          let recv_time_us = get_qpc_time_us F udp qpc_freq (env m)
                          in if reply_seq data = seq then
                               let rtt_us = (if send_time_us \<le> recv_time_us then recv_time_us - send_time_us else 0)
                               in (rtts @ [nat_f64 F (unat rtt_us) / lit F 1000], received + 1)
                             else (rtts, received)
                        else (rtts, received))
             in ((rtts, received),
                 if packet_interval_ms cfg > 0 then sleep os (packet_interval_ms cfg) m else m))"

definition probe_packets ::
  "'f::{times,inverse} f64_lib \<Rightarrow> 'w win32 \<Rightarrow> 'w udp \<Rightarrow> UdpProbeConfig \<Rightarrow> int \<Rightarrow> u32 list \<Rightarrow>
     ('f list \<times> u32) \<times> 'w machine \<Rightarrow> ('f list \<times> u32) \<times> 'w machine" where
  "probe_packets F os udp cfg qpc_freq seqs s = fold (probe_packet F os udp cfg qpc_freq) seqs s"

definition jitter_step :: "'f::{plus,minus,inverse,abs} f64_lib \<Rightarrow> 'f \<times> 'f \<Rightarrow> 'f \<Rightarrow> 'f" where
  "jitter_step F p jitter = jitter + (\<bar>snd p - fst p\<bar> - jitter) / lit F 16"

definition probe_report ::
  "'f::{plus,minus,uminus,times,inverse,abs,ord} f64_lib \<Rightarrow> string \<Rightarrow> u32 \<Rightarrow> u32 \<Rightarrow> 'f list \<Rightarrow> 'f PingProbeReport option" where
  "probe_report F target sent received rtts =
     (let lost = sent - received;
          loss = (if sent > 0 then (nat_f64 F (unat lost) / nat_f64 F (unat sent)) * lit F 100 else lit F 0)
      in if rtts = [] then
           Some \<lparr>target_endpoint = target, packets_sent = sent, packets_received = 0, packet_loss_percent = lit F 100,
                 min_rtt_ms = lit F 0, avg_rtt_ms = lit F 0, max_rtt_ms = lit F 0, median_rtt_ms = lit F 0,
                 jitter_ms = lit F 0, rtt_std_dev_ms = lit F 0\<rparr>
         else
           let n = length rtts;
               avg = sum_f64 F rtts / nat_f64 F n;
               variance = (if n > 1 then squares_about F avg rtts / nat_f64 F (n - 1) else lit F 0)
           in do {
                median \<leftarrow> calculate_percentile F (sort_by (<) rtts) (lit F 50);
                Some \<lparr>target_endpoint = target, packets_sent = sent, packets_received = received, packet_loss_percent = loss,
                      min_rtt_ms = foldl f64_min (infinity_f64 F) rtts, avg_rtt_ms = avg,
                      max_rtt_ms = foldl f64_max (- infinity_f64 F) rtts, median_rtt_ms = median,
                      jitter_ms = fold (jitter_step F) (zip rtts (tl rtts)) (lit F 0),
                      rtt_std_dev_ms = sqrt_f64 F variance\<rparr>
              })"

definition probe ::
  "'f::{plus,minus,uminus,times,inverse,abs,ord} f64_lib \<Rightarrow> 'w win32 \<Rightarrow> 'w udp \<Rightarrow> UdpProbeConfig \<Rightarrow> 'w machine \<Rightarrow>
     ((probe_error, 'f PingProbeReport) rust_result \<times> 'w machine) option" where
  "probe F os udp cfg m =
     (let qpc_freq = opt_unwrap_or (qpc_frequency os (env m)) 0
      in if qpc_freq = 0 then Some (Err NoCounter, m)
         else if \<not> udp_bind udp (env m) then Some (Err BindFailed, m)
         else if \<not> udp_set_timeout udp (probe_timeout_ms cfg) (env m) then Some (Err TimeoutRejected, m)
         else
           let n = unat (packet_count cfg);
               ((rtts, received), m) = probe_packets F os udp cfg qpc_freq (map of_nat [1..<Suc n]) (([], 0), m)
           in do {
                report \<leftarrow> probe_report F (probe_target cfg) (of_nat n) received rtts;
                Some (Ok report, m)
              })"

section \<open>The grade\<close>

datatype BufferbloatGrade = APlus | A | B | C | D | F

definition from_latency_delta :: "'f::ord f64_lib \<Rightarrow> 'f \<Rightarrow> 'f \<Rightarrow> BufferbloatGrade" where
  "from_latency_delta L delta_ms packet_loss_pct =
     (if lit L 5 < packet_loss_pct then F
      else if delta_ms < lit L 5 then APlus
      else if delta_ms < lit L 15 then A
      else if delta_ms < lit L 30 then B
      else if delta_ms < lit L 60 then C
      else if delta_ms < lit L 120 then D
      else F)"

fun grade_as_str :: "BufferbloatGrade \<Rightarrow> string" where
  "grade_as_str APlus = ''A+''"
| "grade_as_str A = ''A''"
| "grade_as_str B = ''B''"
| "grade_as_str C = ''C''"
| "grade_as_str D = ''D''"
| "grade_as_str F = ''F''"

section \<open>The test\<close>

record BufferbloatConfig =
  bb_target_addr :: string
  probe_count_unloaded :: u32
  probe_count_loaded :: u32
  probe_interval_ms :: nat
  bb_timeout_ms :: nat
  load_concurrency :: nat
  load_target_addr :: "string option"
  load_duration_secs :: nat

definition default_bufferbloat_config :: BufferbloatConfig where
  "default_bufferbloat_config =
     \<lparr>bb_target_addr = ''1.1.1.1:53'', probe_count_unloaded = 25, probe_count_loaded = 25, probe_interval_ms = 20,
      bb_timeout_ms = 200, load_concurrency = 4, load_target_addr = None,
      load_duration_secs = 2\<rparr>"

definition isolated_bufferbloat_config :: "string \<Rightarrow> BufferbloatConfig" where
  "isolated_bufferbloat_config target =
     \<lparr>bb_target_addr = target, probe_count_unloaded = 20, probe_count_loaded = 20, probe_interval_ms = 5,
      bb_timeout_ms = 100, load_concurrency = 2, load_target_addr = Some target,
      load_duration_secs = 1\<rparr>"

datatype 'f bb_recommendation = GradeAdvice BufferbloatGrade | HighJitter 'f

datatype bufferbloat_error = UnloadedProbeFailed probe_error | LoadedProbeFailed probe_error | EchoServerFailed

record 'f BufferbloatReport =
  unloaded_ping_ms :: 'f
  unloaded_jitter_ms :: 'f
  loaded_ping_ms :: 'f
  loaded_jitter_ms :: 'f
  bufferbloat_delta_ms :: 'f
  grade :: BufferbloatGrade
  packet_loss_pct :: 'f
  target_host :: string
  bb_test_duration_secs :: 'f
  bb_recommendations :: "'f bb_recommendation list"

definition bufferbloat_report ::
  "'f::{minus,inverse,ord} f64_lib \<Rightarrow> BufferbloatConfig \<Rightarrow> 'f PingProbeReport \<Rightarrow> 'f PingProbeReport \<Rightarrow> nat \<Rightarrow> 'f BufferbloatReport" where
  "bufferbloat_report L cfg unloaded loaded elapsed =
     (let delta = f64_max (median_rtt_ms loaded - median_rtt_ms unloaded) (lit L 0);
          g = from_latency_delta L delta (packet_loss_percent loaded)
      in \<lparr>unloaded_ping_ms = median_rtt_ms unloaded, unloaded_jitter_ms = jitter_ms unloaded,
          loaded_ping_ms = median_rtt_ms loaded, loaded_jitter_ms = jitter_ms loaded,
          bufferbloat_delta_ms = delta, grade = g, packet_loss_pct = packet_loss_percent loaded,
          target_host = bb_target_addr cfg, bb_test_duration_secs = nat_f64 L elapsed / lit L 1000,
          bb_recommendations = GradeAdvice g # (if lit L 5 < jitter_ms loaded then [HighJitter (jitter_ms loaded)] else [])\<rparr>)"

definition run_test ::
  "'f::{plus,minus,uminus,times,inverse,abs,ord} f64_lib \<Rightarrow> 'w win32 \<Rightarrow> 'w udp \<Rightarrow> BufferbloatConfig \<Rightarrow> 'w machine \<Rightarrow>
     ((bufferbloat_error, 'f BufferbloatReport) rust_result \<times> 'w machine) option" where
  "run_test L os udp cfg m =
     (let start_time = clock_ms os (env m);
          unloaded_config = \<lparr>probe_target = bb_target_addr cfg, packet_count = probe_count_unloaded cfg,
            packet_interval_ms = probe_interval_ms cfg, probe_timeout_ms = bb_timeout_ms cfg\<rparr>
      in do {
           (unloaded, m) \<leftarrow> probe L os udp unloaded_config m;
           (case unloaded of
              Inl e \<Rightarrow> Some (Err (UnloadedProbeFailed e), m)
            | Inr unloaded \<Rightarrow> do {
                let load_target = opt_unwrap_or (load_target_addr cfg) (bb_target_addr cfg);
                let m = m\<lparr>env := load_begin udp (load_concurrency cfg) load_target (env m)\<rparr>;
                let m = sleep os 150 m;
                let loaded_config = \<lparr>probe_target = bb_target_addr cfg, packet_count = probe_count_loaded cfg,
                  packet_interval_ms = probe_interval_ms cfg, probe_timeout_ms = bb_timeout_ms cfg\<rparr>;
                (loaded_res, m) \<leftarrow> probe L os udp loaded_config m;
                let m = m\<lparr>env := load_end udp (env m)\<rparr>;
                Some (case loaded_res of
                        Inl e \<Rightarrow> Err (LoadedProbeFailed e)
                      | Inr loaded \<Rightarrow>
                          Ok (bufferbloat_report L cfg unloaded loaded (clock_ms os (env m) - start_time)), m)
              })
         })"

text \<open>The isolated test, given the address of the echo server if it could be started.\<close>

definition run_isolated_test ::
  "'f::{plus,minus,uminus,times,inverse,abs,ord} f64_lib \<Rightarrow> 'w win32 \<Rightarrow> 'w udp \<Rightarrow> string option \<Rightarrow> 'w machine \<Rightarrow>
     ((bufferbloat_error, 'f BufferbloatReport) rust_result \<times> 'w machine) option" where
  "run_isolated_test L os udp echo_addr m =
     (case echo_addr of
        None \<Rightarrow> Some (Err EchoServerFailed, m)
      | Some target \<Rightarrow> run_test L os udp (isolated_bufferbloat_config target) m)"

section \<open>Lemmas\<close>

subsection \<open>The grades in their order, best first\<close>

fun grade_rank :: "BufferbloatGrade \<Rightarrow> nat" where
  "grade_rank APlus = 0"
| "grade_rank A = 1"
| "grade_rank B = 2"
| "grade_rank C = 3"
| "grade_rank D = 4"
| "grade_rank F = 5"

lemma grade_rank_inj [simp]: "grade_rank g = grade_rank h \<longleftrightarrow> g = h"
  by (cases g; cases h) simp_all

instantiation BufferbloatGrade :: linorder
begin

definition less_eq_BufferbloatGrade :: "BufferbloatGrade \<Rightarrow> BufferbloatGrade \<Rightarrow> bool" where
  "less_eq_BufferbloatGrade g h \<longleftrightarrow> grade_rank g \<le> grade_rank h"

definition less_BufferbloatGrade :: "BufferbloatGrade \<Rightarrow> BufferbloatGrade \<Rightarrow> bool" where
  "less_BufferbloatGrade g h \<longleftrightarrow> grade_rank g < grade_rank h"

instance
proof
  fix g h :: BufferbloatGrade
  assume "g \<le> h" and "h \<le> g"
  then show "g = h" by (simp add: less_eq_BufferbloatGrade_def antisym)
qed (auto simp: less_eq_BufferbloatGrade_def less_BufferbloatGrade_def)

end

lemmas grade_order = less_eq_BufferbloatGrade_def less_BufferbloatGrade_def

lemma grade_exact:
  "from_latency_delta exact (Fin d) (Fin p) =
     (if 5 < p then F else if d < 5 then APlus else if d < 15 then A else if d < 30 then B
      else if d < 60 then C else if d < 120 then D else F)"
  by (simp add: from_latency_delta_def)

lemma grade_mono:
  "d \<le> d' \<Longrightarrow> p \<le> p' \<Longrightarrow> from_latency_delta exact (Fin d) (Fin p) \<le> from_latency_delta exact (Fin d') (Fin p')"
  by (auto simp: grade_exact grade_order)

subsection \<open>One packet\<close>

lemma reply_seq_payload [simp]: "reply_seq (probe_payload seq t) = seq"
  using unsigned_less [of seq, where ?'a = nat] by (simp add: reply_seq_def probe_payload_def be_val_rev_le_bytes)

lemma probe_packet_answers:
  "\<exists>new. fst (fst (probe_packet L os udp cfg f seq ((rtts, received), m))) = rtts @ new \<and>
     snd (fst (probe_packet L os udp cfg f seq ((rtts, received), m))) = received + of_nat (length new) \<and>
     length new \<le> 1 \<and> (\<forall>x \<in> set new. \<exists>t. x = nat_f64 L (unat (t :: u64)) / lit L 1000)"
  by (auto simp: probe_packet_def Let_def split: prod.split option.split intro: exI [of _ 0])

lemma probe_packets_answers:
  "\<exists>new. fst (fst (probe_packets L os udp cfg f seqs ((rtts, received), m))) = rtts @ new \<and>
     snd (fst (probe_packets L os udp cfg f seqs ((rtts, received), m))) = received + of_nat (length new) \<and>
     length new \<le> length seqs \<and> (\<forall>x \<in> set new. \<exists>t. x = nat_f64 L (unat (t :: u64)) / lit L 1000)"
proof (induction seqs arbitrary: rtts received m)
  case (Cons seq seqs)
  obtain rtts' received' m' where step: "probe_packet L os udp cfg f seq ((rtts, received), m) = ((rtts', received'), m')"
    by (metis prod.exhaust_sel)
  obtain a where a: "rtts' = rtts @ a" "received' = received + of_nat (length a)" "length a \<le> 1"
      "\<forall>x \<in> set a. \<exists>t. x = nat_f64 L (unat (t :: u64)) / lit L 1000"
    using probe_packet_answers [of L os udp cfg f seq rtts received m] step by auto
  obtain b where b: "fst (fst (probe_packets L os udp cfg f seqs ((rtts', received'), m'))) = rtts' @ b"
      "snd (fst (probe_packets L os udp cfg f seqs ((rtts', received'), m'))) = received' + of_nat (length b)"
      "length b \<le> length seqs" "\<forall>x \<in> set b. \<exists>t. x = nat_f64 L (unat (t :: u64)) / lit L 1000"
    using Cons.IH by blast
  have "probe_packets L os udp cfg f (seq # seqs) ((rtts, received), m) = probe_packets L os udp cfg f seqs ((rtts', received'), m')"
    by (simp add: probe_packets_def step)
  then show ?case using a b by (intro exI [of _ "a @ b"]) (auto simp: algebra_simps)
qed (auto simp: probe_packets_def)

lemma probe_rtts_exact:
  assumes "\<forall>x \<in> set xs. \<exists>t. x = nat_f64 exact (unat (t :: u64)) / lit exact 1000"
  shows "\<exists>ts. xs = map Fin ts \<and> list_all (\<lambda>t. 0 \<le> t) ts"
  using assms
proof (induction xs)
  case (Cons x xs)
  then obtain ts t where "xs = map Fin ts" "list_all (\<lambda>t. 0 \<le> t) ts" "x = Fin (real (unat (t :: u64)) / 1000)" by auto
  then have "x # xs = map Fin ((real (unat t) / 1000) # ts) \<and> list_all (\<lambda>t. 0 \<le> t) ((real (unat t) / 1000) # ts)"
    by (simp del: of_nat_unat)
  then show ?case by (rule exI)
qed simp

subsection \<open>The figures of a report\<close>

lemma min_fold_exact: "foldl f64_min (Fin a) (map Fin xs) = Fin (foldl min a xs)"
  by (induction xs arbitrary: a) (auto simp: f64_min_def min_def)

lemma max_fold_exact: "foldl f64_max (Fin a) (map Fin xs) = Fin (foldl max a xs)"
  by (induction xs arbitrary: a) (auto simp: f64_max_def max_def)

lemma foldl_min_Min: "foldl min a xs = Min (insert (a :: real) (set xs))"
proof (induction xs arbitrary: a)
  case (Cons x xs)
  then show ?case by (cases "xs = []") (simp_all add: ac_simps)
qed simp

lemma foldl_max_Max: "foldl max a xs = Max (insert (a :: real) (set xs))"
proof (induction xs arbitrary: a)
  case (Cons x xs)
  then show ?case by (cases "xs = []") (simp_all add: ac_simps)
qed simp

lemma extremes_exact:
  assumes "xs \<noteq> []"
  shows "foldl f64_min PosInf (map Fin xs) = Fin (Min (set xs))" and "foldl f64_max NegInf (map Fin xs) = Fin (Max (set xs))"
proof -
  obtain y ys where xs: "xs = y # ys" using assms by (cases xs) auto
  have "f64_min PosInf (Fin y) = Fin y" "f64_max NegInf (Fin y) = Fin y"
    by (simp_all add: f64_min_def f64_max_def is_nan_def less_eq_xreal_def)
  then show "foldl f64_min PosInf (map Fin xs) = Fin (Min (set xs))" "foldl f64_max NegInf (map Fin xs) = Fin (Max (set xs))"
    by (simp_all add: xs min_fold_exact max_fold_exact foldl_min_Min foldl_max_Max)
qed

definition jitter_of :: "real list \<Rightarrow> real" where
  "jitter_of xs = fold (\<lambda>(x, y) j. j + (\<bar>y - x\<bar> - j) / 16) (zip xs (tl xs)) 0"

lemma jitter_exact: "fold (jitter_step exact) (zip (map Fin xs) (tl (map Fin xs))) (lit exact 0) = Fin (jitter_of xs)"
proof -
  have "fold (jitter_step exact) (map (\<lambda>(x, y). (Fin x, Fin y)) ps) (Fin j) =
      Fin (fold (\<lambda>(x, y) j. j + (\<bar>y - x\<bar> - j) / 16) ps j)" for ps :: "(real \<times> real) list" and j
    by (induction ps arbitrary: j) (auto simp: jitter_step_def)
  moreover have "zip (map Fin xs) (tl (map Fin xs)) = map (\<lambda>(x, y). (Fin x, Fin y)) (zip xs (tl xs))"
    by (simp add: zip_map_map map_tl [symmetric] map_prod_def)
  ultimately show ?thesis by (simp add: jitter_of_def)
qed

lemma jitter_bounds:
  assumes "\<forall>x \<in> set xs. lo \<le> x \<and> x \<le> hi" and "lo \<le> hi"
  shows "0 \<le> jitter_of xs \<and> jitter_of xs \<le> hi - lo"
proof -
  have "0 \<le> fold (\<lambda>(x, y) j. j + (\<bar>y - x\<bar> - j) / 16) ps j \<and>
      fold (\<lambda>(x, y) j. j + (\<bar>y - x\<bar> - j) / 16) ps j \<le> hi - lo"
    if "0 \<le> j" "j \<le> hi - lo" "\<forall>(x, y) \<in> set ps. \<bar>y - x\<bar> \<le> hi - lo" for ps :: "(real \<times> real) list" and j
    using that
  proof (induction ps arbitrary: j)
    case (Cons p ps)
    obtain x y where p: "p = (x, y)" by (cases p)
    have d: "\<bar>y - x\<bar> \<le> hi - lo" using Cons.prems(3) p by auto
    have "0 \<le> j + (\<bar>y - x\<bar> - j) / 16" "j + (\<bar>y - x\<bar> - j) / 16 \<le> hi - lo"
      using Cons.prems(1,2) d by (auto simp: field_simps)
    then show ?case using Cons.IH [of "j + (\<bar>y - x\<bar> - j) / 16"] Cons.prems(3) p by simp
  qed simp
  moreover have "\<forall>(x, y) \<in> set (zip xs (tl xs)). \<bar>y - x\<bar> \<le> hi - lo"
  proof (clarify)
    fix x y
    assume "(x, y) \<in> set (zip xs (tl xs))"
    then have "x \<in> set xs" "y \<in> set xs" using set_zip_leftD set_zip_rightD by (fastforce dest: list.set_sel(2) [rotated])+
    then show "\<bar>y - x\<bar> \<le> hi - lo" using assms(1) by (metis abs_le_iff diff_mono minus_diff_eq)
  qed
  ultimately show ?thesis using assms(2) by (simp add: jitter_of_def)
qed

text \<open>The report of the answered packets in exact arithmetic.\<close>

definition exact_report :: "string \<Rightarrow> u32 \<Rightarrow> real list \<Rightarrow> xreal PingProbeReport" where
  "exact_report target sent xs =
     (let n = real (length xs); avg = sum_list xs / n
      in \<lparr>target_endpoint = target, packets_sent = sent, packets_received = of_nat (length xs),
          packet_loss_percent = Fin ((real (unat sent) - n) / real (unat sent) * 100),
          min_rtt_ms = Fin (Min (set xs)), avg_rtt_ms = Fin avg, max_rtt_ms = Fin (Max (set xs)),
          median_rtt_ms = Fin (interpolate (sort xs) (rank_of (sort xs) 50)), jitter_ms = Fin (jitter_of xs),
          rtt_std_dev_ms = Fin (sqrt (if length xs > 1 then (\<Sum>x\<leftarrow>xs. (x - avg) ^ 2) / (n - 1) else 0))\<rparr>)"

lemma probe_report_exact:
  assumes "xs \<noteq> []" and n: "length xs \<le> unat sent"
  shows "probe_report exact target sent (of_nat (length xs)) (map Fin xs) = Some (exact_report target sent xs)"
proof -
  have small: "length xs < 2 ^ 32" using n unsigned_less [of sent, where ?'a = nat] by simp
  have received: "unat (of_nat (length xs) :: u32) = length xs" using small by (simp add: unat_of_nat)
  have "0 < length xs" using assms(1) by simp
  have pos: "0 < sent" using n assms(1) by (cases "sent = 0") (auto simp: word_gt_0)
  have le: "of_nat (length xs) \<le> sent" using n received by (simp add: word_le_nat_alt)
  have lost: "real (unat (sent - of_nat (length xs))) = real (unat sent) - real (length xs)"
    using unat_sub [OF le] received n by (simp del: of_nat_unat)
  have median: "calculate_percentile exact (map Fin (sort xs)) (Fin 50) = Some (Fin (interpolate (sort xs) (rank_of (sort xs) 50)))"
    using percentile_exact [of "sort xs" 50] assms(1) small by (cases "sort xs = []") (metis length_0_conv length_sort, simp)
  have sent0: "unat sent \<noteq> 0" using n \<open>0 < length xs\<close> by linarith
  have "0 \<le> (\<Sum>x\<leftarrow>xs. (x - c) ^ 2) / real (length xs - 1)" for c :: real
    by (intro divide_nonneg_nonneg sum_squares_nonneg) simp
  then show ?thesis using assms(1) pos lost median sent0 jitter_exact [of xs] extremes_exact [OF assms(1)] \<open>0 < length xs\<close>
    by (simp add: probe_report_def exact_report_def Let_def of_nat_diff del: of_nat_unat) (use sent0 in blast)
qed

definition silent_report :: "string \<Rightarrow> u32 \<Rightarrow> xreal PingProbeReport" where
  "silent_report target sent =
     \<lparr>target_endpoint = target, packets_sent = sent, packets_received = 0, packet_loss_percent = Fin 100,
      min_rtt_ms = Fin 0, avg_rtt_ms = Fin 0, max_rtt_ms = Fin 0, median_rtt_ms = Fin 0, jitter_ms = Fin 0,
      rtt_std_dev_ms = Fin 0\<rparr>"

definition sound_report :: "UdpProbeConfig \<Rightarrow> xreal PingProbeReport \<Rightarrow> bool" where
  "sound_report cfg r \<longleftrightarrow>
     packets_sent r = packet_count cfg \<and> packets_received r \<le> packets_sent r \<and>
     Fin 0 \<le> packet_loss_percent r \<and> packet_loss_percent r \<le> Fin 100 \<and>
     finite_f64 (max_rtt_ms r) \<and> Fin 0 \<le> min_rtt_ms r \<and> min_rtt_ms r \<le> median_rtt_ms r \<and> median_rtt_ms r \<le> max_rtt_ms r \<and>
     min_rtt_ms r \<le> avg_rtt_ms r \<and> avg_rtt_ms r \<le> max_rtt_ms r \<and>
     Fin 0 \<le> jitter_ms r \<and> jitter_ms r \<le> max_rtt_ms r - min_rtt_ms r \<and> Fin 0 \<le> rtt_std_dev_ms r"

lemma sort_extremes:
  assumes "xs \<noteq> []"
  shows "sort xs ! 0 = Min (set xs)" and "sort xs ! (length xs - 1) = Max (set (xs :: real list))"
proof -
  have "length xs - 1 < length xs" using assms by (cases xs) simp_all
  then have at: "sort xs ! 0 \<in> set xs" "sort xs ! (length xs - 1) \<in> set xs"
    using nth_mem [of _ "sort xs"] by (metis assms length_greater_0_conv length_sort set_sort)+
  show "sort xs ! 0 = Min (set xs)" using sort_bounds at(1) by (metis List.finite_set Min_eqI)
  show "sort xs ! (length xs - 1) = Max (set xs)" using sort_bounds at(2) by (metis List.finite_set Max_eqI)
qed

lemma silent_report_sound: "sound_report cfg (silent_report target (packet_count cfg))"
  by (simp add: sound_report_def silent_report_def finite_f64_def)

lemma exact_report_sound:
  assumes "xs \<noteq> []" and "length xs \<le> unat (packet_count cfg)" and "list_all (\<lambda>t. 0 \<le> t) xs"
  shows "sound_report cfg (exact_report target (packet_count cfg) xs)"
proof -
  let ?n = "real (unat (packet_count cfg))" and ?k = "real (length xs)"
  have scale: "0 \<le> x * 100 \<and> x * 100 \<le> 100" if "0 \<le> x" "x \<le> 1" for x :: real using that by simp
  have k: "0 < ?k" "?k \<le> ?n" using assms(1,2) by (simp_all del: of_nat_unat)
  then have "0 \<le> (?n - ?k) / ?n" "(?n - ?k) / ?n \<le> 1"
    by (simp_all add: divide_le_eq_1 del: of_nat_unat) blast
  then have loss: "0 \<le> (?n - ?k) / ?n * 100" "(?n - ?k) / ?n * 100 \<le> 100" using scale by blast+
  have received: "of_nat (length xs) \<le> packet_count cfg"
    using assms(2) unsigned_less [of "packet_count cfg", where ?'a = nat] by (simp add: word_le_nat_alt unat_of_nat)
  have sorted_ne: "sort xs \<noteq> []" using assms(1) by (metis length_0_conv length_sort)
  have median: "Min (set xs) \<le> interpolate (sort xs) (rank_of (sort xs) 50)" "interpolate (sort xs) (rank_of (sort xs) 50) \<le> Max (set xs)"
    using interpolate_range [OF sorted_sort sorted_ne rank_bounds [OF sorted_ne]] sort_extremes [OF assms(1)] by simp_all
  have nonneg: "0 \<le> Min (set xs)" using assms(1,3) by (simp add: list_all_iff)
  have jitter: "0 \<le> jitter_of xs \<and> jitter_of xs \<le> Max (set xs) - Min (set xs)"
    using median by (intro jitter_bounds) auto
  have "0 \<le> (\<Sum>x\<leftarrow>xs. (x - c) ^ 2) / (?k - 1)" for c
    using assms(1) by (intro divide_nonneg_nonneg sum_squares_nonneg) (cases xs; simp)
  then show ?thesis using loss received median nonneg jitter mean_bounds [OF assms(1)] sort_extremes [OF assms(1)]
    by (simp add: sound_report_def exact_report_def finite_f64_def Let_def del: of_nat_unat)
qed

lemma probe_outcome:
  "\<exists>r m'. probe exact os udp cfg m = Some (r, m') \<and>
     (\<forall>e. r = Inl e \<longrightarrow> m' = m) \<and> (\<forall>report. r = Inr report \<longrightarrow> sound_report cfg report)"
proof (cases "opt_unwrap_or (qpc_frequency os (env m)) 0 = 0 \<or> \<not> udp_bind udp (env m) \<or>
    \<not> udp_set_timeout udp (probe_timeout_ms cfg) (env m)")
  case True
  then show ?thesis by (auto simp: probe_def Let_def)
next
  case False
  let ?f = "opt_unwrap_or (qpc_frequency os (env m)) 0" and ?n = "unat (packet_count cfg)"
  define seqs :: "u32 list" where "seqs = map of_nat [1..<Suc ?n]"
  have n: "length seqs = ?n" by (simp add: seqs_def)
  obtain xs received m' where run: "probe_packets exact os udp cfg ?f seqs (([], 0), m) = ((xs, received), m')"
    by (metis prod.exhaust_sel)
  from probe_packets_answers [of exact os udp cfg ?f seqs "[]" 0 m] have len: "length xs \<le> ?n"
    and received: "received = of_nat (length xs)" and "\<forall>x \<in> set xs. \<exists>t. x = nat_f64 exact (unat (t :: u64)) / lit exact 1000"
    by (auto simp: run n)
  then obtain ts where ts: "xs = map Fin ts" "list_all (\<lambda>t. 0 \<le> t) ts" using probe_rtts_exact by blast
  have "\<exists>report. probe_report exact (probe_target cfg) (of_nat ?n) received xs = Some report \<and> sound_report cfg report"
  proof (cases "ts = []")
    case True
    then show ?thesis using silent_report_sound [of cfg "probe_target cfg"] ts(1) by (simp add: probe_report_def silent_report_def)
  next
    case False
    then show ?thesis using probe_report_exact [OF False, of "packet_count cfg" "probe_target cfg"]
        exact_report_sound [OF False, of cfg "probe_target cfg"] ts len received by simp
  qed
  then show ?thesis using False run by (auto simp: probe_def Let_def seqs_def simp del: upt_Suc)
qed

subsection \<open>The test\<close>

lemma report_delta:
  assumes "sound_report c r" and "sound_report c' r'"
  shows "\<exists>d p. bufferbloat_delta_ms (bufferbloat_report exact cfg r r' t) = Fin d \<and>
    packet_loss_pct (bufferbloat_report exact cfg r r' t) = Fin p \<and> 0 \<le> d \<and> 0 \<le> p \<and> p \<le> 100 \<and>
    grade (bufferbloat_report exact cfg r r' t) = from_latency_delta exact (Fin d) (Fin p)"
proof -
  obtain a b p where "median_rtt_ms r = Fin a" "median_rtt_ms r' = Fin b" "packet_loss_percent r' = Fin p" "0 \<le> p" "p \<le> 100"
  proof -
    have fin': "\<exists>c. x = Fin c \<and> lo \<le> c \<and> c \<le> hi" if "Fin lo \<le> x" "x \<le> Fin hi" for x lo hi
      using that by (cases x) (auto simp: less_eq_xreal_def)
    have med: "\<exists>c. median_rtt_ms q = Fin c" if "sound_report k q" for k q
      using that unfolding sound_report_def
      by (cases "median_rtt_ms q"; cases "min_rtt_ms q"; cases "max_rtt_ms q") (auto simp: less_eq_xreal_def finite_f64_def)
    have "\<exists>c. packet_loss_percent r' = Fin c \<and> 0 \<le> c \<and> c \<le> 100"
      using assms(2) fin' unfolding sound_report_def by blast
    then show ?thesis using med [OF assms(1)] med [OF assms(2)] that by blast
  qed
  then show ?thesis by (auto simp: bufferbloat_report_def f64_max_def Let_def)
qed

lemma run_test_outcome:
  "\<exists>r m'. run_test exact os udp cfg m = Some (r, m') \<and>
     (\<forall>report. r = Inr report \<longrightarrow>
        (\<exists>d p. bufferbloat_delta_ms report = Fin d \<and> packet_loss_pct report = Fin p \<and> 0 \<le> d \<and> 0 \<le> p \<and> p \<le> 100 \<and>
           grade report = from_latency_delta exact (Fin d) (Fin p))) \<and>
     (\<forall>e. r = Inl (UnloadedProbeFailed e) \<longrightarrow> m' = m) \<and>
     ((\<forall>e. r \<noteq> Inl (UnloadedProbeFailed e)) \<longrightarrow> (\<exists>w. env m' = load_end udp w))"
proof -
  let ?c = "\<lambda>n. \<lparr>probe_target = bb_target_addr cfg, packet_count = n, packet_interval_ms = probe_interval_ms cfg,
    probe_timeout_ms = bb_timeout_ms cfg\<rparr>"
  let ?t = "opt_unwrap_or (load_target_addr cfg) (bb_target_addr cfg)"
  obtain r m1 where first: "probe exact os udp (?c (probe_count_unloaded cfg)) m = Some (r, m1)"
    "\<forall>e. r = Inl e \<longrightarrow> m1 = m" "\<forall>x. r = Inr x \<longrightarrow> sound_report (?c (probe_count_unloaded cfg)) x"
    using probe_outcome by blast
  show ?thesis
  proof (cases r)
    case (Inl e)
    then show ?thesis using first by (simp add: run_test_def Let_def)
  next
    case (Inr unloaded)
    let ?m2 = "sleep os 150 (m1\<lparr>env := load_begin udp (load_concurrency cfg) ?t (env m1)\<rparr>)"
    obtain r' m3 where second: "probe exact os udp (?c (probe_count_loaded cfg)) ?m2 = Some (r', m3)"
      "\<forall>x. r' = Inr x \<longrightarrow> sound_report (?c (probe_count_loaded cfg)) x"
      using probe_outcome by blast
    then show ?thesis using first Inr report_delta
      by (cases r') (auto simp: run_test_def Let_def)
  qed
qed

subsection \<open>What a test leaves alone\<close>

lemma probe_packet_machine:
  "files (snd (probe_packet L os udp cfg f seq s)) = files (snd s) \<and> log (snd (probe_packet L os udp cfg f seq s)) = log (snd s)"
  by (cases s; cases "fst s") (simp add: probe_packet_def Let_def case_prod_beta)

lemma probe_packets_machine:
  "files (snd (probe_packets L os udp cfg f seqs s)) = files (snd s) \<and> log (snd (probe_packets L os udp cfg f seqs s)) = log (snd s)"
  unfolding probe_packets_def by (induction seqs arbitrary: s) (simp_all add: probe_packet_machine)

lemma probe_machine:
  assumes "probe L os udp cfg m = Some (r, m')"
  shows "files m' = files m \<and> log m' = log m"
proof -
  let ?run = "\<lambda>f. probe_packets L os udp cfg f (map of_nat [1..<Suc (unat (packet_count cfg))]) (([], 0), m)"
  have "m' = m \<or> (\<exists>f. m' = snd (?run f))"
    using assms by (auto simp: probe_def Let_def case_prod_beta split: if_splits Option.bind_splits)
  then show ?thesis using probe_packets_machine by (metis snd_conv)
qed

lemma run_test_machine:
  assumes "run_test L os udp cfg m = Some (r, m')"
  shows "files m' = files m \<and> log m' = log m"
  using assms probe_machine [of L os udp]
  by (fastforce simp: run_test_def Let_def case_prod_beta split: sum.splits Option.bind_splits)

lemma run_isolated_test_machine:
  "run_isolated_test L os udp a m = Some (r, m') \<Longrightarrow> files m' = files m \<and> log m' = log m"
  using run_test_machine by (fastforce simp: run_isolated_test_def split: option.splits)

subsection \<open>A late reply\<close>

lemma stale_reply_skips:
  assumes send: "\<And>p t w. fst (udp_send udp p t w) \<and> inbox (snd (udp_send udp p t w)) = inbox w @ [reply_seq p]"
    and recv: "\<And>d w s q. inbox w = s # q \<Longrightarrow>
      \<exists>data w'. udp_recv udp d w = (Some data, w') \<and> reply_seq data = s \<and> inbox w' = q"
    and asleep: "\<And>d w. inbox (sleep_ms os d w) = inbox w"
    and late: "inbox (env m) = [old]" and "old \<noteq> seq"
  shows "\<exists>m'. probe_packet L os udp cfg f seq (a, m) = (a, m') \<and> inbox (env m') = [seq]"
proof -
  obtain rtts received where a: "a = (rtts, received)" by (cases a)
  let ?p = "probe_payload seq (get_qpc_time_us L udp f (env m))"
  obtain w where w: "udp_send udp ?p (probe_target cfg) (env m) = (True, w)" "inbox w = [old, seq]"
    using send [of ?p "probe_target cfg" "env m"] late by (cases "udp_send udp ?p (probe_target cfg) (env m)") auto
  obtain data w' where r: "udp_recv udp (probe_timeout_ms cfg) w = (Some data, w')" "reply_seq data = old" "inbox w' = [seq]"
    using recv [OF w(2)] by blast
  show ?thesis using w r assms(5) asleep by (simp add: probe_packet_def Let_def advance_def a)
qed

lemma stale_reply_loses_the_rest:
  assumes send: "\<And>p t w. fst (udp_send udp p t w) \<and> inbox (snd (udp_send udp p t w)) = inbox w @ [reply_seq p]"
    and recv: "\<And>d w s q. inbox w = s # q \<Longrightarrow>
      \<exists>data w'. udp_recv udp d w = (Some data, w') \<and> reply_seq data = s \<and> inbox w' = q"
    and asleep: "\<And>d w. inbox (sleep_ms os d w) = inbox w"
    and late: "inbox (env m) = [of_nat k]" and "k + n < 2 ^ 32"
  shows "fst (probe_packets L os udp cfg f (map of_nat [Suc k..<Suc (k + n)]) (a, m)) = a"
  using late assms(5)
proof (induction n arbitrary: k m)
  case (Suc n)
  have "[Suc k..<Suc (k + Suc n)] = Suc k # [Suc (Suc k)..<Suc (Suc k + n)]" by (simp add: upt_conv_Cons del: upt_Suc)
  moreover have "(of_nat k :: u32) \<noteq> of_nat (Suc k)" using Suc.prems(2)
    by (metis add_right_cancel of_nat_Suc one_neq_zero add_0 add.commute)
  then obtain m' where "probe_packet L os udp cfg f (of_nat (Suc k)) (a, m) = (a, m')" "inbox (env m') = [of_nat (Suc k)]"
    using stale_reply_skips [OF send recv asleep Suc.prems(1)] by blast
  moreover have "fst (probe_packets L os udp cfg f (map of_nat [Suc (Suc k)..<Suc (Suc k + n)]) (a, m')) = a"
    using Suc.IH [OF calculation(3)] Suc.prems(2) by simp
  ultimately show ?case by (simp add: probe_packets_def del: upt_Suc of_nat_Suc)
qed (simp add: probe_packets_def)

section \<open>Properties\<close>


text \<open>
  C33: The bufferbloat test always returns. It fails at the idle probe without
  touching the machine, or the load it started is ended whatever the loaded probe did, and a report
  has a delta that is never negative, and the grade of that delta and loss; a larger delta or a
  larger loss never gives a better grade.
\<close>

theorem bufferbloat_test_graded:
  "(\<exists>r m'. run_test exact os udp cfg m = Some (r, m') \<and>
      (case r of
         Inl (UnloadedProbeFailed e) \<Rightarrow> m' = m
       | Inl _ \<Rightarrow> (\<exists>w. env m' = load_end udp w)
       | Inr report \<Rightarrow> (\<exists>w. env m' = load_end udp w) \<and>
           (\<exists>d p. bufferbloat_delta_ms report = Fin d \<and> packet_loss_pct report = Fin p \<and> 0 \<le> d \<and> 0 \<le> p \<and> p \<le> 100 \<and>
              grade report = from_latency_delta exact (Fin d) (Fin p)))) \<and>
   (d \<le> d' \<longrightarrow> p \<le> p' \<longrightarrow> from_latency_delta exact (Fin d) (Fin p) \<le> from_latency_delta exact (Fin d') (Fin p'))"
proof (rule conjI)
  obtain r m' where run: "run_test exact os udp cfg m = Some (r, m')"
    "\<forall>report. r = Inr report \<longrightarrow>
       (\<exists>d p. bufferbloat_delta_ms report = Fin d \<and> packet_loss_pct report = Fin p \<and> 0 \<le> d \<and> 0 \<le> p \<and> p \<le> 100 \<and>
          grade report = from_latency_delta exact (Fin d) (Fin p))"
    "\<forall>e. r = Inl (UnloadedProbeFailed e) \<longrightarrow> m' = m"
    "(\<forall>e. r \<noteq> Inl (UnloadedProbeFailed e)) \<longrightarrow> (\<exists>w. env m' = load_end udp w)"
    using run_test_outcome by blast
  then show "\<exists>r m'. run_test exact os udp cfg m = Some (r, m') \<and>
      (case r of
         Inl (UnloadedProbeFailed e) \<Rightarrow> m' = m
       | Inl _ \<Rightarrow> (\<exists>w. env m' = load_end udp w)
       | Inr report \<Rightarrow> (\<exists>w. env m' = load_end udp w) \<and>
           (\<exists>d p. bufferbloat_delta_ms report = Fin d \<and> packet_loss_pct report = Fin p \<and> 0 \<le> d \<and> 0 \<le> p \<and> p \<le> 100 \<and>
              grade report = from_latency_delta exact (Fin d) (Fin p)))"
    by (intro exI [of _ r] exI [of _ m']) (auto split: sum.split bufferbloat_error.split)
qed (simp add: grade_mono)

text \<open>An echo network whose queue of replies is the list of pairs of the demonstration world.\<close>

definition demo_udp :: "world udp" where
  "demo_udp =
     \<lparr>qpc_counter = (\<lambda>w. int (10000 * w_clock w)), udp_bind = (\<lambda>w. True), udp_set_timeout = (\<lambda>d w. True),
      udp_send = (\<lambda>p t w. (True, w\<lparr>w_windows := w_windows w @ [(0, reply_seq p)]\<rparr>)),
      udp_recv = (\<lambda>d w. case w_windows w of [] \<Rightarrow> (None, w)
                        | (_, s) # q \<Rightarrow> (Some (probe_payload s 0), w\<lparr>w_windows := q\<rparr>)),
      load_begin = (\<lambda>n t w. w), load_end = (\<lambda>w. w)\<rparr>"

theorem bufferbloat_test_graded_witness:
  "\<exists>r m'. run_test exact demo_os demo_udp default_bufferbloat_config demo_machine = Some (r, m') \<and>
     from_latency_delta exact (Fin 4) (Fin 0) \<le> from_latency_delta exact (Fin 40) (Fin 1)"
  using bufferbloat_test_graded [of demo_os demo_udp default_bufferbloat_config demo_machine 4 40 0 1] by auto

text \<open>
  C34: A reply that arrives after its timeout is never discarded. On a network that
  answers every packet and delivers the answers in order, if the answer to packet \<open>k\<close> is still
  queued when packet \<open>k + 1\<close> is sent, that packet and every later one is counted as lost, because
  each receives the answer to the one before it.
\<close>

theorem late_reply_loses_the_rest:
  assumes send: "\<And>p t w. fst (udp_send udp p t w) \<and> inbox (snd (udp_send udp p t w)) = inbox w @ [reply_seq p]"
    and recv: "\<And>d w s q. inbox w = s # q \<Longrightarrow>
      \<exists>data w'. udp_recv udp d w = (Some data, w') \<and> reply_seq data = s \<and> inbox w' = q"
    and asleep: "\<And>d w. inbox (sleep_ms os d w) = inbox w"
    and late: "inbox (env m) = [of_nat k]" and "k + n < 2 ^ 32"
  shows "fst (probe_packets L os udp cfg f (map of_nat [Suc k..<Suc (k + n)]) (a, m)) = a"
  by (rule stale_reply_loses_the_rest [OF assms])

theorem late_reply_loses_the_rest_witness:
  "fst (probe_packets exact demo_os demo_udp default_probe_config 10000000 (map of_nat [Suc 1..<Suc (1 + 49)])
     (([Fin 20], 1), demo_machine\<lparr>env := demo_world\<lparr>w_windows := [(0, 1)]\<rparr>\<rparr>)) = ([Fin 20], 1)"
  by (rule late_reply_loses_the_rest [of demo_udp "\<lambda>w. map snd (w_windows w)"])
     (auto simp: demo_udp_def demo_os_def)

end
