(* ===== verification/Safety_Db.thy ===== *)
theory Safety_Db
  imports Prelude
begin

text \<open>
  The process and service safety taxonomy: \<^verbatim>\<open>process/safety_db.rs\<close> with the tier enumeration
  of \<^verbatim>\<open>models/process.rs\<close>. The two hash maps of \<^verbatim>\<open>ProcessSafetyDb\<close> are maps from lower-case
  names to tiers, filled in the order in which the constructor inserts. The interface the rest
  of the program relies on (a gate that refuses Tier 0) is the locale \<open>safety_gate\<close>, which both
  the process gate and the service gate interpret.
\<close>

section \<open>Tiers and violations\<close>

datatype ProcessTier =
    Tier0Protected
  | Tier1Driver
  | Tier2SafeTerminate
  | Tier3ServicePause
  | Unknown

datatype SafetyViolationError =
    ProtectedProcess string
  | ProtectedService string

record ProcessSafetyDb =
  process_tiers :: "string \<rightharpoonup> ProcessTier"
  service_tiers :: "string \<rightharpoonup> ProcessTier"

section \<open>The tables\<close>

definition tier0_procs :: "string list" where
  "tier0_procs =
    [''system'', ''smss.exe'', ''csrss.exe'', ''wininit.exe'', ''services.exe'', ''lsass.exe'',
     ''winlogon.exe'', ''dwm.exe'', ''fontdrvhost.exe'', ''audiodg.exe'', ''ctfmon.exe'',
     ''svchost.exe'', ''registry'', ''memory compression'', ''explorer.exe'', ''vgc.exe'',
     ''vgk.sys'', ''riotclientservices.exe'', ''valorant.exe'', ''valorant-win64-shipping.exe'',
     ''val-opt-core.exe'', ''val-opt-cli.exe'', ''val-opt-gui.exe'']"

definition tier0_services :: "string list" where
  "tier0_services =
    [''vgc'', ''vgk'', ''cryptsvc'', ''rpcss'', ''rpceptmapper'', ''bfe'', ''dnscache'', ''dhcp'',
     ''audioendpointbuilder'', ''audiosrv'', ''mpssvc'', ''windefend'', ''securityhealthservice'',
     ''wuauserv'']"

definition tier1_procs :: "string list" where
  "tier1_procs =
    [''amdfendrsr.exe'', ''radeonsoftware.exe'', ''amdow.exe'', ''nvcontainer.exe'',
     ''nvidia web helper.exe'', ''nvdisplay.container.exe'', ''lghub.exe'', ''lghub_agent.exe'',
     ''razersynapse.exe'', ''rzsynapse.exe'']"

definition tier2_procs :: "string list" where
  "tier2_procs =
    [''brave.exe'', ''chrome.exe'', ''msedge.exe'', ''firefox.exe'', ''opera.exe'', ''vivaldi.exe'',
     ''discord.exe'', ''slack.exe'', ''spotify.exe'', ''teams.exe'',
     ''steam.exe'', ''steamwebhelper.exe'', ''epicgameslauncher.exe'', ''battle.net.exe'',
     ''galaxyclient.exe'', ''overwolf.exe'', ''medal.exe'',
     ''riotclientux.exe'', ''riotclientuxrender.exe'',
     ''onedrive.exe'', ''dropbox.exe'', ''googledrivefs.exe'', ''searchindexer.exe'']"

definition tier3_services :: "string list" where
  "tier3_services = [''sysmain'', ''diagtrack'', ''spooler'']"

text \<open>\<open>for x in names { map.insert(x.to_lowercase(), tier); }\<close>\<close>

fun insert_all :: "ProcessTier \<Rightarrow> string list \<Rightarrow> (string \<rightharpoonup> ProcessTier) \<Rightarrow> (string \<rightharpoonup> ProcessTier)"
where
  "insert_all t [] m = m"
| "insert_all t (x # xs) m = insert_all t xs (m(to_lowercase x \<mapsto> t))"

definition new_db :: ProcessSafetyDb where
  "new_db =
    \<lparr>process_tiers =
       insert_all Tier2SafeTerminate tier2_procs
         (insert_all Tier1Driver tier1_procs
           (insert_all Tier0Protected tier0_procs Map.empty)),
     service_tiers =
       insert_all Tier3ServicePause tier3_services
         (insert_all Tier0Protected tier0_services Map.empty)\<rparr>"

section \<open>Classification and the two gates\<close>

definition classify_process :: "ProcessSafetyDb \<Rightarrow> string \<Rightarrow> ProcessTier" where
  "classify_process db name =
     (let clean = to_lowercase name in opt_unwrap_or (process_tiers db clean) Unknown)"

definition classify_service :: "ProcessSafetyDb \<Rightarrow> string \<Rightarrow> ProcessTier" where
  "classify_service db name =
     (let clean = to_lowercase name in opt_unwrap_or (service_tiers db clean) Unknown)"

definition assert_safe_to_kill ::
  "ProcessSafetyDb \<Rightarrow> string \<Rightarrow> (SafetyViolationError, unit) rust_result" where
  "assert_safe_to_kill db name =
     (let tier = classify_process db name
      in if tier = Tier0Protected then Err (ProtectedProcess name) else Ok ())"

definition assert_safe_to_stop_service ::
  "ProcessSafetyDb \<Rightarrow> string \<Rightarrow> (SafetyViolationError, unit) rust_result" where
  "assert_safe_to_stop_service db name =
     (let tier = classify_service db name
      in if tier = Tier0Protected then Err (ProtectedService name) else Ok ())"

section \<open>The table lookup\<close>

lemma insert_all_lookup:
  "insert_all t xs m k = (if k \<in> set (map to_lowercase xs) then Some t else m k)"
  by (induction xs arbitrary: m) auto

lemma tables_lowercase:
  "map to_lowercase tier0_procs = tier0_procs" "map to_lowercase tier1_procs = tier1_procs"
  "map to_lowercase tier2_procs = tier2_procs"
  "map to_lowercase tier0_services = tier0_services"
  "map to_lowercase tier3_services = tier3_services"
  by code_simp+

lemma tables_disjoint:
  "set tier0_procs \<inter> set tier1_procs = {}" "set tier0_procs \<inter> set tier2_procs = {}"
  "set tier1_procs \<inter> set tier2_procs = {}" "set tier0_services \<inter> set tier3_services = {}"
  by code_simp+

lemma process_tiers_new_db:
  "process_tiers new_db k =
     (if k \<in> set tier2_procs then Some Tier2SafeTerminate
      else if k \<in> set tier1_procs then Some Tier1Driver
      else if k \<in> set tier0_procs then Some Tier0Protected else None)"
  by (simp add: new_db_def insert_all_lookup tables_lowercase)

lemma service_tiers_new_db:
  "service_tiers new_db k =
     (if k \<in> set tier3_services then Some Tier3ServicePause
      else if k \<in> set tier0_services then Some Tier0Protected else None)"
  by (simp add: new_db_def insert_all_lookup tables_lowercase)

lemma classify_process_new_db:
  "classify_process new_db n = Tier0Protected \<longleftrightarrow> to_lowercase n \<in> set tier0_procs"
  "classify_process new_db n = Tier1Driver \<longleftrightarrow> to_lowercase n \<in> set tier1_procs"
  "classify_process new_db n = Tier2SafeTerminate \<longleftrightarrow> to_lowercase n \<in> set tier2_procs"
  "classify_process new_db n \<noteq> Tier3ServicePause"
  using tables_disjoint by (auto simp: classify_process_def process_tiers_new_db Let_def split: if_splits)

lemma classify_service_new_db:
  "classify_service new_db n = Tier0Protected \<longleftrightarrow> to_lowercase n \<in> set tier0_services"
  "classify_service new_db n = Tier3ServicePause \<longleftrightarrow> to_lowercase n \<in> set tier3_services"
  "classify_service new_db n \<noteq> Tier1Driver" "classify_service new_db n \<noteq> Tier2SafeTerminate"
  using tables_disjoint by (auto simp: classify_service_def service_tiers_new_db Let_def split: if_splits)

lemma classify_lower [simp]:
  "classify_process db (to_lowercase n) = classify_process db n"
  "classify_service db (to_lowercase n) = classify_service db n"
  by (simp_all add: classify_process_def classify_service_def)

section \<open>The gate as an interface\<close>

text \<open>
  What the killers and stoppers rely on: a classification that ignores case, a check that
  refuses exactly the Tier 0 names and names the refused subject in its error.
\<close>

locale safety_gate =
  fixes classify :: "string \<Rightarrow> ProcessTier"
    and check :: "string \<Rightarrow> (SafetyViolationError, unit) rust_result"
    and violation :: "string \<Rightarrow> SafetyViolationError"
    and protected :: "string set"
  assumes classify_case: "classify (to_lowercase n) = classify n"
    and classify_protected: "classify n = Tier0Protected \<longleftrightarrow> to_lowercase n \<in> protected"
    and check_blocks: "classify n = Tier0Protected \<Longrightarrow> check n = Err (violation n)"
    and check_passes: "classify n \<noteq> Tier0Protected \<Longrightarrow> check n = Ok ()"
begin

lemma check_cases:
  "check n = (if to_lowercase n \<in> protected then Err (violation n) else Ok ())"
  by (cases "classify n = Tier0Protected")
    (auto simp: check_blocks check_passes classify_protected)

lemma same_name_same_tier:
  "eq_ignore_ascii_case a b \<Longrightarrow> classify a = classify b"
  by (metis classify_case eq_ignore_ascii_case_def)

lemma same_name_same_verdict:
  "eq_ignore_ascii_case a b \<Longrightarrow> is_ok (check a) = is_ok (check b)"
  by (simp add: check_cases eq_ignore_ascii_case_def)

end

interpretation process_gate:
  safety_gate "classify_process new_db" "assert_safe_to_kill new_db" ProtectedProcess
    "set tier0_procs"
  by unfold_locales
    (auto simp: assert_safe_to_kill_def classify_process_new_db(1) Let_def)

interpretation service_gate:
  safety_gate "classify_service new_db" "assert_safe_to_stop_service new_db" ProtectedService
    "set tier0_services"
  by unfold_locales
    (auto simp: assert_safe_to_stop_service_def classify_service_new_db(1) Let_def)

section \<open>Properties\<close>

text \<open>
  C1: the termination gate refuses exactly the Tier 0 processes, whatever the case of the name,
  and reports the name it was given.
\<close>

theorem kill_gate_exact:
  "assert_safe_to_kill new_db n =
     (if to_lowercase n \<in> set tier0_procs then Err (ProtectedProcess n) else Ok ())"
  by (rule process_gate.check_cases)

end
