(* ===== verification/Services.thy ===== *)
theory Services
  imports Win32_Demo Safety_Db "HOL-Library.Monad_Syntax"
begin

text \<open>
  \<^verbatim>\<open>process/services.rs\<close>: querying, stopping and starting Windows services, and the pausing and
  restoring of the non-essential Tier 3 services. Stopping waits for the service in a loop whose
  end depends on the clock, so \<open>wait_stopped\<close> is a partial function with values in
  \<open>option\<close> (\<open>None\<close> is not returning), and \<open>wait_stopped_returns\<close> shows that it returns when
  the clock advances.
\<close>

section \<open>The model\<close>

definition SERVICE_STOPPED :: u32 where "SERVICE_STOPPED = 1"
definition SERVICE_RUNNING :: u32 where "SERVICE_RUNNING = 4"

record ServiceBackup =
  service_name :: string
  display_name :: string
  previous_state :: u32
  was_paused_by_optimizer :: bool

datatype service_error =
    ScmOpenFailed
  | ServiceOpenFailed string
  | QueryServiceStatusFailed string
  | StartServiceFailed string

definition TARGET_TIER3_SERVICES :: "string list" where
  "TARGET_TIER3_SERVICES = [''SysMain'', ''DiagTrack'', ''Spooler'']"

definition query_service_state ::
  "'w win32 \<Rightarrow> string \<Rightarrow> 'w machine \<Rightarrow> (service_error, u32) rust_result" where
  "query_service_state os name m =
     (if \<not> scm_open os (env m) then Err ScmOpenFailed
      else if \<not> service_open os name QUERY_STATUS (env m) then Err (ServiceOpenFailed name)
      else case service_status os name (env m) of
             None \<Rightarrow> Err (QueryServiceStatusFailed name)
           | Some st \<Rightarrow> Ok st)"

text \<open>
  The waiting loop: as long as less than two seconds have passed, ask for the status and
  sleep for 100 ms. \<open>Instant::elapsed\<close> saturates at zero, as subtraction on \<open>nat\<close> does.
\<close>

partial_function (option) wait_stopped ::
  "'w win32 \<Rightarrow> string \<Rightarrow> nat \<Rightarrow> 'w machine \<Rightarrow> (bool \<times> 'w machine) option" where
  "wait_stopped os name start m =
     (if clock_ms os (env m) - start < 2000 then
        if service_status os name (env m) = Some SERVICE_STOPPED then Some (True, m)
        else wait_stopped os name start (sleep os 100 m)
      else Some (False, m))"

definition ControlServiceStop :: "'w win32 \<Rightarrow> string \<Rightarrow> 'w machine \<Rightarrow> 'w machine" where
  "ControlServiceStop os name = call_unit (StopService name) (service_stop os name)"

definition stop_service ::
  "'w win32 \<Rightarrow> ProcessSafetyDb \<Rightarrow> string \<Rightarrow> 'w machine \<Rightarrow>
     ((SafetyViolationError, ServiceBackup) rust_result \<times> 'w machine) option" where
  "stop_service os db name m =
     (case assert_safe_to_stop_service db name of
        Inl e \<Rightarrow> Some (Err e, m)
      | Inr _ \<Rightarrow>
          let backup = \<lparr>service_name = name, display_name = name,
                        previous_state = SERVICE_STOPPED, was_paused_by_optimizer = False\<rparr>
          in if \<not> scm_open os (env m) then Some (Ok backup, m)
             else if \<not> service_open os name QUERY_AND_STOP (env m) then Some (Ok backup, m)
             else case service_status os name (env m) of
                    None \<Rightarrow> Some (Ok backup, m)
                  | Some st \<Rightarrow>
                      let backup = backup\<lparr>previous_state := st\<rparr>
                      in if st = SERVICE_RUNNING then
                           (let m = ControlServiceStop os name m;
                                start = clock_ms os (env m)
                            in do {
                                 (stopped, m) \<leftarrow> wait_stopped os name start m;
                                 Some (Ok (backup\<lparr>was_paused_by_optimizer := stopped\<rparr>), m)
                               })
                         else Some (Ok backup, m))"

definition start_service ::
  "'w win32 \<Rightarrow> string \<Rightarrow> 'w machine \<Rightarrow> (service_error, unit) rust_result \<times> 'w machine" where
  "start_service os name m =
     (if \<not> scm_open os (env m) then (Err ScmOpenFailed, m)
      else if \<not> service_open os name START_AND_QUERY (env m) then (Err (ServiceOpenFailed name), m)
      else let (ok, m) = call (StartService name) (service_start os name) m
           in if ok then (Ok (), m) else (Err (StartServiceFailed name), m))"

fun pause_services ::
  "'w win32 \<Rightarrow> ProcessSafetyDb \<Rightarrow> string list \<Rightarrow> ServiceBackup list \<Rightarrow> 'w machine \<Rightarrow>
     (ServiceBackup list \<times> 'w machine) option" where
  "pause_services os db [] backups m = Some (backups, m)"
| "pause_services os db (svc # svcs) backups m =
     do {
       (r, m) \<leftarrow> stop_service os db svc m;
       case r of
         Inr backup \<Rightarrow>
           if was_paused_by_optimizer backup
           then pause_services os db svcs (backups @ [backup]) m
           else pause_services os db svcs backups m
       | Inl _ \<Rightarrow> pause_services os db svcs backups m
     }"

definition pause_tier3_services ::
  "'w win32 \<Rightarrow> ProcessSafetyDb \<Rightarrow> 'w machine \<Rightarrow> (ServiceBackup list \<times> 'w machine) option" where
  "pause_tier3_services os db m = pause_services os db TARGET_TIER3_SERVICES [] m"

fun restore_tier3_services ::
  "'w win32 \<Rightarrow> ServiceBackup list \<Rightarrow> 'w machine \<Rightarrow> 'w machine" where
  "restore_tier3_services os [] m = m"
| "restore_tier3_services os (svc # svcs) m =
     (let m = (if was_paused_by_optimizer svc then snd (start_service os (service_name svc) m) else m)
      in restore_tier3_services os svcs m)"

section \<open>The waiting loop returns\<close>

lemma wait_stopped_returns:
  assumes "clock_laws os"
  shows "\<exists>b m'. wait_stopped os name start m = Some (b, m') \<and> log m' = log m \<and> files m' = files m \<and>
           (b \<longleftrightarrow> service_status os name (env m') = Some SERVICE_STOPPED \<and>
                  clock_ms os (env m') - start < 2000)"
proof (induction "start + 2000 - clock_ms os (env m)" arbitrary: m rule: less_induct)
  case less
  show ?case
  proof (cases "clock_ms os (env m) - start < 2000 \<and>
      service_status os name (env m) \<noteq> Some SERVICE_STOPPED")
    case True
    have "clock_ms os (env m) + 100 \<le> clock_ms os (env (sleep os 100 m))"
      using clock_law [OF assms] by simp
    then have "start + 2000 - clock_ms os (env (sleep os 100 m)) < start + 2000 - clock_ms os (env m)"
      using True by linarith
    from less [OF this] True show ?thesis
      by (subst wait_stopped.simps) simp
  next
    case False
    then show ?thesis by (subst wait_stopped.simps) auto
  qed
qed

section \<open>What stopping and pausing do\<close>

lemma stop_service_blocked:
  "assert_safe_to_stop_service db name = Err e \<Longrightarrow> stop_service os db name m = Some (Err e, m)"
  by (simp add: stop_service_def)

lemma stop_service_allowed:
  assumes "clock_laws os" and "assert_safe_to_stop_service db name = Ok ()"
  shows "\<exists>b m'. stop_service os db name m = Some (Ok b, m') \<and> service_name b = name \<and>
           files m' = files m \<and>
           (log m' = log m \<or> log m' = log m @ [StopService name]) \<and>
           (was_paused_by_optimizer b \<longrightarrow>
              previous_state b = SERVICE_RUNNING \<and> log m' = log m @ [StopService name] \<and>
              service_status os name (env m') = Some SERVICE_STOPPED)"
proof -
  let ?m = "ControlServiceStop os name m"
  obtain s m' where "wait_stopped os name (clock_ms os (env ?m)) ?m = Some (s, m')"
    and "log m' = log ?m" and "files m' = files ?m"
    and "s \<longrightarrow> service_status os name (env m') = Some SERVICE_STOPPED"
    using wait_stopped_returns [OF assms(1)] by metis
  then show ?thesis
    using assms(2)
    by (auto simp: stop_service_def Let_def ControlServiceStop_def split: option.split)
qed

lemma pause_services_total:
  assumes "clock_laws os"
  shows "\<exists>bs m'. pause_services os db svcs acc m = Some (acc @ bs, m') \<and> files m' = files m \<and>
           (\<exists>stops. log m' = log m @ map StopService stops \<and> subseq stops svcs \<and>
              subseq (map service_name bs) stops \<and>
              (\<forall>n \<in> set stops. classify_service db n \<noteq> Tier0Protected)) \<and>
           (\<forall>b \<in> set bs. was_paused_by_optimizer b \<and> previous_state b = SERVICE_RUNNING)"
proof (induction svcs arbitrary: acc m)
  case Nil
  then show ?case by (auto intro: exI [of _ "[]"])
next
  case (Cons svc svcs)
  show ?case
  proof (cases "assert_safe_to_stop_service db svc")
    case (Inl e)
    with Cons [of acc m] show ?thesis
      by (fastforce simp: stop_service_blocked)
  next
    case (Inr u)
    then have tier: "classify_service db svc \<noteq> Tier0Protected"
      by (auto simp: assert_safe_to_stop_service_def Let_def)
    obtain b m1 where stop: "stop_service os db svc m = Some (Ok b, m1)" "service_name b = svc"
      "files m1 = files m" and log1: "log m1 = log m \<or> log m1 = log m @ [StopService svc]"
      and paused: "was_paused_by_optimizer b \<Longrightarrow>
        previous_state b = SERVICE_RUNNING \<and> log m1 = log m @ [StopService svc]"
      using stop_service_allowed [OF assms, of db svc m] Inr by auto
    let ?acc = "if was_paused_by_optimizer b then acc @ [b] else acc"
    obtain bs m2 stops where rest: "pause_services os db svcs ?acc m1 = Some (?acc @ bs, m2)"
      "files m2 = files m1" "log m2 = log m1 @ map StopService stops" "subseq stops svcs"
      "subseq (map service_name bs) stops" "\<forall>n \<in> set stops. classify_service db n \<noteq> Tier0Protected"
      "\<forall>b \<in> set bs. was_paused_by_optimizer b \<and> previous_state b = SERVICE_RUNNING"
      using Cons [of ?acc m1] by blast
    let ?bs = "if was_paused_by_optimizer b then b # bs else bs"
    let ?stops = "if log m1 = log m then stops else svc # stops"
    have "pause_services os db (svc # svcs) acc m = Some (acc @ ?bs, m2)"
      using stop rest(1) by (auto split: if_splits)
    moreover have "log m2 = log m @ map StopService ?stops"
      using rest(3) log1 by auto
    moreover have "subseq ?stops (svc # svcs)" "subseq (map service_name ?bs) ?stops"
      using rest(4,5) paused stop(2) by auto
    moreover have "\<forall>n \<in> set ?stops. classify_service db n \<noteq> Tier0Protected"
      "\<forall>b \<in> set ?bs. was_paused_by_optimizer b \<and> previous_state b = SERVICE_RUNNING"
      using rest(6,7) tier paused by auto
    moreover have "files m2 = files m"
      using rest(2) stop(3) by simp
    ultimately show ?thesis by blast
  qed
qed

lemma restore_log:
  "\<exists>starts. log (restore_tier3_services os bs m) = log m @ map StartService starts \<and>
     subseq starts (map service_name (filter was_paused_by_optimizer bs)) \<and>
     files (restore_tier3_services os bs m) = files m"
proof (induction bs arbitrary: m)
  case Nil
  then show ?case by (auto intro: exI [of _ "[]"])
next
  case (Cons b bs)
  have start: "files (snd (start_service os n m)) = files m \<and>
    (log (snd (start_service os n m)) = log m \<or>
     log (snd (start_service os n m)) = log m @ [StartService n])" for n
    by (simp add: start_service_def Let_def case_prod_beta)
  obtain starts where s: "log (restore_tier3_services os (b # bs) m) =
      log (if was_paused_by_optimizer b then snd (start_service os (service_name b) m) else m) @
        map StartService starts"
    "subseq starts (map service_name (filter was_paused_by_optimizer bs))"
    "files (restore_tier3_services os (b # bs) m) = files m"
    using Cons [of "if was_paused_by_optimizer b then snd (start_service os (service_name b) m) else m"]
      start [of "service_name b"] by (auto simp: Let_def)
  show ?case
  proof (cases "was_paused_by_optimizer b \<and>
      log (snd (start_service os (service_name b) m)) = log m @ [StartService (service_name b)]")
    case True
    then show ?thesis using s by (intro exI [of _ "service_name b # starts"]) auto
  next
    case False
    then show ?thesis using s start [of "service_name b"]
      by (intro exI [of _ starts]) (auto split: if_splits)
  qed
qed

lemma restore_log_all:
  assumes "\<And>w. scm_open os w" and "\<And>n w. service_open os n START_AND_QUERY w"
  shows "log (restore_tier3_services os bs m) =
           log m @ map (StartService \<circ> service_name) (filter was_paused_by_optimizer bs)"
proof (induction bs arbitrary: m)
  case Nil
  then show ?case by simp
next
  case (Cons b bs)
  have "log (snd (start_service os n m)) = log m @ [StartService n]" for n
    using assms by (simp add: start_service_def Let_def case_prod_beta)
  with Cons show ?case by (simp add: Let_def)
qed

lemma target_services_tier3:
  "\<forall>n \<in> set TARGET_TIER3_SERVICES. classify_service new_db n = Tier3ServicePause"
  unfolding classify_service_new_db(2) by code_simp

section \<open>Properties\<close>



text \<open>
  stopping a Tier 0 service is refused in any letter case: an error that names it, and no call
  to the system at all.
\<close>

theorem stop_service_refuses_tier0:
  assumes "to_lowercase name \<in> set tier0_services"
  shows "stop_service os new_db name m = Some (Err (ProtectedService name), m)"
  using assms by (simp add: stop_service_blocked service_gate.check_cases)

theorem stop_service_refuses_tier0_witness:
  "to_lowercase ''WuAuServ'' \<in> set tier0_services \<and>
   stop_service demo_os new_db ''WuAuServ'' demo_machine =
     Some (Err (ProtectedService ''WuAuServ''), demo_machine)"
proof -
  have "to_lowercase ''WuAuServ'' \<in> set tier0_services" by code_simp
  from stop_service_refuses_tier0 [OF this] this show ?thesis by blast
qed

text \<open>
  when the service manager and the services open, restoring sends exactly one start to every
  service the optimizer had paused, in order, and none to the others.
\<close>

theorem restore_tier3_restarts_paused:
  assumes "\<And>w. scm_open os w" and "\<And>n w. service_open os n START_AND_QUERY w"
  shows "log (restore_tier3_services os backups m) =
           log m @ map (StartService \<circ> service_name) (filter was_paused_by_optimizer backups)"
  by (rule restore_log_all [OF assms])

definition demo_all_services :: "world win32" where
  "demo_all_services = demo_os\<lparr>service_open := (\<lambda>n a w. True)\<rparr>"

theorem restore_tier3_restarts_paused_witness:
  "log (restore_tier3_services demo_all_services
          [\<lparr>service_name = ''SysMain'', display_name = ''SysMain'', previous_state = 4,
            was_paused_by_optimizer = True\<rparr>,
           \<lparr>service_name = ''Spooler'', display_name = ''Spooler'', previous_state = 1,
            was_paused_by_optimizer = False\<rparr>] demo_machine) = [StartService ''SysMain'']"
  by (subst restore_tier3_restarts_paused) (simp_all add: demo_all_services_def demo_os_def demo_machine_def)

end
