(* ===== verification/Audio.thy ===== *)
theory Audio
  imports Win32_Demo
begin

text \<open>
  \<^verbatim>\<open>optimizations/audio.rs\<close>: the audio render endpoints in the registry, disabling the
  processing objects of every endpoint, and restoring what was there before. Disabling and
  restoring interpret \<open>reversible_setting\<close> with all DWORD values of the registry as the
  observation.
\<close>

section \<open>The model\<close>

definition MMDEVICES_RENDER_PATH :: string where
  "MMDEVICES_RENDER_PATH = win ''SOFTWARE/Microsoft/Windows/CurrentVersion/MMDevices/Audio/Render''"

definition VALUE_DISABLE_SYSFX :: string where
  "VALUE_DISABLE_SYSFX = ''{1da5d803-d492-4edd-8c23-e0c0ffee7f0e},5''"

definition VALUE_FRIENDLY_NAME :: string where
  "VALUE_FRIENDLY_NAME = ''{a45c254e-df1c-4efd-8020-67d146a850e0},2''"

record AudioEndpointInfo =
  id_of :: string
  name_of :: string
  enhancements_disabled :: bool

record AudioEndpointBackup =
  endpoint_id :: string
  endpoint_name :: string
  original_disabled_state :: "u32 option"

definition endpoint_key :: "string \<Rightarrow> string \<Rightarrow> string" where
  "endpoint_key endpoint sub = MMDEVICES_RENDER_PATH @ [backslash] @ endpoint @ [backslash] @ sub"

definition query_endpoint_details :: "'w win32 \<Rightarrow> string \<Rightarrow> 'w machine \<Rightarrow> string \<times> bool" where
  "query_endpoint_details os endpoint_guid m =
     (let prop_path = endpoint_key endpoint_guid ''Properties'';
          name = (if reg_open os HKEY_LOCAL_MACHINE prop_path KEY_READ (env m) = 0
                  then case reg_get_sz os HKEY_LOCAL_MACHINE prop_path VALUE_FRIENDLY_NAME 256 (env m) of
                         Some (_, name_buf) \<Rightarrow> take (length name_buf - 1) name_buf
                       | None \<Rightarrow> ''Audio Endpoint''
                  else ''Audio Endpoint'');
          fx_path = endpoint_key endpoint_guid ''FxProperties'';
          disabled = (if reg_open os HKEY_LOCAL_MACHINE fx_path KEY_READ (env m) = 0
                      then case reg_get_dword os HKEY_LOCAL_MACHINE fx_path VALUE_DISABLE_SYSFX (env m) of
                             Some data \<Rightarrow> data = 1
                           | None \<Rightarrow> False
                      else False)
      in (name, disabled))"

definition enumerate_render_endpoints :: "'w win32 \<Rightarrow> 'w machine \<Rightarrow> AudioEndpointInfo list" where
  "enumerate_render_endpoints os m =
     (if reg_open os HKEY_LOCAL_MACHINE MMDEVICES_RENDER_PATH KEY_READ (env m) \<noteq> 0 then []
      else map (\<lambda>guid. let (name, disabled) = query_endpoint_details os guid m
                       in \<lparr>id_of = guid, name_of = name, enhancements_disabled = disabled\<rparr>)
             (reg_subkeys os HKEY_LOCAL_MACHINE MMDEVICES_RENDER_PATH (env m)))"

text \<open>The body of the loop over the endpoints: a backup when the value was written.\<close>

definition disable_endpoint ::
  "'w win32 \<Rightarrow> AudioEndpointInfo \<Rightarrow> 'w machine \<Rightarrow> AudioEndpointBackup option \<times> 'w machine" where
  "disable_endpoint os ep m =
     (let fx_path = endpoint_key (id_of ep) ''FxProperties'';
          (open_status, m) = RegCreateKeyExW os HKEY_LOCAL_MACHINE fx_path m
      in if open_status \<noteq> 0 then (None, m)
         else
           let orig = reg_get_dword os HKEY_LOCAL_MACHINE fx_path VALUE_DISABLE_SYSFX (env m);
               (set_status, m) = RegSetValueExW os HKEY_LOCAL_MACHINE fx_path VALUE_DISABLE_SYSFX 1 m
           in if set_status = 0
              then (Some \<lparr>endpoint_id = id_of ep, endpoint_name = name_of ep,
                          original_disabled_state = orig\<rparr>, m)
              else (None, m))"

fun disable_endpoints ::
  "'w win32 \<Rightarrow> AudioEndpointInfo list \<Rightarrow> AudioEndpointBackup list \<Rightarrow> 'w machine \<Rightarrow>
     AudioEndpointBackup list \<times> 'w machine" where
  "disable_endpoints os [] backups m = (backups, m)"
| "disable_endpoints os (ep # eps) backups m =
     (case disable_endpoint os ep m of
        (None, m) \<Rightarrow> disable_endpoints os eps backups m
      | (Some b, m) \<Rightarrow> disable_endpoints os eps (backups @ [b]) m)"

text \<open>
  Both operations return a \<^verbatim>\<open>Result\<close> in the source; neither has a failing branch.
\<close>

definition disable_audio_enhancements ::
  "'w win32 \<Rightarrow> 'w machine \<Rightarrow> (unit, AudioEndpointBackup list) rust_result \<times> 'w machine" where
  "disable_audio_enhancements os m =
     (let (backups, m) = disable_endpoints os (enumerate_render_endpoints os m) [] m
      in (Ok backups, m))"

definition restore_endpoint :: "'w win32 \<Rightarrow> AudioEndpointBackup \<Rightarrow> 'w machine \<Rightarrow> 'w machine" where
  "restore_endpoint os backup m =
     (let fx_path = endpoint_key (endpoint_id backup) ''FxProperties''
      in if reg_open os HKEY_LOCAL_MACHINE fx_path KEY_SET_VALUE (env m) \<noteq> 0 then m
         else case original_disabled_state backup of
                Some orig \<Rightarrow>
                  snd (RegSetValueExW os HKEY_LOCAL_MACHINE fx_path VALUE_DISABLE_SYSFX orig m)
              | None \<Rightarrow> snd (RegDeleteValueW os HKEY_LOCAL_MACHINE fx_path VALUE_DISABLE_SYSFX m))"

definition restore_audio_enhancements ::
  "'w win32 \<Rightarrow> AudioEndpointBackup list \<Rightarrow> 'w machine \<Rightarrow> (unit, unit) rust_result \<times> 'w machine" where
  "restore_audio_enhancements os backups m = (Ok (), fold (restore_endpoint os) backups m)"

section \<open>Disabling, seen through the registry\<close>

abbreviation fx_key :: "string \<Rightarrow> string" where
  "fx_key endpoint \<equiv> endpoint_key endpoint ''FxProperties''"

abbreviation set_fx ::
  "string \<Rightarrow> u32 option \<Rightarrow> (hive \<Rightarrow> string \<Rightarrow> string \<Rightarrow> u32 option) \<Rightarrow>
     hive \<Rightarrow> string \<Rightarrow> string \<Rightarrow> u32 option" where
  "set_fx endpoint \<equiv> update_dword HKEY_LOCAL_MACHINE (fx_key endpoint) VALUE_DISABLE_SYSFX"

lemma fx_key_same: "eq_ignore_ascii_case (fx_key a) (fx_key b) \<longleftrightarrow> eq_ignore_ascii_case a b"
  by (simp add: endpoint_key_def eq_ignore_ascii_case_def to_lowercase_def)

text \<open>Writing an audio value succeeds, and so does deleting one that is there.\<close>

definition audio_writable :: "'w win32 \<Rightarrow> bool" where
  "audio_writable os \<longleftrightarrow>
     (\<forall>e v w. fst (reg_set_dword os HKEY_LOCAL_MACHINE (fx_key e) VALUE_DISABLE_SYSFX v w) = 0) \<and>
     (\<forall>e w. reg_get_dword os HKEY_LOCAL_MACHINE (fx_key e) VALUE_DISABLE_SYSFX w \<noteq> None \<longrightarrow>
        fst (reg_delete_value os HKEY_LOCAL_MACHINE (fx_key e) VALUE_DISABLE_SYSFX w) = 0)"

lemma disable_endpoint_none:
  assumes "registry_laws os" and "disable_endpoint os ep m = (None, m')"
  shows "dwords os (env m') = dwords os (env m) \<and> keeps_open os m m'"
proof -
  let ?m1 = "snd (RegCreateKeyExW os HKEY_LOCAL_MACHINE (fx_key (id_of ep)) m)"
  let ?m2 = "snd (RegSetValueExW os HKEY_LOCAL_MACHINE (fx_key (id_of ep)) VALUE_DISABLE_SYSFX 1 ?m1)"
  have "m' = ?m1 \<or> m' = ?m2 \<and>
      fst (RegSetValueExW os HKEY_LOCAL_MACHINE (fx_key (id_of ep)) VALUE_DISABLE_SYSFX 1 ?m1) \<noteq> 0"
    using assms(2) by (auto simp: disable_endpoint_def Let_def case_prod_beta split: if_splits)
  then show ?thesis
    by (auto simp: registry_dwords [OF assms(1)] registry_keeps_open_step [OF assms(1)])
qed

lemma disable_endpoint_some:
  assumes "registry_laws os" and "disable_endpoint os ep m = (Some b, m')"
  shows "endpoint_id b = id_of ep"
    and "original_disabled_state b = dwords os (env m) HKEY_LOCAL_MACHINE (fx_key (id_of ep)) VALUE_DISABLE_SYSFX"
    and "dwords os (env m') = set_fx (id_of ep) (Some 1) (dwords os (env m))"
    and "keeps_open os m m'"
    and "reg_open os HKEY_LOCAL_MACHINE (fx_key (id_of ep)) KEY_SET_VALUE (env m') = 0"
proof -
  let ?m1 = "snd (RegCreateKeyExW os HKEY_LOCAL_MACHINE (fx_key (id_of ep)) m)"
  let ?r2 = "RegSetValueExW os HKEY_LOCAL_MACHINE (fx_key (id_of ep)) VALUE_DISABLE_SYSFX 1 ?m1"
  have eq: "fst (RegCreateKeyExW os HKEY_LOCAL_MACHINE (fx_key (id_of ep)) m) = 0" "fst ?r2 = 0" "m' = snd ?r2"
    "b = \<lparr>endpoint_id = id_of ep, endpoint_name = name_of ep, original_disabled_state =
            reg_get_dword os HKEY_LOCAL_MACHINE (fx_key (id_of ep)) VALUE_DISABLE_SYSFX (env ?m1)\<rparr>"
    using assms(2) by (auto simp: disable_endpoint_def Let_def case_prod_beta split: if_splits)
  show "endpoint_id b = id_of ep"
    "original_disabled_state b = dwords os (env m) HKEY_LOCAL_MACHINE (fx_key (id_of ep)) VALUE_DISABLE_SYSFX"
    "dwords os (env m') = set_fx (id_of ep) (Some 1) (dwords os (env m))" "keeps_open os m m'"
    using eq by (simp_all add: reg_get_dwords registry_dwords [OF assms(1)] registry_keeps_open_step [OF assms(1)])
  have "reg_open os HKEY_LOCAL_MACHINE (fx_key (id_of ep)) KEY_SET_VALUE (env ?m1) = 0"
    using reg_create_law(2) [OF assms(1) surjective_pairing] eq(1) by (simp add: registry_calls)
  then show "reg_open os HKEY_LOCAL_MACHINE (fx_key (id_of ep)) KEY_SET_VALUE (env m') = 0"
    using keeps_openD [OF registry_keeps_open(2) [OF assms(1)]] eq(3) by simp
qed

text \<open>
  The registry after disabling: value 1 at every endpoint of a backup, and everything else as
  it was. The backups hold the previous values.
\<close>

definition apply_backups ::
  "(AudioEndpointBackup \<Rightarrow> u32 option) \<Rightarrow> AudioEndpointBackup list \<Rightarrow>
     (hive \<Rightarrow> string \<Rightarrow> string \<Rightarrow> u32 option) \<Rightarrow> hive \<Rightarrow> string \<Rightarrow> string \<Rightarrow> u32 option" where
  "apply_backups f bs d = fold (\<lambda>b. set_fx (endpoint_id b) (f b)) bs d"

lemma apply_backups_apply:
  "apply_backups f bs d h k n =
     (if h = HKEY_LOCAL_MACHINE \<and> eq_ignore_ascii_case n VALUE_DISABLE_SYSFX
      then (case find (\<lambda>b. eq_ignore_ascii_case k (fx_key (endpoint_id b))) (rev bs) of
              Some b \<Rightarrow> f b | None \<Rightarrow> d h k n)
      else d h k n)"
  by (induction bs arbitrary: d rule: rev_induct) (auto simp: apply_backups_def update_dword_apply)

lemma apply_backups_Cons:
  "apply_backups f (b # bs) d = apply_backups f bs (set_fx (endpoint_id b) (f b) d)"
  by (simp add: apply_backups_def)

definition opens_for_restore :: "'w win32 \<Rightarrow> 'w machine \<Rightarrow> AudioEndpointBackup \<Rightarrow> bool" where
  "opens_for_restore os m b \<longleftrightarrow>
     reg_open os HKEY_LOCAL_MACHINE (fx_key (endpoint_id b)) KEY_SET_VALUE (env m) = 0"

lemma opens_for_restore_later:
  "keeps_open os m m' \<Longrightarrow> opens_for_restore os m b \<Longrightarrow> opens_for_restore os m' b"
  by (simp add: opens_for_restore_def keeps_openD)

lemma disable_endpoints_spec:
  assumes "registry_laws os"
  shows "distinct (map (to_lowercase \<circ> id_of) eps) \<Longrightarrow>
    \<exists>bs m'. disable_endpoints os eps acc m = (acc @ bs, m') \<and> keeps_open os m m' \<and>
      subseq (map endpoint_id bs) (map id_of eps) \<and>
      dwords os (env m') = apply_backups (\<lambda>_. Some 1) bs (dwords os (env m)) \<and>
      (\<forall>b \<in> set bs. opens_for_restore os m' b \<and> original_disabled_state b =
         dwords os (env m) HKEY_LOCAL_MACHINE (fx_key (endpoint_id b)) VALUE_DISABLE_SYSFX)"
proof (induction eps arbitrary: acc m)
  case Nil
  then show ?case by (auto simp: apply_backups_def intro: exI [of _ "[]"])
next
  case (Cons ep eps)
  obtain r m1 where one: "disable_endpoint os ep m = (r, m1)" by fastforce
  show ?case
  proof (cases r)
    case None
    with disable_endpoint_none [OF assms] one have same:
      "dwords os (env m1) = dwords os (env m)" "keeps_open os m m1" by auto
    obtain bs m2 where "disable_endpoints os eps acc m1 = (acc @ bs, m2)"
      "keeps_open os m1 m2" "subseq (map endpoint_id bs) (map id_of eps)"
      "dwords os (env m2) = apply_backups (\<lambda>_. Some 1) bs (dwords os (env m1))"
      "\<forall>b \<in> set bs. opens_for_restore os m2 b \<and> original_disabled_state b =
         dwords os (env m1) HKEY_LOCAL_MACHINE (fx_key (endpoint_id b)) VALUE_DISABLE_SYSFX"
      using Cons.IH [of acc m1] Cons.prems by auto
    with same one None keeps_open_trans [OF same(2), of m2] show ?thesis
      by (intro exI [of _ bs] exI [of _ m2]) (simp add: list_emb_Cons)
  next
    case (Some b)
    note b = disable_endpoint_some [OF assms one [unfolded Some]]
    obtain bs m2 where rest: "disable_endpoints os eps (acc @ [b]) m1 = (acc @ b # bs, m2)"
      "keeps_open os m1 m2" "subseq (map endpoint_id bs) (map id_of eps)"
      "dwords os (env m2) = apply_backups (\<lambda>_. Some 1) bs (dwords os (env m1))"
      "\<forall>b \<in> set bs. opens_for_restore os m2 b \<and> original_disabled_state b =
         dwords os (env m1) HKEY_LOCAL_MACHINE (fx_key (endpoint_id b)) VALUE_DISABLE_SYSFX"
      using Cons.IH [of "acc @ [b]" m1] Cons.prems by auto
    have other: "dwords os (env m1) HKEY_LOCAL_MACHINE (fx_key (endpoint_id b')) VALUE_DISABLE_SYSFX =
        dwords os (env m) HKEY_LOCAL_MACHINE (fx_key (endpoint_id b')) VALUE_DISABLE_SYSFX"
      if "b' \<in> set bs" for b'
    proof -
      have "endpoint_id b' \<in> id_of ` set eps"
        using subseq_set [OF rest(3)] that by auto
      then have "\<not> eq_ignore_ascii_case (endpoint_id b') (id_of ep)"
        using distinct_lower_head [OF Cons.prems] by auto
      then show ?thesis by (simp add: b(3) update_dword_apply fx_key_same)
    qed
    have "opens_for_restore os m2 b"
      using b(1,5) keeps_openD [OF rest(2)] by (simp add: opens_for_restore_def)
    then have all: "\<forall>b' \<in> set (b # bs). opens_for_restore os m2 b' \<and> original_disabled_state b' =
         dwords os (env m) HKEY_LOCAL_MACHINE (fx_key (endpoint_id b')) VALUE_DISABLE_SYSFX"
      using rest(5) other b(1,2) by simp
    have "disable_endpoints os (ep # eps) acc m = (acc @ (b # bs), m2)"
      using one Some rest(1) by simp
    moreover have "keeps_open os m m2"
      using b(4) rest(2) by (rule keeps_open_trans)
    moreover have "subseq (map endpoint_id (b # bs)) (map id_of (ep # eps))"
      using rest(3) b(1) by simp
    moreover have "dwords os (env m2) = apply_backups (\<lambda>_. Some 1) (b # bs) (dwords os (env m))"
      using rest(4) b(1,3) by (simp add: apply_backups_Cons)
    ultimately show ?thesis using all by blast
  qed
qed

section \<open>Restoring\<close>

lemma restore_endpoint_keeps_open:
  "registry_laws os \<Longrightarrow> keeps_open os m (restore_endpoint os b m)"
  by (simp add: restore_endpoint_def Let_def registry_keeps_open split: option.split)

lemma restore_endpoints_keeps_open:
  "registry_laws os \<Longrightarrow> keeps_open os m (fold (restore_endpoint os) bs m)"
  by (induction bs arbitrary: m)
    (auto intro: keeps_open_trans restore_endpoint_keeps_open)

lemma restore_endpoint_dwords:
  assumes "registry_laws os" "audio_writable os" "opens_for_restore os m b"
    and "dwords os (env m) HKEY_LOCAL_MACHINE (fx_key (endpoint_id b)) VALUE_DISABLE_SYSFX \<noteq> None"
  shows "dwords os (env (restore_endpoint os b m)) =
           set_fx (endpoint_id b) (original_disabled_state b) (dwords os (env m))"
proof -
  have set: "fst (RegSetValueExW os HKEY_LOCAL_MACHINE (fx_key (endpoint_id b)) VALUE_DISABLE_SYSFX v m) = 0"
    and delete: "fst (RegDeleteValueW os HKEY_LOCAL_MACHINE (fx_key (endpoint_id b)) VALUE_DISABLE_SYSFX m) = 0"
    for v
    using assms(2,4) by (auto simp: audio_writable_def registry_calls reg_get_dwords)
  show ?thesis
    using assms(3) unfolding restore_endpoint_def Let_def opens_for_restore_def
    by (auto simp: registry_dwords [OF assms(1)] set delete split: option.split)
qed

lemma restore_endpoints_dwords:
  assumes "registry_laws os" "audio_writable os"
  shows "distinct (map (to_lowercase \<circ> endpoint_id) bs) \<Longrightarrow> \<forall>b \<in> set bs. opens_for_restore os m b \<Longrightarrow>
    \<forall>b \<in> set bs. dwords os (env m) HKEY_LOCAL_MACHINE (fx_key (endpoint_id b)) VALUE_DISABLE_SYSFX \<noteq> None \<Longrightarrow>
    dwords os (env (fold (restore_endpoint os) bs m)) =
      apply_backups original_disabled_state bs (dwords os (env m))"
proof (induction bs arbitrary: m)
  case Nil
  then show ?case by (simp add: apply_backups_def)
next
  case (Cons b bs)
  let ?m1 = "restore_endpoint os b m"
  have step: "dwords os (env ?m1) = set_fx (endpoint_id b) (original_disabled_state b) (dwords os (env m))"
    using restore_endpoint_dwords [OF assms] Cons.prems(2,3) by simp
  have other: "\<not> eq_ignore_ascii_case (endpoint_id b') (endpoint_id b)" if "b' \<in> set bs" for b'
    using distinct_lower_head [OF Cons.prems(1) that] .
  have "\<forall>b \<in> set bs. opens_for_restore os ?m1 b"
    using Cons.prems(2) opens_for_restore_later [OF restore_endpoint_keeps_open [OF assms(1)]] by simp
  moreover have "\<forall>b \<in> set bs. dwords os (env ?m1) HKEY_LOCAL_MACHINE (fx_key (endpoint_id b))
      VALUE_DISABLE_SYSFX \<noteq> None"
    using Cons.prems(3) other by (simp add: step update_dword_apply fx_key_same)
  ultimately show ?case
    using Cons.IH [of ?m1] Cons.prems(1) step by (simp add: apply_backups_Cons)
qed

lemma find_rev_backup:
  "find P (rev bs) = Some b \<Longrightarrow> b \<in> set bs \<and> P b"
  using find_Some_in by fastforce

lemma apply_backups_undo:
  assumes "registry_laws os"
    and "\<forall>b \<in> set bs. original_disabled_state b =
           dwords os w HKEY_LOCAL_MACHINE (fx_key (endpoint_id b)) VALUE_DISABLE_SYSFX"
  shows "apply_backups original_disabled_state bs (apply_backups (\<lambda>_. Some 1) bs (dwords os w)) = dwords os w"
proof (intro ext)
  fix h k n
  show "apply_backups original_disabled_state bs (apply_backups (\<lambda>_. Some 1) bs (dwords os w)) h k n =
      dwords os w h k n"
  proof (cases "find (\<lambda>b. eq_ignore_ascii_case k (fx_key (endpoint_id b))) (rev bs)")
    case None
    then show ?thesis by (simp add: apply_backups_apply)
  next
    case (Some b)
    with assms(2) have b: "original_disabled_state b =
        dwords os w HKEY_LOCAL_MACHINE (fx_key (endpoint_id b)) VALUE_DISABLE_SYSFX"
      "eq_ignore_ascii_case k (fx_key (endpoint_id b))"
      using find_rev_backup [OF Some] by auto
    then show ?thesis
      using Some reg_case_law [OF assms(1) b(2), of n VALUE_DISABLE_SYSFX]
      by (simp add: apply_backups_apply)
  qed
qed

lemma enumerated_distinct:
  "registry_laws os \<Longrightarrow> distinct (map (to_lowercase \<circ> id_of) (enumerate_render_endpoints os m))"
  using reg_subkeys_law [of os]
  by (simp add: enumerate_render_endpoints_def Let_def case_prod_beta comp_def)

lemma disable_audio_spec:
  assumes "registry_laws os" and "disable_audio_enhancements os m = (Ok bs, m')"
  shows "keeps_open os m m'" and "distinct (map (to_lowercase \<circ> endpoint_id) bs)"
    and "dwords os (env m') = apply_backups (\<lambda>_. Some 1) bs (dwords os (env m))"
    and "\<forall>b \<in> set bs. opens_for_restore os m' b \<and> original_disabled_state b =
           dwords os (env m) HKEY_LOCAL_MACHINE (fx_key (endpoint_id b)) VALUE_DISABLE_SYSFX"
proof -
  let ?eps = "enumerate_render_endpoints os m"
  obtain bs' m'' where spec: "disable_endpoints os ?eps [] m = ([] @ bs', m'')" "keeps_open os m m''"
      "subseq (map endpoint_id bs') (map id_of ?eps)"
      "dwords os (env m'') = apply_backups (\<lambda>_. Some 1) bs' (dwords os (env m))"
      "\<forall>b \<in> set bs'. opens_for_restore os m'' b \<and> original_disabled_state b =
         dwords os (env m) HKEY_LOCAL_MACHINE (fx_key (endpoint_id b)) VALUE_DISABLE_SYSFX"
    using disable_endpoints_spec [OF assms(1) enumerated_distinct [OF assms(1)]] by blast
  then have eq: "bs' = bs" "m'' = m'"
    using assms(2) by (simp_all add: disable_audio_enhancements_def)
  have "subseq (map to_lowercase (map endpoint_id bs)) (map to_lowercase (map id_of ?eps))"
    using spec(3) eq(1) subseq_map by blast
  then show "distinct (map (to_lowercase \<circ> endpoint_id) bs)"
    using enumerated_distinct [OF assms(1), of m] subseq_distinct by (metis map_map)
  show "keeps_open os m m'" and "dwords os (env m') = apply_backups (\<lambda>_. Some 1) bs (dwords os (env m))"
    and "\<forall>b \<in> set bs. opens_for_restore os m' b \<and> original_disabled_state b =
           dwords os (env m) HKEY_LOCAL_MACHINE (fx_key (endpoint_id b)) VALUE_DISABLE_SYSFX"
    using spec eq by auto
qed

lemma restore_audio_spec:
  assumes laws: "registry_laws os" "audio_writable os"
    and disable: "disable_audio_enhancements os m = (Ok bs, m1)"
    and later: "keeps_open os m1 m2" "dwords os (env m2) = dwords os (env m1)"
  shows "dwords os (env (snd (restore_audio_enhancements os bs m2))) = dwords os (env m)"
proof -
  note spec = disable_audio_spec [OF laws(1) disable]
  have "dwords os (env m2) HKEY_LOCAL_MACHINE (fx_key (endpoint_id b)) VALUE_DISABLE_SYSFX \<noteq> None"
    if "b \<in> set bs" for b
  proof -
    have "find (\<lambda>b'. eq_ignore_ascii_case (fx_key (endpoint_id b)) (fx_key (endpoint_id b'))) (rev bs) \<noteq> None"
      using that by (auto simp: find_None_iff)
    then show ?thesis by (auto simp: later(2) spec(3) apply_backups_apply)
  qed
  moreover have "\<forall>b \<in> set bs. opens_for_restore os m2 b"
    using spec(4) opens_for_restore_later [OF later(1)] by blast
  ultimately have "dwords os (env (fold (restore_endpoint os) bs m2)) =
      apply_backups original_disabled_state bs (apply_backups (\<lambda>_. Some 1) bs (dwords os (env m)))"
    using restore_endpoints_dwords [OF laws spec(2)] later(2) spec(3) by simp
  then show ?thesis
    using apply_backups_undo [OF laws(1)] spec(4) by (simp add: restore_audio_enhancements_def)
qed

subsection \<open>The power scheme is left alone\<close>

lemma disable_endpoint_power:
  "power_laws os \<Longrightarrow>
     power_get_active os (env (snd (disable_endpoint os ep m))) = power_get_active os (env m)"
  by (simp add: disable_endpoint_def Let_def case_prod_beta registry_power)

lemma disable_endpoints_power:
  assumes "power_laws os"
  shows "power_get_active os (env (snd (disable_endpoints os eps acc m))) = power_get_active os (env m)"
proof (induction eps arbitrary: acc m)
  case Nil
  then show ?case by simp
next
  case (Cons ep eps)
  show ?case
    using Cons disable_endpoint_power [OF assms, of ep m] by (auto split: prod.split option.split)
qed

lemma disable_audio_power:
  "power_laws os \<Longrightarrow>
     power_get_active os (env (snd (disable_audio_enhancements os m))) = power_get_active os (env m)"
  using disable_endpoints_power [of os "enumerate_render_endpoints os m" "[]" m]
  by (simp add: disable_audio_enhancements_def case_prod_beta)

lemma restore_endpoint_power:
  "power_laws os \<Longrightarrow> power_get_active os (env (restore_endpoint os b m)) = power_get_active os (env m)"
  by (simp add: restore_endpoint_def Let_def registry_power split: option.split)

lemma restore_audio_power:
  assumes "power_laws os"
  shows "power_get_active os (env (snd (restore_audio_enhancements os bs m))) = power_get_active os (env m)"
proof -
  have "power_get_active os (env (fold (restore_endpoint os) bs m)) = power_get_active os (env m)"
    by (induction bs arbitrary: m) (simp_all add: restore_endpoint_power [OF assms])
  then show ?thesis by (simp add: restore_audio_enhancements_def)
qed

section \<open>The enhancements as a reversible setting\<close>

interpretation audio_setting: reversible_setting
  "registry_laws os \<and> audio_writable os" "keeps_open os" "\<lambda>m. dwords os (env m)"
  "disable_audio_enhancements os" "restore_audio_enhancements os"
  for os
proof unfold_locales
  fix m :: "'a machine"
  assume "registry_laws os \<and> audio_writable os"
  then show "keeps_open os m (snd (disable_audio_enhancements os m))"
    using disable_audio_spec(1) [of os m]
    by (auto simp: disable_audio_enhancements_def split: prod.split)
next
  fix m m1 m2 m3 :: "'a machine" and bs
  assume "registry_laws os \<and> audio_writable os" "disable_audio_enhancements os m = (Ok bs, m1)"
    "keeps_open os m1 m2" "dwords os (env m2) = dwords os (env m1)"
    "restore_audio_enhancements os bs m2 = (Ok (), m3)"
  then show "dwords os (env m3) = dwords os (env m)"
    using restore_audio_spec [of os m bs m1 m2] by simp
qed (auto simp: restore_audio_enhancements_def restore_endpoints_keeps_open intro: keeps_open_trans)

section \<open>Properties\<close>

text \<open>
  disabling the audio enhancements and restoring the backups gives back every DWORD value of
  the registry, values that were absent included.
\<close>

theorem audio_round_trip:
  assumes "registry_laws os" "audio_writable os"
    and "disable_audio_enhancements os m = (Ok backups, m1)"
    and "restore_audio_enhancements os backups m1 = (Ok (), m2)"
  shows "dwords os (env m2) = dwords os (env m)"
  using audio_setting.change_undo [of os m backups m1 m2] assms by simp

lemma demo_audio_writable: "audio_writable demo_os"
  by (simp add: audio_writable_def demo_os_def)

theorem audio_round_trip_witness:
  "\<exists>backups m1 m2. disable_audio_enhancements demo_os demo_machine = (Ok backups, m1) \<and>
     length backups = 2 \<and> restore_audio_enhancements demo_os backups m1 = (Ok (), m2) \<and>
     dwords demo_os (env m2) = dwords demo_os demo_world"
proof -
  obtain backups m1 where d: "disable_audio_enhancements demo_os demo_machine = (Ok backups, m1)"
      "length backups = 2"
    by (simp add: disable_audio_enhancements_def enumerate_render_endpoints_def disable_endpoint_def
        registry_calls call_def demo_os_def demo_machine_def demo_world_def case_prod_beta Let_def
        to_lowercase_def ascii_lower_def)
  obtain m2 where r: "restore_audio_enhancements demo_os backups m1 = (Ok (), m2)"
    by (simp add: restore_audio_enhancements_def)
  from audio_round_trip [OF demo_registry_laws demo_audio_writable d(1) r] d r show ?thesis
    by (auto simp: demo_machine_def)
qed

end
