(* ===== verification/Terminator.thy ===== *)
theory Terminator
  imports Win32_Demo Safety_Db
begin

text \<open>
  \<^verbatim>\<open>process/terminator.rs\<close>: the two-stage termination of a process, the purge of the Tier 2
  processes, and the relaunching of closed applications with the token of the interactive user.
  The loops over the process snapshot run over the list the snapshot holds.
\<close>

section \<open>Termination\<close>

definition STILL_ACTIVE :: u32 where "STILL_ACTIVE = 259"

record TerminatedAppBackup =
  app_name :: string
  executable_path :: string
  command_line :: "string option"

definition get_process_windows :: "'w win32 \<Rightarrow> pid \<Rightarrow> 'w machine \<Rightarrow> nat list" where
  "get_process_windows os pid m = map fst (filter (\<lambda>(_, p). p = pid) (window_list os (env m)))"

definition get_process_image_path :: "'w win32 \<Rightarrow> pid \<Rightarrow> 'w machine \<Rightarrow> string option" where
  "get_process_image_path os pid m =
     (case process_image os pid (env m) of
        Some path \<Rightarrow> if path \<noteq> [] then Some path else None
      | None \<Rightarrow> None)"

fun post_close_all :: "'w win32 \<Rightarrow> pid \<Rightarrow> nat list \<Rightarrow> 'w machine \<Rightarrow> 'w machine" where
  "post_close_all os pid [] m = m"
| "post_close_all os pid (h # hs) m =
     post_close_all os pid hs (call_unit (PostClose h pid) (post_close os h) m)"

definition WaitForSingleObject :: "'w win32 \<Rightarrow> pid \<Rightarrow> nat \<Rightarrow> 'w machine \<Rightarrow> u32 \<times> 'w machine" where
  "WaitForSingleObject os pid ms = advance (process_wait os pid ms)"

definition terminate_process_gracefully ::
  "'w win32 \<Rightarrow> ProcessSafetyDb \<Rightarrow> pid \<Rightarrow> string \<Rightarrow> nat \<Rightarrow> 'w machine \<Rightarrow>
     (SafetyViolationError, TerminatedAppBackup option) rust_result \<times> 'w machine" where
  "terminate_process_gracefully os db pid name timeout_ms m =
     (case assert_safe_to_kill db name of
        Inl e \<Rightarrow> (Err e, m)
      | Inr _ \<Rightarrow>
          if \<not> process_open os PROCESS_TERMINATE pid (env m) then (Ok None, m)
          else
            let exe_path = get_process_image_path os pid m;
                hwnds = get_process_windows os pid m;
                m = post_close_all os pid hwnds m;
                (wait_result, m) = WaitForSingleObject os pid timeout_ms m;
                exit_code = process_exit_code os pid (env m);
                m = (if exit_code = STILL_ACTIVE \<or> wait_result \<noteq> 0
                     then let m = call_unit (KillProcess pid) (process_terminate os pid) m
                          in snd (WaitForSingleObject os pid 500 m)
                     else m)
            in (Ok (map_option (\<lambda>path. \<lparr>app_name = name, executable_path = path,
                                        command_line = None\<rparr>) exe_path), m))"

definition entry_name :: "string \<Rightarrow> string" where
  "entry_name szExeFile = trim_matches CHR 0x00 szExeFile"

fun purge_entries ::
  "'w win32 \<Rightarrow> ProcessSafetyDb \<Rightarrow> (pid \<times> string) list \<Rightarrow> TerminatedAppBackup list \<Rightarrow> 'w machine \<Rightarrow>
     TerminatedAppBackup list \<times> 'w machine" where
  "purge_entries os db [] backups m = (backups, m)"
| "purge_entries os db ((pid, szExeFile) # es) backups m =
     (if pid \<noteq> own_pid os \<and> pid > 4 then
        let name = entry_name szExeFile; tier = classify_process db name
        in if tier = Tier2SafeTerminate then
             (case terminate_process_gracefully os db pid name 1000 m of
                (Inr (Some backup), m) \<Rightarrow> purge_entries os db es (backups @ [backup]) m
              | (Inr None, m) \<Rightarrow> purge_entries os db es backups m
              | (Inl _, m) \<Rightarrow> purge_entries os db es backups m)
           else purge_entries os db es backups m
      else purge_entries os db es backups m)"

datatype terminator_error = ProcessSnapshotFailed

definition terminate_tier2_background_processes ::
  "'w win32 \<Rightarrow> ProcessSafetyDb \<Rightarrow> 'w machine \<Rightarrow>
     (terminator_error, TerminatedAppBackup list) rust_result \<times> 'w machine" where
  "terminate_tier2_background_processes os db m =
     (case process_list os (env m) of
        None \<Rightarrow> (Err ProcessSnapshotFailed, m)
      | Some entries \<Rightarrow> let (backups, m) = purge_entries os db entries [] m in (Ok backups, m))"

section \<open>Relaunch\<close>

datatype RelaunchError =
    EmptyPath
  | NotAbsolute string
  | NotFound string
  | InvalidExtension string
  | IsDirectory string
  | ProtectedExecutable string
  | AccessDenied string
  | SpawnFailed string

definition verbatim_prefix :: string where
  "verbatim_prefix = win ''//?/''"

definition validate_relaunch_path ::
  "'w win32 \<Rightarrow> ProcessSafetyDb \<Rightarrow> string \<Rightarrow> 'w machine \<Rightarrow> (RelaunchError, path) rust_result" where
  "validate_relaunch_path os db path_str m =
     (let trimmed = trim path_str
      in if trimmed = [] then Err EmptyPath
         else if \<not> is_absolute trimmed then Err (NotAbsolute trimmed)
         else if \<not> (case path_extension trimmed of
                     Some ext \<Rightarrow> eq_ignore_ascii_case ext ''exe'' | None \<Rightarrow> False)
              then Err (InvalidExtension trimmed)
         else if \<not> fs_exists os trimmed m then Err (NotFound trimmed)
         else if fs_is_dir os trimmed (env m) then Err (IsDirectory trimmed)
         else
           let name = opt_unwrap_or (file_name trimmed) []
           in if classify_process db name = Tier0Protected then Err (ProtectedExecutable name)
              else case fs_canonicalize os trimmed (env m) of
                     None \<Rightarrow> Err (NotFound trimmed)
                   | Some canonical \<Rightarrow>
                       (case strip_prefix verbatim_prefix canonical of
                          Some stripped \<Rightarrow> Ok stripped
                        | None \<Rightarrow> Ok canonical))"

definition is_current_process_elevated :: "'w win32 \<Rightarrow> 'w machine \<Rightarrow> bool" where
  "is_current_process_elevated os m =
     (case token_elevation os (env m) of Some v \<Rightarrow> v \<noteq> 0 | None \<Rightarrow> False)"

definition find_session_explorer_pid :: "'w win32 \<Rightarrow> u32 \<Rightarrow> 'w machine \<Rightarrow> pid option" where
  "find_session_explorer_pid os target_session m =
     (case process_list os (env m) of
        None \<Rightarrow> None
      | Some entries \<Rightarrow>
          map_option fst
            (find (\<lambda>(pid, szExeFile). to_lowercase (entry_name szExeFile) = ''explorer.exe'' \<and>
                      process_session os pid (env m) = Some target_session) entries))"

text \<open>First the token of the session, then a duplicate of the token of its shell.\<close>

definition get_interactive_user_token :: "'w win32 \<Rightarrow> 'w machine \<Rightarrow> user_token option" where
  "get_interactive_user_token os m =
     (let session_id = console_session os (env m)
      in if session_id = 0xFFFFFFFF then None
         else if wts_user_token os session_id (env m) then Some (SessionToken session_id)
         else case find_session_explorer_pid os session_id m of
                Some explorer_pid \<Rightarrow>
                  if process_open os PROCESS_QUERY explorer_pid (env m) \<and>
                     process_token_dup os explorer_pid (env m)
                  then Some (ShellToken explorer_pid) else None
              | None \<Rightarrow> None)"

definition quoted_command :: "path \<Rightarrow> string option \<Rightarrow> string" where
  "quoted_command exe args =
     (case args of
        Some a \<Rightarrow> if trim a \<noteq> [] then CHR 0x22 # exe @ [CHR 0x22, CHR '' ''] @ trim a
                  else CHR 0x22 # exe @ [CHR 0x22]
      | None \<Rightarrow> CHR 0x22 # exe @ [CHR 0x22])"

definition spawn_process_with_user_token ::
  "'w win32 \<Rightarrow> path \<Rightarrow> string option \<Rightarrow> user_token \<Rightarrow> 'w machine \<Rightarrow>
     (RelaunchError, pid) rust_result \<times> 'w machine" where
  "spawn_process_with_user_token os exe_path args token m =
     (let cmd_str = quoted_command exe_path args;
          (r, m) = call (SpawnAsUser token cmd_str)
                     (create_process_as_user os token cmd_str (parent exe_path)) m
      in case r of Some pid \<Rightarrow> (Ok pid, m) | None \<Rightarrow> (Err (SpawnFailed exe_path), m))"

definition spawn_plain ::
  "'w win32 \<Rightarrow> path \<Rightarrow> string list \<Rightarrow> 'w machine \<Rightarrow> (RelaunchError, pid) rust_result \<times> 'w machine" where
  "spawn_plain os exe args m =
     (let (r, m) = call (Spawn exe args) (process_spawn os exe args (parent exe)) m
      in case r of Some pid \<Rightarrow> (Ok pid, m) | None \<Rightarrow> (Err (SpawnFailed exe), m))"

definition relaunch_single_application ::
  "'w win32 \<Rightarrow> ProcessSafetyDb \<Rightarrow> TerminatedAppBackup \<Rightarrow> 'w machine \<Rightarrow>
     (RelaunchError, pid) rust_result \<times> 'w machine" where
  "relaunch_single_application os db app m =
     (case validate_relaunch_path os db (executable_path app) m of
        Inl e \<Rightarrow> (Err e, m)
      | Inr valid_path \<Rightarrow>
          let plain = (case command_line app of None \<Rightarrow> [] | Some args \<Rightarrow> [args])
          in if is_current_process_elevated os m then
               (case get_interactive_user_token os m of
                  Some token \<Rightarrow> spawn_process_with_user_token os valid_path (command_line app) token m
                | None \<Rightarrow> spawn_plain os valid_path plain m)
             else spawn_plain os valid_path plain m)"

fun relaunch_applications ::
  "'w win32 \<Rightarrow> ProcessSafetyDb \<Rightarrow> TerminatedAppBackup list \<Rightarrow> 'w machine \<Rightarrow>
     (RelaunchError, pid) rust_result list \<times> 'w machine" where
  "relaunch_applications os db [] m = ([], m)"
| "relaunch_applications os db (app # apps) m =
     (let (r, m) = relaunch_single_application os db app m;
          (rs, m) = relaunch_applications os db apps m
      in (r # rs, m))"

section \<open>What termination does\<close>

lemma post_close_all_log:
  "log (post_close_all os pid hs m) = log m @ map (\<lambda>h. PostClose h pid) hs"
  by (induction hs arbitrary: m) simp_all

lemma post_close_all_files [simp]: "files (post_close_all os pid hs m) = files m"
  by (induction hs arbitrary: m) simp_all

lemma wait_simps [simp]:
  "log (snd (WaitForSingleObject os pid ms m)) = log m"
  "files (snd (WaitForSingleObject os pid ms m)) = files m"
  by (simp_all add: WaitForSingleObject_def)

text \<open>The state after the grace period, which decides whether the process is killed.\<close>

definition after_grace :: "'w win32 \<Rightarrow> pid \<Rightarrow> nat \<Rightarrow> 'w machine \<Rightarrow> u32 \<times> 'w machine" where
  "after_grace os pid timeout_ms m =
     WaitForSingleObject os pid timeout_ms (post_close_all os pid (get_process_windows os pid m) m)"

definition survives_grace :: "'w win32 \<Rightarrow> pid \<Rightarrow> nat \<Rightarrow> 'w machine \<Rightarrow> bool" where
  "survives_grace os pid timeout_ms m \<longleftrightarrow>
     (let (wait_result, m') = after_grace os pid timeout_ms m
      in process_exit_code os pid (env m') = STILL_ACTIVE \<or> wait_result \<noteq> 0)"

lemma terminate_blocked:
  "assert_safe_to_kill db name = Err e \<Longrightarrow>
     terminate_process_gracefully os db pid name t m = (Err e, m)"
  by (simp add: terminate_process_gracefully_def)

lemma terminate_log:
  assumes "assert_safe_to_kill db name = Ok ()" and "process_open os PROCESS_TERMINATE pid (env m)"
  shows "log (snd (terminate_process_gracefully os db pid name t m)) =
    log m @ map (\<lambda>h. PostClose h pid) (get_process_windows os pid m) @
      (if survives_grace os pid t m then [KillProcess pid] else [])"
  using assms
  by (simp add: terminate_process_gracefully_def survives_grace_def after_grace_def Let_def
      case_prod_beta post_close_all_log)

definition kill_effect :: "(pid \<Rightarrow> bool) \<Rightarrow> effect \<Rightarrow> bool" where
  "kill_effect P e = (case e of PostClose _ p \<Rightarrow> P p | KillProcess p \<Rightarrow> P p | _ \<Rightarrow> False)"

lemma terminate_grows:
  assumes "P pid"
  shows "log_grows (kill_effect P) m (snd (terminate_process_gracefully os db pid name t m))"
proof (cases "assert_safe_to_kill db name = Ok () \<and> process_open os PROCESS_TERMINATE pid (env m)")
  case True
  then show ?thesis
    using assms by (auto simp: log_grows_def terminate_log kill_effect_def list_all_iff)
next
  case False
  then show ?thesis
    by (auto simp: terminate_process_gracefully_def split: sum.split)
qed

lemma terminate_files: "files (snd (terminate_process_gracefully os db pid name t m)) = files m"
  by (simp add: terminate_process_gracefully_def Let_def case_prod_beta split: sum.split)

definition purgeable :: "'w win32 \<Rightarrow> ProcessSafetyDb \<Rightarrow> (pid \<times> string) list \<Rightarrow> pid \<Rightarrow> bool" where
  "purgeable os db entries p \<longleftrightarrow>
     p \<noteq> own_pid os \<and> p > 4 \<and>
     (\<exists>raw. (p, raw) \<in> set entries \<and> classify_process db (entry_name raw) = Tier2SafeTerminate)"

lemma kill_effect_mono: "(\<And>p. P p \<Longrightarrow> Q p) \<Longrightarrow> kill_effect P e \<Longrightarrow> kill_effect Q e"
  by (auto simp: kill_effect_def split: effect.splits)

lemma purgeable_Cons: "purgeable os db es p \<Longrightarrow> purgeable os db (e # es) p"
  unfolding purgeable_def by (meson list.set_intros(2))

lemma purge_entries_grows:
  "log_grows (kill_effect (purgeable os db entries)) m (snd (purge_entries os db entries acc m)) \<and>
   files (snd (purge_entries os db entries acc m)) = files m"
proof (induction entries arbitrary: acc m)
  case Nil
  then show ?case by simp
next
  case (Cons e es)
  obtain pid raw where e: "e = (pid, raw)" by fastforce
  let ?P = "kill_effect (purgeable os db (e # es))"
  have rest: "log_grows ?P m (snd (purge_entries os db es acc m)) \<and>
      files (snd (purge_entries os db es acc m)) = files m" for acc m
  proof
    show "log_grows ?P m (snd (purge_entries os db es acc m))"
      by (rule log_grows_mono [OF conjunct1 [OF Cons]]) (erule kill_effect_mono [rotated], rule purgeable_Cons)
  qed (simp add: Cons)
  show ?case
  proof (cases "pid \<noteq> own_pid os \<and> pid > 4 \<and> classify_process db (entry_name raw) = Tier2SafeTerminate")
    case True
    then have "purgeable os db (e # es) pid" by (auto simp: purgeable_def e)
    then have first: "log_grows ?P m (snd (terminate_process_gracefully os db pid (entry_name raw) 1000 m))"
      by (rule terminate_grows)
    obtain r m1 where r: "terminate_process_gracefully os db pid (entry_name raw) 1000 m = (r, m1)"
      by fastforce
    then have "log_grows ?P m m1" "files m1 = files m"
      using first terminate_files [of os db pid "entry_name raw" 1000 m] by simp_all
    then have "log_grows ?P m (snd (purge_entries os db es acc' m1)) \<and>
        files (snd (purge_entries os db es acc' m1)) = files m" for acc'
      using rest [of m1 acc'] by (auto intro: log_grows_trans)
    then show ?thesis
      using True r by (auto simp: e Let_def split: sum.split option.split)
  next
    case False
    then show ?thesis using rest by (auto simp: e Let_def)
  qed
qed

lemma purgeable_not_tier0:
  "purgeable os new_db entries p \<Longrightarrow> p \<noteq> own_pid os \<and> p > 4 \<and>
     (\<exists>raw. (p, raw) \<in> set entries \<and> to_lowercase (entry_name raw) \<in> set tier2_procs \<and>
           to_lowercase (entry_name raw) \<notin> set tier0_procs)"
  using tables_disjoint(2) unfolding purgeable_def classify_process_new_db(3) by blast

section \<open>What relaunching does\<close>

lemma validate_relaunch_ok:
  assumes "validate_relaunch_path os db s m = Ok p"
  shows "is_absolute (trim s)" and "fs_is_file os (trim s) m"
    and "\<exists>ext. path_extension (trim s) = Some ext \<and> eq_ignore_ascii_case ext ''exe''"
    and "\<exists>name. file_name (trim s) = Some name \<and> classify_process db name \<noteq> Tier0Protected"
    and "\<exists>c. fs_canonicalize os (trim s) (env m) = Some c \<and>
           (p = c \<or> strip_prefix verbatim_prefix c = Some p)"
  using assms
  by (auto simp: validate_relaunch_path_def Let_def fs_exists_def fs_is_file_def path_extension_def
      split: if_splits option.splits bind_splits)

lemma length_relaunch: "length (fst (relaunch_applications os db apps m)) = length apps"
  by (induction apps arbitrary: m) (auto simp: Let_def case_prod_beta)

definition as_user_effect :: "effect \<Rightarrow> bool" where
  "as_user_effect e = (case e of SpawnAsUser _ _ \<Rightarrow> True | _ \<Rightarrow> False)"

lemma relaunch_single_as_user:
  assumes "is_current_process_elevated os m" and "get_interactive_user_token os m \<noteq> None"
  shows "log_grows as_user_effect m (snd (relaunch_single_application os db app m))"
  using assms
  by (auto simp: relaunch_single_application_def spawn_process_with_user_token_def as_user_effect_def
      Let_def case_prod_beta split: sum.split option.split)

lemma relaunch_as_user:
  assumes "\<And>m. is_current_process_elevated os m" and "\<And>m. get_interactive_user_token os m \<noteq> None"
  shows "log_grows as_user_effect m (snd (relaunch_applications os db apps m))"
proof (induction apps arbitrary: m)
  case Nil
  then show ?case by simp
next
  case (Cons app apps)
  show ?case
    using log_grows_trans [OF relaunch_single_as_user [OF assms, of m db app] Cons]
    by (simp add: Let_def case_prod_beta)
qed


section \<open>Properties\<close>

text \<open>
  C2: the purge closes windows of and kills only processes whose name is in the Tier 2 table,
  never its own process or one with an identifier up to 4, never one with a Tier 0 name, and it
  touches no file; for every process list the system reports.
\<close>

theorem purge_only_tier2:
  assumes "process_list os (env m) = Some entries"
  shows "log_grows (kill_effect (\<lambda>p. p \<noteq> own_pid os \<and> p > 4 \<and>
             (\<exists>raw. (p, raw) \<in> set entries \<and> to_lowercase (entry_name raw) \<in> set tier2_procs \<and>
                    to_lowercase (entry_name raw) \<notin> set tier0_procs)))
           m (snd (terminate_tier2_background_processes os new_db m)) \<and>
         files (snd (terminate_tier2_background_processes os new_db m)) = files m"
proof -
  have "log_grows (kill_effect (\<lambda>p. p \<noteq> own_pid os \<and> p > 4 \<and>
             (\<exists>raw. (p, raw) \<in> set entries \<and> to_lowercase (entry_name raw) \<in> set tier2_procs \<and>
                    to_lowercase (entry_name raw) \<notin> set tier0_procs)))
           m (snd (purge_entries os new_db entries [] m))"
    by (rule log_grows_mono [OF conjunct1 [OF purge_entries_grows]])
      (erule kill_effect_mono [rotated], rule purgeable_not_tier0)
  then show ?thesis
    using assms purge_entries_grows [of os new_db entries m "[]"]
    by (simp add: terminate_tier2_background_processes_def case_prod_beta)
qed

theorem purge_only_tier2_witness:
  "\<exists>entries. process_list demo_os (env demo_machine) = Some entries \<and>
     files (snd (terminate_tier2_background_processes demo_os new_db demo_machine)) = Map.empty"
proof -
  obtain entries where "process_list demo_os (env demo_machine) = Some entries"
    by (simp add: demo_os_def)
  with purge_only_tier2 [OF this] show ?thesis by (auto simp: demo_machine_def)
qed

text \<open>
  an allowed termination is two-staged: a close message to every window of the process,
  then the grace period, and a kill exactly when the process is still there after it.
\<close>

theorem terminate_two_stage:
  assumes "to_lowercase name \<notin> set tier0_procs" and "process_open os PROCESS_TERMINATE pid (env m)"
  shows "log (snd (terminate_process_gracefully os new_db pid name t m)) =
    log m @ map (\<lambda>h. PostClose h pid) (get_process_windows os pid m) @
      (if survives_grace os pid t m then [KillProcess pid] else [])"
  by (rule terminate_log) (use assms in \<open>simp_all add: process_gate.check_cases\<close>)

theorem terminate_two_stage_witness:
  "log (snd (terminate_process_gracefully demo_os new_db 200 ''Discord.exe'' 1000 demo_machine)) =
     [PostClose 7 200, KillProcess 200]"
proof -
  have tier: "to_lowercase ''Discord.exe'' \<notin> set tier0_procs" by code_simp
  have open_ok: "process_open demo_os PROCESS_TERMINATE 200 (env demo_machine)"
    by (simp add: demo_os_def demo_alive_def demo_image_def demo_machine_def demo_world_def)
  have "get_process_windows demo_os 200 demo_machine = [7]"
    by (simp add: get_process_windows_def demo_os_def demo_machine_def demo_world_def)
  moreover have "survives_grace demo_os 200 1000 demo_machine"
    unfolding survives_grace_def after_grace_def calculation
    by (simp add: WaitForSingleObject_def advance_def call_unit_def emit_def demo_os_def demo_alive_def
        demo_image_def demo_machine_def demo_world_def STILL_ACTIVE_def)
  ultimately show ?thesis
    using terminate_two_stage [OF tier open_ok, of 1000] by (simp add: demo_machine_def)
qed

text \<open>
  terminating a process with a Tier 0 name is refused, in any letter case, before the
  process is opened: the error names it and the system is not called.
\<close>

theorem terminate_refuses_tier0:
  assumes "to_lowercase name \<in> set tier0_procs"
  shows "terminate_process_gracefully os new_db pid name t m = (Err (ProtectedProcess name), m)"
  by (rule terminate_blocked) (use assms in \<open>simp add: process_gate.check_cases\<close>)

theorem terminate_refuses_tier0_witness:
  "terminate_process_gracefully demo_os new_db 300 ''VGC.exe'' 1000 demo_machine =
     (Err (ProtectedProcess ''VGC.exe''), demo_machine)"
proof -
  have "to_lowercase ''VGC.exe'' \<in> set tier0_procs" by code_simp
  then show ?thesis by (rule terminate_refuses_tier0)
qed

text \<open>
  a path accepted for relaunch is absolute, has the extension \<^verbatim>\<open>exe\<close>, names an existing
  file whose name is not in the Tier 0 table, and the result is the canonical form of the path
  with the verbatim prefix removed.
\<close>

theorem relaunch_path_accepted:
  assumes "validate_relaunch_path os new_db s m = Ok p"
  shows "is_absolute (trim s) \<and> fs_is_file os (trim s) m \<and>
    (\<exists>name ext. file_name (trim s) = Some name \<and> extension_of name = Some ext \<and>
       eq_ignore_ascii_case ext ''exe'' \<and> to_lowercase name \<notin> set tier0_procs) \<and>
    (\<exists>c. fs_canonicalize os (trim s) (env m) = Some c \<and>
       (p = c \<or> strip_prefix verbatim_prefix c = Some p))"
  using validate_relaunch_ok [OF assms] by (auto simp: path_extension_def classify_process_new_db(1))

theorem relaunch_path_accepted_witness:
  "validate_relaunch_path demo_os new_db (win '' C:/Apps/Discord.exe'')
       (demo_machine\<lparr>files := [win ''c:/apps/discord.exe'' \<mapsto> []]\<rparr>) = Ok (win ''C:/Apps/Discord.exe'') \<and>
   is_absolute (trim (win '' C:/Apps/Discord.exe''))"
proof -
  let ?m = "demo_machine\<lparr>files := [win ''c:/apps/discord.exe'' \<mapsto> []]\<rparr>"
  have parts: "trim (win '' C:/Apps/Discord.exe'') = win ''C:/Apps/Discord.exe''"
    "is_absolute (win ''C:/Apps/Discord.exe'')" "path_extension (win ''C:/Apps/Discord.exe'') = Some ''exe''"
    "file_name (win ''C:/Apps/Discord.exe'') = Some ''Discord.exe''"
    "to_lowercase (win ''C:/Apps/Discord.exe'') = win ''c:/apps/discord.exe''"
    "contains (win ''C:/Apps/Discord.exe'') ''.''" "win ''C:/Apps/Discord.exe'' \<noteq> []"
    "strip_prefix verbatim_prefix (win ''C:/Apps/Discord.exe'') = None"
    "to_lowercase ''Discord.exe'' \<notin> set tier0_procs"
    by code_simp+
  then have "validate_relaunch_path demo_os new_db (win '' C:/Apps/Discord.exe'') ?m =
      Ok (win ''C:/Apps/Discord.exe'')"
    by (simp add: validate_relaunch_path_def fs_exists_def classify_process_new_db(1) demo_os_def Let_def)
  with relaunch_path_accepted [OF this] show ?thesis by blast
qed


definition demo_elevated :: "world win32" where
  "demo_elevated = demo_os\<lparr>token_elevation := (\<lambda>w. Some 1)\<rparr>"


end
