(* ===== verification/Snapshot_Model.thy ===== *)
theory Snapshot_Model
  imports Services Audio Network_Adapter Terminator
begin

text \<open>
  \<^verbatim>\<open>models/snapshot.rs\<close>: the baseline snapshot and its two digests, an unkeyed SHA-256 and an
  HMAC with a secret key. SHA-256 (crate \<^verbatim>\<open>sha2\<close>) and the JSON encoding (crate \<^verbatim>\<open>serde_json\<close>)
  are the parameters \<open>snap_codec\<close>; the HMAC construction is the repository's own and is modelled.
  Both digests are instances of the interface \<open>payload_signature\<close>.
\<close>

section \<open>The snapshot\<close>

record SystemStateSnapshot =
  snapshot_id :: string
  version :: u32
  timestamp_utc :: string
  sha256_hash :: string
  hmac_signature :: string
  previous_game_mode :: "bool option"
  previous_power_scheme :: "string option"
  previous_audio_endpoints :: "AudioEndpointBackup list"
  previous_adapter_properties :: "AdapterPropertyBackup list"
  previous_qos_policy :: "QosPolicyBackup option"
  paused_services :: "ServiceBackup list"
  terminated_processes :: "TerminatedAppBackup list"
  is_applied :: bool

record snap_codec =
  sha256 :: "bytes \<Rightarrow> bytes"
  snap_to_vec :: "SystemStateSnapshot \<Rightarrow> bytes option"
  snap_to_pretty :: "SystemStateSnapshot \<Rightarrow> bytes option"
  snap_from_str :: "bytes \<Rightarrow> SystemStateSnapshot option"

definition new_snapshot :: "string \<Rightarrow> string \<Rightarrow> SystemStateSnapshot" where
  "new_snapshot ident now =
     \<lparr>snapshot_id = ident, version = 1, timestamp_utc = now, sha256_hash = [], hmac_signature = [],
      previous_game_mode = None, previous_power_scheme = None, previous_audio_endpoints = [],
      previous_adapter_properties = [], previous_qos_policy = None, paused_services = [],
      terminated_processes = [], is_applied = False\<rparr>"

section \<open>Comparison and HMAC\<close>

definition constant_time_eq :: "bytes \<Rightarrow> bytes \<Rightarrow> bool" where
  "constant_time_eq a b =
     (if length a \<noteq> length b then False
      else foldl (\<lambda>diff (x, y). diff OR (x XOR y)) 0 (zip a b) = 0)"

definition hmac_key_block :: "snap_codec \<Rightarrow> bytes \<Rightarrow> bytes" where
  "hmac_key_block c key =
     (let k = (if length key > 64 then sha256 c key else key)
      in k @ replicate (64 - length k) 0)"

definition compute_hmac_sha256 :: "snap_codec \<Rightarrow> bytes \<Rightarrow> bytes \<Rightarrow> bytes" where
  "compute_hmac_sha256 c key message =
     (let k = hmac_key_block c key;
          k_ipad = map (\<lambda>b. b XOR 0x36) k;
          k_opad = map (\<lambda>b. b XOR 0x5c) k;
          inner_hash = sha256 c (k_ipad @ message)
      in sha256 c (k_opad @ inner_hash))"

definition hex_of_bytes :: "bytes \<Rightarrow> string" where
  "hex_of_bytes bs = concat (map (\<lambda>b. hex_fixed 2 (unat b)) bs)"

section \<open>Signing and verifying\<close>

definition canonical_payload_bytes :: "snap_codec \<Rightarrow> SystemStateSnapshot \<Rightarrow> bytes" where
  "canonical_payload_bytes c s =
     opt_unwrap_or (snap_to_vec c (s\<lparr>sha256_hash := [], hmac_signature := []\<rparr>)) []"

definition compute_payload_hash :: "snap_codec \<Rightarrow> SystemStateSnapshot \<Rightarrow> string" where
  "compute_payload_hash c s = hex_of_bytes (sha256 c (canonical_payload_bytes c s))"

definition compute_payload_hmac :: "snap_codec \<Rightarrow> bytes \<Rightarrow> SystemStateSnapshot \<Rightarrow> string" where
  "compute_payload_hmac c key s =
     hex_of_bytes (compute_hmac_sha256 c key (canonical_payload_bytes c s))"

definition verify_integrity :: "snap_codec \<Rightarrow> SystemStateSnapshot \<Rightarrow> bool" where
  "verify_integrity c s =
     (if sha256_hash s = [] then False
      else eq_ignore_ascii_case (compute_payload_hash c s) (sha256_hash s))"

definition verify_hmac :: "snap_codec \<Rightarrow> bytes \<Rightarrow> SystemStateSnapshot \<Rightarrow> bool" where
  "verify_hmac c key s =
     (if hmac_signature s = [] then False
      else constant_time_eq (ascii_bytes (hmac_signature s))
             (ascii_bytes (compute_payload_hmac c key s)))"

definition sign_in_place :: "snap_codec \<Rightarrow> SystemStateSnapshot \<Rightarrow> SystemStateSnapshot" where
  "sign_in_place c s = s\<lparr>sha256_hash := compute_payload_hash c s\<rparr>"

definition sign_with_key :: "snap_codec \<Rightarrow> bytes \<Rightarrow> SystemStateSnapshot \<Rightarrow> SystemStateSnapshot" where
  "sign_with_key c key s =
     (let s = s\<lparr>sha256_hash := compute_payload_hash c s\<rparr>
      in s\<lparr>hmac_signature := compute_payload_hmac c key s\<rparr>)"

section \<open>Constant-time comparison\<close>

lemma or_eq_0: "(a :: 'a::len word) OR b = 0 \<longleftrightarrow> a = 0 \<and> b = 0"
  by (auto simp: bit_eq_iff bit_simps)

lemma xor_eq_0: "(a :: 'a::len word) XOR b = 0 \<longleftrightarrow> a = b"
  by (auto simp: bit_eq_iff bit_simps)

lemma foldl_diff:
  "length a = length b \<Longrightarrow>
     foldl (\<lambda>diff (x, y). diff OR (x XOR y)) d (zip a b) = 0 \<longleftrightarrow> d = 0 \<and> a = (b :: bytes)"
  by (induction a b arbitrary: d rule: list_induct2) (auto simp: or_eq_0 xor_eq_0)

lemma constant_time_eq_iff: "constant_time_eq a b \<longleftrightarrow> a = b"
  using foldl_diff [of a b 0] by (auto simp: constant_time_eq_def)

section \<open>Hexadecimal digests\<close>

lemma length_hex_of_bytes: "length (hex_of_bytes bs) = 2 * length bs"
  by (simp add: hex_of_bytes_def hex_be_val)

lemma hex_of_bytes_Nil [simp]: "hex_of_bytes bs = [] \<longleftrightarrow> bs = []"
  using length_hex_of_bytes [of bs] by (metis length_0_conv mult_is_0 zero_neq_numeral)

lemma be_val_inj:
  assumes "length a = length b" and "be_val a = be_val b"
  shows "a = b"
proof (rule nth_equalityI [OF assms(1)])
  fix i assume "i < length a"
  then show "a ! i = b ! i"
    using be_val_nth [of i a] be_val_nth [of i b] assms by simp
qed

lemma hex_of_bytes_inj:
  assumes "length a = length b" and "hex_of_bytes a = hex_of_bytes b"
  shows "a = b"
proof (rule be_val_inj [OF assms(1)])
  have "be_val bs mod 16 ^ (2 * length bs) = be_val bs" for bs
    using be_val_less [of bs] by (simp add: power_mult)
  moreover have "hex_parse 0 (hex_of_bytes a) = hex_parse 0 (hex_of_bytes b)"
    using assms(2) by simp
  then have "be_val a mod 16 ^ (2 * length a) = be_val b mod 16 ^ (2 * length b)"
    by (simp add: hex_of_bytes_def hex_be_val hex_parse_fixed)
  ultimately show "be_val a = be_val b" by simp
qed

lemma ascii_lower_hex_digit: "d < 16 \<Longrightarrow> ascii_lower (hex_digit d) = hex_digit d"
proof -
  have "\<forall>d \<in> set [0..<16]. ascii_lower (hex_digit d) = hex_digit d" by code_simp
  then show "d < 16 \<Longrightarrow> ?thesis" by simp
qed

lemma to_lowercase_hex [simp]: "to_lowercase (hex_of_bytes bs) = hex_of_bytes bs"
proof -
  have "ascii_lower ch = ch" if "ch \<in> set (hex_of_bytes bs)" for ch
    using that set_hex_fixed [of ch "2 * length bs" "be_val bs"] ascii_lower_hex_digit
    by (auto simp: hex_of_bytes_def hex_be_val)
  then show ?thesis by (simp add: to_lowercase_def map_idI)
qed

lemma ascii_bytes_inj: "ascii_bytes a = ascii_bytes b \<longleftrightarrow> a = b"
proof -
  have "of_nat (of_char x) = (of_nat (of_char y) :: u8) \<Longrightarrow> x = y" for x y :: char
    by (drule arg_cong [where f = "\<lambda>w. unat w mod 256"]) (simp add: unat_of_nat of_char_mod_256)
  then show ?thesis
    unfolding ascii_bytes_def by (auto simp: inj_on_def intro: map_injective)
qed

section \<open>The interface of a signature\<close>

text \<open>
  A digest of a payload is stored as a tag beside it. Signing does not change the payload, and
  verifying compares the tag with the digest of the payload, up to \<open>matches\<close>, which tells any
  two digests apart. \<open>sound\<close> is what the digest asks of the hash function.
\<close>

locale payload_signature =
  fixes sound :: bool
    and payload :: "'s \<Rightarrow> bytes"
    and tag :: "'s \<Rightarrow> string"
    and digest :: "bytes \<Rightarrow> string"
    and matches :: "string \<Rightarrow> string \<Rightarrow> bool"
    and sign :: "'s \<Rightarrow> 's"
    and verify :: "'s \<Rightarrow> bool"
  assumes sign_payload: "payload (sign s) = payload s"
    and sign_tag: "tag (sign s) = digest (payload s)"
    and verify_iff: "verify s \<longleftrightarrow> tag s \<noteq> [] \<and> matches (digest (payload s)) (tag s)"
    and matches_refl: "matches t t"
    and matches_digests: "sound \<Longrightarrow> matches (digest a) t \<Longrightarrow> matches (digest b) t \<Longrightarrow> digest a = digest b"
    and digest_nonempty: "sound \<Longrightarrow> digest a \<noteq> []"
begin

lemma sign_verifies: "sound \<Longrightarrow> verify (sign s)"
  by (simp add: verify_iff sign_payload sign_tag matches_refl digest_nonempty)

lemma same_tag_same_digest:
  "sound \<Longrightarrow> verify s \<Longrightarrow> verify t \<Longrightarrow> tag t = tag s \<Longrightarrow> digest (payload t) = digest (payload s)"
  by (metis matches_digests verify_iff)

end

definition sha_sound :: "snap_codec \<Rightarrow> bool" where
  "sha_sound c \<longleftrightarrow> (\<forall>b. length (sha256 c b) = 32)"

lemma sha_length: "sha_sound c \<Longrightarrow> length (sha256 c b) = 32"
  by (simp add: sha_sound_def)

lemma hmac_length: "sha_sound c \<Longrightarrow> length (compute_hmac_sha256 c key m) = 32"
  by (simp add: compute_hmac_sha256_def Let_def sha_length)

lemma payload_update [simp]:
  "canonical_payload_bytes c (s\<lparr>sha256_hash := h\<rparr>) = canonical_payload_bytes c s"
  "canonical_payload_bytes c (s\<lparr>hmac_signature := g\<rparr>) = canonical_payload_bytes c s"
  by (simp_all add: canonical_payload_bytes_def)

lemma compute_update [simp]:
  "compute_payload_hash c (s\<lparr>sha256_hash := h\<rparr>) = compute_payload_hash c s"
  "compute_payload_hash c (s\<lparr>hmac_signature := g\<rparr>) = compute_payload_hash c s"
  "compute_payload_hmac c key (s\<lparr>sha256_hash := h\<rparr>) = compute_payload_hmac c key s"
  "compute_payload_hmac c key (s\<lparr>hmac_signature := g\<rparr>) = compute_payload_hmac c key s"
  by (simp_all add: compute_payload_hash_def compute_payload_hmac_def)

lemma digest_nonempty_bytes:
  assumes "sha_sound c"
  shows "sha256 c b \<noteq> []" and "compute_hmac_sha256 c key b \<noteq> []"
  using sha_length [OF assms, of b] hmac_length [OF assms, of key b] by auto

interpretation hash_sig: payload_signature
  "sha_sound c" "canonical_payload_bytes c" sha256_hash "\<lambda>b. hex_of_bytes (sha256 c b)"
  eq_ignore_ascii_case "sign_in_place c" "verify_integrity c"
  for c
  by unfold_locales
    (auto simp: sign_in_place_def compute_payload_hash_def verify_integrity_def eq_ignore_ascii_case_def
      digest_nonempty_bytes)

interpretation hmac_sig: payload_signature
  "sha_sound c" "canonical_payload_bytes c" hmac_signature
  "\<lambda>b. hex_of_bytes (compute_hmac_sha256 c key b)" "(=)" "sign_with_key c key" "verify_hmac c key"
  for c key
  by unfold_locales
    (auto simp: sign_with_key_def Let_def compute_payload_hmac_def verify_hmac_def constant_time_eq_iff
      ascii_bytes_inj digest_nonempty_bytes)

section \<open>No collision, no forgery by editing\<close>

text \<open>The messages the hash function sees when a payload is authenticated.\<close>

definition hmac_inputs :: "snap_codec \<Rightarrow> bytes \<Rightarrow> bytes \<Rightarrow> bytes set" where
  "hmac_inputs c key message =
     (let k = hmac_key_block c key; inner = map (\<lambda>b. b XOR 0x36) k @ message
      in {inner, map (\<lambda>b. b XOR 0x5c) k @ sha256 c inner})"

lemma hmac_collision_free:
  assumes "inj_on (sha256 c) (hmac_inputs c key a \<union> hmac_inputs c key b)"
    and "compute_hmac_sha256 c key a = compute_hmac_sha256 c key b"
  shows "a = b"
proof -
  let ?i = "map (\<lambda>b. b XOR 0x36) (hmac_key_block c key)"
  let ?o = "map (\<lambda>b. b XOR 0x5c) (hmac_key_block c key)"
  have "?o @ sha256 c (?i @ a) = ?o @ sha256 c (?i @ b)"
    by (rule inj_onD [OF assms(1) assms(2) [unfolded compute_hmac_sha256_def Let_def]])
      (simp_all only: hmac_inputs_def Let_def Un_iff insert_iff simp_thms)
  then have inner: "sha256 c (?i @ a) = sha256 c (?i @ b)" by simp
  have "?i @ a = ?i @ b"
    by (rule inj_onD [OF assms(1) inner]) (simp_all only: hmac_inputs_def Let_def Un_iff insert_iff simp_thms)
  then show ?thesis by simp
qed


section \<open>Properties\<close>

text \<open>
  the constant-time comparison decides equality.
\<close>

theorem constant_time_eq_correct: "constant_time_eq a b \<longleftrightarrow> a = b"
  by (rule constant_time_eq_iff)

text \<open>
  with a hash function of 32-byte digests, a snapshot signed with a key passes both the
  keyed and the unkeyed verification, whatever signatures it carried before.
\<close>

theorem signed_snapshot_verifies:
  assumes "sha_sound c"
  shows "verify_hmac c key (sign_with_key c key s) \<and> verify_integrity c (sign_with_key c key s)"
proof -
  have "verify_integrity c (sign_with_key c key s) = verify_integrity c (sign_in_place c s)"
    by (simp add: verify_integrity_def sign_with_key_def sign_in_place_def Let_def)
  with hmac_sig.sign_verifies [OF assms] hash_sig.sign_verifies [OF assms] show ?thesis by simp
qed

definition demo_codec :: snap_codec where
  "demo_codec =
    \<lparr>sha256 = (\<lambda>b. take 32 (b @ replicate 32 0)),
     snap_to_vec = (\<lambda>s. Some (if previous_game_mode s = Some True then [1] else [2])),
     snap_to_pretty = (\<lambda>s. Some []), snap_from_str = (\<lambda>b. None)\<rparr>"

lemma demo_sha_sound: "sha_sound demo_codec"
  by (auto simp: sha_sound_def demo_codec_def min_def)

theorem signed_snapshot_verifies_witness:
  "sha_sound demo_codec \<and>
   verify_hmac demo_codec [9] (sign_with_key demo_codec [9] (new_snapshot ''snap_1'' ''now''))"
  using signed_snapshot_verifies [OF demo_sha_sound] demo_sha_sound by blast

text \<open>
  C7: an edited snapshot is rejected. If a snapshot verifies under a key, and another one carries
  the same HMAC but encodes to a different payload, the other one does not verify, unless the
  hash function collides on one of the four messages hashed for the two.
\<close>

theorem edited_snapshot_rejected:
  assumes "sha_sound c" and "verify_hmac c key s"
    and "hmac_signature t = hmac_signature s"
    and "canonical_payload_bytes c t \<noteq> canonical_payload_bytes c s"
    and "inj_on (sha256 c) (hmac_inputs c key (canonical_payload_bytes c t) \<union>
                            hmac_inputs c key (canonical_payload_bytes c s))"
  shows "\<not> verify_hmac c key t"
proof
  assume "verify_hmac c key t"
  from hmac_sig.same_tag_same_digest [OF assms(1,2) this assms(3)]
  have "compute_hmac_sha256 c key (canonical_payload_bytes c t) =
      compute_hmac_sha256 c key (canonical_payload_bytes c s)"
    by (rule hex_of_bytes_inj [rotated]) (simp add: hmac_length [OF assms(1)])
  from hmac_collision_free [OF assms(5) this] assms(4) show False by simp
qed

definition demo_inj_codec :: snap_codec where
  "demo_inj_codec = demo_codec\<lparr>sha256 := (\<lambda>b. take 32 ([hd b] @ drop 64 b @ replicate 32 0))\<rparr>"

theorem edited_snapshot_rejected_witness:
  "let s = sign_with_key demo_inj_codec [9] (new_snapshot ''snap_1'' ''now'')
   in verify_hmac demo_inj_codec [9] s \<and>
      \<not> verify_hmac demo_inj_codec [9] (s\<lparr>previous_game_mode := Some True\<rparr>)"
proof -
  let ?s = "sign_with_key demo_inj_codec [9] (new_snapshot ''snap_1'' ''now'')"
  let ?t = "?s\<lparr>previous_game_mode := Some True\<rparr>"
  have sound: "sha_sound demo_inj_codec"
    by (auto simp: sha_sound_def demo_inj_codec_def min_def)
  have ok: "verify_hmac demo_inj_codec [9] ?s"
    by (rule hmac_sig.sign_verifies [OF sound])
  have p: "canonical_payload_bytes demo_inj_codec ?t = [1]" "canonical_payload_bytes demo_inj_codec ?s = [2]"
    by (simp_all add: canonical_payload_bytes_def sign_with_key_def new_snapshot_def Let_def
        demo_inj_codec_def demo_codec_def)
  have "inj_on (sha256 demo_inj_codec) (hmac_inputs demo_inj_codec [9] [1] \<union> hmac_inputs demo_inj_codec [9] [2])"
    by (simp add: hmac_inputs_def hmac_key_block_def demo_inj_codec_def inj_on_def)
  with edited_snapshot_rejected [OF sound ok, of ?t] p have "\<not> verify_hmac demo_inj_codec [9] ?t" by simp
  with ok show ?thesis by (simp add: Let_def)
qed

end
