(* ===== verification/Game_Mode.thy ===== *)
theory Game_Mode
  imports Win32_Demo
begin

text \<open>
  \<^verbatim>\<open>optimizations/game_mode.rs\<close>: reading, enforcing and restoring the Windows Game Mode values
  of the current user. The setting interprets \<open>reversible_setting\<close> with what
  \<^verbatim>\<open>get_game_mode_state\<close> reports as its observation.
\<close>

definition GAME_BAR_SUBKEY :: string where
  "GAME_BAR_SUBKEY = win ''Software/Microsoft/GameBar''"

definition VALUE_ALLOW_AUTO_GAME_MODE :: string where
  "VALUE_ALLOW_AUTO_GAME_MODE = ''AllowAutoGameMode''"

definition VALUE_AUTO_GAME_MODE_ENABLED :: string where
  "VALUE_AUTO_GAME_MODE_ENABLED = ''AutoGameModeEnabled''"

datatype game_mode_error = GameBarKeyFailed u32 | GameModeWriteFailed

definition get_game_mode_state ::
  "'w win32 \<Rightarrow> 'w machine \<Rightarrow> (game_mode_error, bool) rust_result" where
  "get_game_mode_state os m =
     (if reg_open os HKEY_CURRENT_USER GAME_BAR_SUBKEY KEY_READ (env m) \<noteq> 0 then Ok True
      else case reg_get_dword os HKEY_CURRENT_USER GAME_BAR_SUBKEY VALUE_ALLOW_AUTO_GAME_MODE (env m) of
             Some data \<Rightarrow> Ok (data \<noteq> 0)
           | None \<Rightarrow> Ok True)"

definition set_game_mode ::
  "'w win32 \<Rightarrow> bool \<Rightarrow> 'w machine \<Rightarrow> (game_mode_error, bool) rust_result \<times> 'w machine" where
  "set_game_mode os enable m =
     (let previous_state = unwrap_or (get_game_mode_state os m) True;
          (create_status, m) = RegCreateKeyExW os HKEY_CURRENT_USER GAME_BAR_SUBKEY m
      in if create_status \<noteq> 0 then (Err (GameBarKeyFailed create_status), m)
         else
           let val = (if enable then 1 else 0);
               (set_status_1, m) =
                 RegSetValueExW os HKEY_CURRENT_USER GAME_BAR_SUBKEY VALUE_ALLOW_AUTO_GAME_MODE val m;
               (set_status_2, m) =
                 RegSetValueExW os HKEY_CURRENT_USER GAME_BAR_SUBKEY VALUE_AUTO_GAME_MODE_ENABLED val m
           in if set_status_1 \<noteq> 0 \<and> set_status_2 \<noteq> 0 then (Err GameModeWriteFailed, m)
              else (Ok previous_state, m))"

definition restore_game_mode ::
  "'w win32 \<Rightarrow> bool \<Rightarrow> 'w machine \<Rightarrow> (game_mode_error, unit) rust_result \<times> 'w machine" where
  "restore_game_mode os previous_state m =
     (case set_game_mode os previous_state m of
        (Inl e, m) \<Rightarrow> (Err e, m)
      | (Inr _, m) \<Rightarrow> (Ok (), m))"

section \<open>Behaviour\<close>

text \<open>The value \<^verbatim>\<open>get_game_mode_state\<close> reads can be written.\<close>

definition game_mode_writable :: "'w win32 \<Rightarrow> bool" where
  "game_mode_writable os \<longleftrightarrow>
     (\<forall>v w. fst (reg_set_dword os HKEY_CURRENT_USER GAME_BAR_SUBKEY VALUE_ALLOW_AUTO_GAME_MODE v w) = 0)"

lemma value_names_differ:
  "\<not> eq_ignore_ascii_case VALUE_ALLOW_AUTO_GAME_MODE VALUE_AUTO_GAME_MODE_ENABLED"
  by code_simp

lemma get_game_mode_state_ok: "get_game_mode_state os m = Ok (unwrap_or (get_game_mode_state os m) True)"
  by (simp add: get_game_mode_state_def split: option.split)

lemma set_game_mode_steps:
  fixes enable
  defines "val \<equiv> (if enable then 1 else 0)"
  shows "snd (set_game_mode os enable m) =
    (let m1 = snd (RegCreateKeyExW os HKEY_CURRENT_USER GAME_BAR_SUBKEY m)
     in if fst (RegCreateKeyExW os HKEY_CURRENT_USER GAME_BAR_SUBKEY m) \<noteq> 0 then m1
        else snd (RegSetValueExW os HKEY_CURRENT_USER GAME_BAR_SUBKEY VALUE_AUTO_GAME_MODE_ENABLED val
               (snd (RegSetValueExW os HKEY_CURRENT_USER GAME_BAR_SUBKEY VALUE_ALLOW_AUTO_GAME_MODE val m1))))"
  unfolding val_def by (simp add: set_game_mode_def Let_def case_prod_beta)

lemma set_game_mode_previous:
  "fst (set_game_mode os enable m) = Ok prev \<Longrightarrow> get_game_mode_state os m = Ok prev"
  by (subst get_game_mode_state_ok)
    (auto simp: set_game_mode_def Let_def case_prod_beta split: if_splits)

lemma set_game_mode_created:
  "fst (set_game_mode os enable m) = Ok prev \<Longrightarrow>
     fst (RegCreateKeyExW os HKEY_CURRENT_USER GAME_BAR_SUBKEY m) = 0"
  by (auto simp: set_game_mode_def Let_def case_prod_beta split: if_splits)

lemma set_game_mode_keeps_open:
  "registry_laws os \<Longrightarrow> keeps_open os m (snd (set_game_mode os enable m))"
  unfolding set_game_mode_steps Let_def
  by (simp add: registry_keeps_open_step)

lemma set_game_mode_power:
  "power_laws os \<Longrightarrow>
     power_get_active os (env (snd (set_game_mode os enable m))) = power_get_active os (env m)"
  unfolding set_game_mode_steps Let_def by (simp add: registry_power)

lemma set_game_mode_other_values:
  assumes "registry_laws os" and "\<not> (h = HKEY_CURRENT_USER \<and> eq_ignore_ascii_case k GAME_BAR_SUBKEY)"
  shows "dwords os (env (snd (set_game_mode os enable m))) h k n = dwords os (env m) h k n"
  unfolding set_game_mode_steps Let_def
  using assms by (auto simp: registry_dwords update_dword_apply)

lemma set_game_mode_value:
  assumes "registry_laws os" and "game_mode_writable os" and "fst (set_game_mode os enable m) = Ok prev"
  shows "dwords os (env (snd (set_game_mode os enable m))) HKEY_CURRENT_USER GAME_BAR_SUBKEY
           VALUE_ALLOW_AUTO_GAME_MODE = Some (if enable then 1 else 0)"
proof -
  have "fst (RegSetValueExW os HKEY_CURRENT_USER GAME_BAR_SUBKEY VALUE_ALLOW_AUTO_GAME_MODE v m') = 0" for v m'
    using assms(2) by (simp add: game_mode_writable_def registry_calls)
  then show ?thesis
    using set_game_mode_created [OF assms(3)] value_names_differ
    unfolding set_game_mode_steps Let_def
    by (auto simp: registry_dwords [OF assms(1)] update_dword_apply)
qed

lemma set_game_mode_effective:
  assumes "registry_laws os" and "game_mode_writable os" and "fst (set_game_mode os enable m) = Ok prev"
    and "enable \<or> reg_open os HKEY_CURRENT_USER GAME_BAR_SUBKEY KEY_READ (env m) = 0"
  shows "get_game_mode_state os (snd (set_game_mode os enable m)) = Ok enable"
  using set_game_mode_value [OF assms(1-3)] keeps_openD [OF set_game_mode_keeps_open [OF assms(1)]] assms(4)
  by (auto simp: get_game_mode_state_def reg_get_dwords split: option.splits)

lemma restore_game_mode_set:
  "snd (restore_game_mode os b m) = snd (set_game_mode os b m)"
  "fst (restore_game_mode os b m) = Ok () \<longleftrightarrow> (\<exists>p. fst (set_game_mode os b m) = Ok p)"
  by (auto simp: restore_game_mode_def split: prod.split sum.split)

lemma restore_game_mode_restores:
  assumes laws: "registry_laws os" "game_mode_writable os"
    and prev: "get_game_mode_state os m = Ok prev" and later: "keeps_open os m m'"
    and restore: "fst (restore_game_mode os prev m') = Ok ()"
  shows "get_game_mode_state os (snd (restore_game_mode os prev m')) = Ok prev"
proof -
  obtain p where set: "fst (set_game_mode os prev m') = Ok p"
    using restore restore_game_mode_set(2) by blast
  have "prev \<or> reg_open os HKEY_CURRENT_USER GAME_BAR_SUBKEY KEY_READ (env m') = 0"
    using prev keeps_openD [OF later] by (auto simp: get_game_mode_state_def split: if_splits)
  from set_game_mode_effective [OF laws set this] show ?thesis
    by (simp add: restore_game_mode_set)
qed

interpretation game_mode_setting: reversible_setting
  "registry_laws os \<and> game_mode_writable os" "keeps_open os" "get_game_mode_state os"
  "set_game_mode os True" "restore_game_mode os"
  for os
proof unfold_locales
  fix m m1 m2 m3 :: "'a machine" and b
  assume sound: "registry_laws os \<and> game_mode_writable os"
    and set: "set_game_mode os True m = (Ok b, m1)" and "keeps_open os m1 m2"
    and restore: "restore_game_mode os b m2 = (Ok (), m3)"
  then have "keeps_open os m m2"
    using set_game_mode_keeps_open [of os m True] keeps_open_trans by fastforce
  from restore_game_mode_restores [OF _ _ _ this, of b] sound set restore set_game_mode_previous [of os True m b]
  show "get_game_mode_state os m3 = get_game_mode_state os m" by simp
qed (auto simp: set_game_mode_keeps_open restore_game_mode_set intro: keeps_open_trans)

section \<open>Properties\<close>

text \<open>
  enforcing Game Mode and restoring the reported previous state gives back what
  \<^verbatim>\<open>get_game_mode_state\<close> reported before, when the value can be written.
\<close>

theorem game_mode_restored:
  assumes "registry_laws os" "game_mode_writable os"
    and "set_game_mode os True m = (Ok previous, m1)"
    and "restore_game_mode os previous m1 = (Ok (), m2)"
  shows "get_game_mode_state os m2 = get_game_mode_state os m"
  using game_mode_setting.change_undo [of os m previous m1 m2] assms by simp

theorem game_mode_restored_witness:
  "\<exists>m1 m2. set_game_mode demo_os True demo_machine = (Ok True, m1) \<and>
     restore_game_mode demo_os True m1 = (Ok (), m2) \<and>
     get_game_mode_state demo_os m2 = get_game_mode_state demo_os demo_machine"
proof -
  have "game_mode_writable demo_os" by (simp add: game_mode_writable_def demo_os_def)
  moreover obtain m1 where "set_game_mode demo_os True demo_machine = (Ok True, m1)"
    by (simp add: set_game_mode_def get_game_mode_state_def registry_calls call_def demo_os_def
        demo_machine_def demo_world_def)
  moreover obtain m2 where "restore_game_mode demo_os True m1 = (Ok (), m2)"
    by (simp add: restore_game_mode_def set_game_mode_def registry_calls call_def demo_os_def)
  ultimately show ?thesis
    using game_mode_restored [OF demo_registry_laws] by blast
qed

end
