(* ===== verification/Power_Scheme.thy ===== *)
theory Power_Scheme
  imports Win32_Demo
begin

text \<open>
  \<^verbatim>\<open>optimizations/power.rs\<close>: the active power scheme, the choice of a scheme for a desktop or a
  laptop, and the textual form of a GUID. Applying and restoring a scheme interpret
  \<open>reversible_setting\<close>.
\<close>

section \<open>The model\<close>

definition ULTIMATE_PERFORMANCE_GUID :: guid where
  "ULTIMATE_PERFORMANCE_GUID =
     \<lparr>data1 = 0xe9a42b02, data2 = 0xd5df, data3 = 0x448d,
      data4 = [0xaa, 0x00, 0x03, 0xf1, 0x47, 0x49, 0xeb, 0x61]\<rparr>"

definition HIGH_PERFORMANCE_GUID :: guid where
  "HIGH_PERFORMANCE_GUID =
     \<lparr>data1 = 0x8c5e7fda, data2 = 0xe8bf, data3 = 0x4a96,
      data4 = [0x9a, 0x85, 0xa6, 0xe2, 0x3a, 0x8c, 0x63, 0x5c]\<rparr>"

definition BALANCED_PLAN_GUID :: guid where
  "BALANCED_PLAN_GUID =
     \<lparr>data1 = 0x381b4222, data2 = 0xf694, data3 = 0x41f0,
      data4 = [0x96, 0x85, 0xff, 0x5b, 0xb2, 0x60, 0xdf, 0x2e]\<rparr>"

definition POWER_SAVER_GUID :: guid where
  "POWER_SAVER_GUID =
     \<lparr>data1 = 0xa1841308, data2 = 0x3541, data3 = 0x4fab,
      data4 = [0xbc, 0x81, 0xf7, 0x15, 0x56, 0xf2, 0x0b, 0x4a]\<rparr>"

datatype power_error = PowerGetFailed u32 | PowerSetFailed guid u32

definition is_laptop :: "'w win32 \<Rightarrow> 'w machine \<Rightarrow> bool" where
  "is_laptop os m =
     (case battery_flag os (env m) of
        Some flag \<Rightarrow> flag \<noteq> 128 \<and> flag \<noteq> 255
      | None \<Rightarrow> False)"

definition get_active_power_scheme :: "'w win32 \<Rightarrow> 'w machine \<Rightarrow> (power_error, guid) rust_result" where
  "get_active_power_scheme os m =
     (case power_get_active os (env m) of
        (status, None) \<Rightarrow> Err (PowerGetFailed status)
      | (status, Some active_guid) \<Rightarrow>
          if status \<noteq> 0 then Err (PowerGetFailed status) else Ok active_guid)"

definition set_active_power_scheme ::
  "'w win32 \<Rightarrow> guid \<Rightarrow> 'w machine \<Rightarrow> (power_error, unit) rust_result \<times> 'w machine" where
  "set_active_power_scheme os target_guid m =
     (let (status, m) = call (SetPowerScheme target_guid) (power_set_active os target_guid) m
      in if status \<noteq> 0 then (Err (PowerSetFailed target_guid status), m) else (Ok (), m))"

definition apply_gaming_power_scheme ::
  "'w win32 \<Rightarrow> 'w machine \<Rightarrow> (power_error, guid) rust_result \<times> 'w machine" where
  "apply_gaming_power_scheme os m =
     (case get_active_power_scheme os m of
        Inl e \<Rightarrow> (Err e, m)
      | Inr original_guid \<Rightarrow>
          if is_laptop os m then (Ok original_guid, m)
          else
            case set_active_power_scheme os ULTIMATE_PERFORMANCE_GUID m of
              (Inr _, m) \<Rightarrow> (Ok original_guid, m)
            | (Inl _, m) \<Rightarrow>
                (case set_active_power_scheme os HIGH_PERFORMANCE_GUID m of
                   (Inl e, m) \<Rightarrow> (Err e, m)
                 | (Inr _, m) \<Rightarrow> (Ok original_guid, m)))"

definition restore_power_scheme ::
  "'w win32 \<Rightarrow> guid \<Rightarrow> 'w machine \<Rightarrow> (power_error, unit) rust_result \<times> 'w machine" where
  "restore_power_scheme os original_guid m = set_active_power_scheme os original_guid m"

subsection \<open>GUID text\<close>

definition guid_to_string :: "guid \<Rightarrow> string" where
  "guid_to_string g =
     hex_fixed 8 (unat (data1 g)) @ ''-'' @ hex_fixed 4 (unat (data2 g)) @ ''-'' @
     hex_fixed 4 (unat (data3 g)) @ ''-'' @
     hex_fixed 2 (unat (data4 g ! 0)) @ hex_fixed 2 (unat (data4 g ! 1)) @ ''-'' @
     hex_fixed 2 (unat (data4 g ! 2)) @ hex_fixed 2 (unat (data4 g ! 3)) @
     hex_fixed 2 (unat (data4 g ! 4)) @ hex_fixed 2 (unat (data4 g ! 5)) @
     hex_fixed 2 (unat (data4 g ! 6)) @ hex_fixed 2 (unat (data4 g ! 7))"

datatype guid_error = InvalidGuidString string | ParseIntError string

definition parse_hex :: "nat \<Rightarrow> string \<Rightarrow> (guid_error, nat) rust_result" where
  "parse_hex w s = (case from_str_radix16 w s of None \<Rightarrow> Err (ParseIntError s) | Some v \<Rightarrow> Ok v)"

definition string_to_guid :: "string \<Rightarrow> (guid_error, guid) rust_result" where
  "string_to_guid s =
     (let clean = trim_matches CHR ''}'' (trim_matches CHR ''{'' (trim s));
          parts = split_on CHR ''-'' clean
      in if length parts \<noteq> 5 then Err (InvalidGuidString s)
         else
           case parse_hex 32 (parts ! 0) of Inl e \<Rightarrow> Err e | Inr d1 \<Rightarrow>
           case parse_hex 16 (parts ! 1) of Inl e \<Rightarrow> Err e | Inr d2 \<Rightarrow>
           case parse_hex 16 (parts ! 2) of Inl e \<Rightarrow> Err e | Inr d3 \<Rightarrow>
           case parse_hex 16 (parts ! 3) of Inl e \<Rightarrow> Err e | Inr p3 \<Rightarrow>
           case parse_hex 64 (parts ! 4) of Inl e \<Rightarrow> Err e | Inr p4 \<Rightarrow>
             let w3 = (of_nat p3 :: u16); w4 = (of_nat p4 :: u64);
                 d4 = ucast (drop_bit 8 w3) # ucast (w3 AND 0xFF) #
                      map (\<lambda>i. ucast (drop_bit (8 * (5 - i)) w4 AND 0xFF)) [0..<6]
             in Ok \<lparr>data1 = of_nat d1, data2 = of_nat d2, data3 = of_nat d3, data4 = d4\<rparr>)"

section \<open>Scheme behaviour\<close>

lemma set_active_power_scheme_laws:
  assumes "power_laws os"
  shows "power_get_active os (env (snd (set_active_power_scheme os g m))) =
           (if fst (set_active_power_scheme os g m) = Ok () then (0, Some g)
            else power_get_active os (env m))"
    and "dwords os (env (snd (set_active_power_scheme os g m))) = dwords os (env m)"
    and "keeps_open os m (snd (set_active_power_scheme os g m))"
  using power_set_law [OF assms surjective_pairing]
  by (auto simp: set_active_power_scheme_def keeps_open_def Let_def case_prod_beta)

lemma get_active_power_scheme_cong:
  "power_get_active os (env m) = power_get_active os (env m') \<Longrightarrow>
     get_active_power_scheme os m = get_active_power_scheme os m'"
  by (simp add: get_active_power_scheme_def)

lemma set_active_power_scheme_get:
  assumes "power_laws os"
  shows "get_active_power_scheme os (snd (set_active_power_scheme os g m)) =
    (if fst (set_active_power_scheme os g m) = Ok () then Ok g else get_active_power_scheme os m)"
  using set_active_power_scheme_laws(1) [OF assms, of g m]
  by (simp add: get_active_power_scheme_def)

lemma apply_gaming_power_scheme_frame:
  assumes "power_laws os"
  shows "dwords os (env (snd (apply_gaming_power_scheme os m))) = dwords os (env m)"
    and "keeps_open os m (snd (apply_gaming_power_scheme os m))"
proof -
  note set = set_active_power_scheme_laws(2,3) [OF assms]
  let ?m1 = "snd (set_active_power_scheme os ULTIMATE_PERFORMANCE_GUID m)"
  have "keeps_open os m (snd (set_active_power_scheme os HIGH_PERFORMANCE_GUID ?m1))"
    by (rule keeps_open_trans) (rule set)+
  moreover have "snd (apply_gaming_power_scheme os m) \<in>
    {m, ?m1, snd (set_active_power_scheme os HIGH_PERFORMANCE_GUID ?m1)}"
    by (auto simp: apply_gaming_power_scheme_def split: sum.split prod.split)
  ultimately show "dwords os (env (snd (apply_gaming_power_scheme os m))) = dwords os (env m)"
    and "keeps_open os m (snd (apply_gaming_power_scheme os m))"
    using set by auto
qed

lemma apply_gaming_power_scheme_result:
  assumes "power_laws os" and "apply_gaming_power_scheme os m = (r, m')"
  shows "case r of
           Inl _ \<Rightarrow> get_active_power_scheme os m' = get_active_power_scheme os m
         | Inr original \<Rightarrow> get_active_power_scheme os m = Ok original \<and>
             (if is_laptop os m then m' = m
              else get_active_power_scheme os m' \<in>
                     {Ok ULTIMATE_PERFORMANCE_GUID, Ok HIGH_PERFORMANCE_GUID})"
proof -
  note set = set_active_power_scheme_get [OF assms(1)]
  show ?thesis
    using assms(2) set [of ULTIMATE_PERFORMANCE_GUID m]
      set [of HIGH_PERFORMANCE_GUID "snd (set_active_power_scheme os ULTIMATE_PERFORMANCE_GUID m)"]
    by (auto simp: apply_gaming_power_scheme_def split: sum.splits prod.splits if_splits)
qed

section \<open>The GUID round trip\<close>

lemma parse_hex_fixed:
  "0 < k \<Longrightarrow> n < 16 ^ k \<Longrightarrow> n < 2 ^ w \<Longrightarrow> parse_hex w (hex_fixed k n) = Ok n"
  by (simp add: parse_hex_def from_str_radix16_fixed)

lemma no_dash_hex: "CHR ''-'' \<notin> set (hex_fixed k n)"
  using set_hex_fixed hex_digit_not_special by metis

lemma string_to_guid_of_string:
  assumes "length (data4 g) = 8"
  shows "string_to_guid (guid_to_string g) = Ok g"
proof -
  let ?hi = "take 2 (data4 g)" and ?lo = "drop 2 (data4 g)"
  let ?p = "hex_fixed 8 (unat (data1 g))" and ?q = "hex_fixed 12 (be_val ?lo)"
  obtain b0 b1 b2 b3 b4 b5 b6 b7 where d4: "data4 g = [b0, b1, b2, b3, b4, b5, b6, b7]"
    using assms by (auto simp: length_Suc_conv eval_nat_numeral)
  have hi: "hex_fixed 4 (be_val ?hi) = hex_fixed 2 (unat b0) @ hex_fixed 2 (unat b1)"
    and lo: "?q = hex_fixed 2 (unat b2) @ hex_fixed 2 (unat b3) @ hex_fixed 2 (unat b4) @
      hex_fixed 2 (unat b5) @ hex_fixed 2 (unat b6) @ hex_fixed 2 (unat b7)"
    using hex_be_val [of ?hi] hex_be_val [of ?lo] by (simp_all add: d4)
  have str: "guid_to_string g = ?p @ CHR ''-'' # hex_fixed 4 (unat (data2 g)) @ CHR ''-'' #
      hex_fixed 4 (unat (data3 g)) @ CHR ''-'' # hex_fixed 4 (be_val ?hi) @ CHR ''-'' # ?q"
    unfolding guid_to_string_def hi lo by (simp add: d4)
  have "?p \<noteq> []" and "?q \<noteq> []"
    by (simp_all add: hex_fixed_Nil)
  then have "hd (guid_to_string g) \<in> set ?p" and "last (guid_to_string g) \<in> set ?q"
    by (simp_all add: str)
  then have ends: "\<not> P (hd (guid_to_string g)) \<and> \<not> P (last (guid_to_string g))"
    if "P = is_whitespace \<or> P = (\<lambda>c. c = CHR ''{'') \<or> P = (\<lambda>c. c = CHR ''}'')" for P
    using that set_hex_fixed hex_digit_not_special by metis
  have ne: "guid_to_string g \<noteq> []" by (simp add: str)
  have trim: "trim_both P (guid_to_string g) = guid_to_string g"
    if "P = is_whitespace \<or> P = (\<lambda>c. c = CHR ''{'') \<or> P = (\<lambda>c. c = CHR ''}'')" for P
    by (rule trim_both_id [OF ne conjunct1 [OF ends [OF that]] conjunct2 [OF ends [OF that]]])
  have clean: "trim_matches CHR ''}'' (trim_matches CHR ''{'' (trim (guid_to_string g))) = guid_to_string g"
    by (simp only: trim simp_thms)
  have parts: "split_on CHR ''-'' (guid_to_string g) =
      [?p, hex_fixed 4 (unat (data2 g)), hex_fixed 4 (unat (data3 g)), hex_fixed 4 (be_val ?hi), ?q]"
    unfolding str by (simp add: split_on_append split_on_no_delim no_dash_hex)
  have hi_lt: "be_val ?hi < 65536" and lo_lt: "be_val ?lo < 281474976710656"
    using be_val_less [of ?hi] be_val_less [of ?lo] assms by simp_all
  have w0: "ucast (drop_bit 8 (of_nat (be_val ?hi) :: u16)) = b0"
    using byte_of_word [of "be_val ?hi" 8, where ?'a = 16] be_val_nth [of 0 ?hi] hi_lt
    by (simp only: ucast_low_byte) (simp add: d4)
  have w1: "ucast (of_nat (be_val ?hi) AND 0xFF :: u16) = b1"
    using byte_of_word [of "be_val ?hi" 0, where ?'a = 16] be_val_nth [of 1 ?hi] hi_lt
    by (simp add: d4)
  have w2: "map (\<lambda>i. ucast (drop_bit (8 * (5 - i)) (of_nat (be_val ?lo) :: u64) AND 0xFF)) [0..<6] = ?lo"
  proof (rule nth_equalityI)
    fix i assume "i < length (map (\<lambda>i. ucast (drop_bit (8 * (5 - i)) (of_nat (be_val ?lo) :: u64) AND 0xFF) :: u8) [0..<6])"
    then have "i < 6" by simp
    then show "map (\<lambda>i. ucast (drop_bit (8 * (5 - i)) (of_nat (be_val ?lo) :: u64) AND 0xFF)) [0..<6] ! i = ?lo ! i"
      using byte_of_word [of "be_val ?lo" "8 * (5 - i)", where ?'a = 64] be_val_nth [of i ?lo] lo_lt assms
      by simp
  qed (simp add: assms)
  have "parse_hex 32 ?p = Ok (unat (data1 g))"
    "parse_hex 16 (hex_fixed 4 (unat (data2 g))) = Ok (unat (data2 g))"
    "parse_hex 16 (hex_fixed 4 (unat (data3 g))) = Ok (unat (data3 g))"
    "parse_hex 16 (hex_fixed 4 (be_val ?hi)) = Ok (be_val ?hi)"
    "parse_hex 64 ?q = Ok (be_val ?lo)"
    using hi_lt lo_lt unsigned_less [of "data1 g", where ?'a = nat]
      unsigned_less [of "data2 g", where ?'a = nat] unsigned_less [of "data3 g", where ?'a = nat]
    by (intro parse_hex_fixed; simp)+
  then show ?thesis
    unfolding string_to_guid_def clean Let_def parts using w0 w1 w2 by (simp add: d4)
qed

section \<open>The scheme as a reversible setting\<close>

interpretation power_setting: reversible_setting
  "power_laws os" "keeps_open os" "get_active_power_scheme os"
  "apply_gaming_power_scheme os" "restore_power_scheme os"
  for os
proof unfold_locales
  fix m m1 m2 m3 :: "'a machine" and b
  assume laws: "power_laws os" and "apply_gaming_power_scheme os m = (Ok b, m1)"
    and restore: "restore_power_scheme os b m2 = (Ok (), m3)"
  then have "get_active_power_scheme os m = Ok b"
    using apply_gaming_power_scheme_result by fastforce
  then show "get_active_power_scheme os m3 = get_active_power_scheme os m"
    using set_active_power_scheme_get [OF laws, of b m2] restore by (simp add: restore_power_scheme_def)
qed (auto simp: apply_gaming_power_scheme_frame set_active_power_scheme_laws restore_power_scheme_def
      intro: keeps_open_trans)

section \<open>Properties\<close>

text \<open>
  parsing the text of a GUID gives the GUID back, for every GUID with its eight trailing
  bytes: the scheme a transaction stores as text is the scheme a rollback selects.
\<close>

theorem guid_string_roundtrip:
  assumes "length (data4 g) = 8"
  shows "string_to_guid (guid_to_string g) = Ok g"
  by (rule string_to_guid_of_string [OF assms])

theorem guid_string_roundtrip_witness:
  "length (data4 BALANCED_PLAN_GUID) = 8 \<and>
   string_to_guid (guid_to_string BALANCED_PLAN_GUID) = Ok BALANCED_PLAN_GUID"
proof -
  have "length (data4 BALANCED_PLAN_GUID) = 8" by (simp add: BALANCED_PLAN_GUID_def)
  with guid_string_roundtrip [OF this] show ?thesis by blast
qed

text \<open>
  applying the gaming scheme reports the scheme that was active; on a laptop nothing changes,
  on a desktop Ultimate or High Performance is active afterwards, and on an error the active
  scheme is the one from before.
\<close>

theorem power_scheme_choice:
  assumes "power_laws os"
  shows "case apply_gaming_power_scheme os m of
           (Inl _, m') \<Rightarrow> get_active_power_scheme os m' = get_active_power_scheme os m
         | (Inr original, m') \<Rightarrow> get_active_power_scheme os m = Ok original \<and>
             (if is_laptop os m then m' = m
              else get_active_power_scheme os m' \<in>
                     {Ok ULTIMATE_PERFORMANCE_GUID, Ok HIGH_PERFORMANCE_GUID})"
  using apply_gaming_power_scheme_result [OF assms, of m]
  by (cases "apply_gaming_power_scheme os m"; cases "fst (apply_gaming_power_scheme os m)") auto

theorem power_scheme_choice_witness:
  "\<not> is_laptop demo_os demo_machine \<and>
   get_active_power_scheme demo_os (snd (apply_gaming_power_scheme demo_os demo_machine)) \<in>
     {Ok ULTIMATE_PERFORMANCE_GUID, Ok HIGH_PERFORMANCE_GUID}"
proof -
  have desktop: "\<not> is_laptop demo_os demo_machine"
    by (simp add: is_laptop_def demo_os_def demo_machine_def demo_world_def)
  moreover have "is_ok (fst (apply_gaming_power_scheme demo_os demo_machine))"
    using desktop by (simp add: apply_gaming_power_scheme_def get_active_power_scheme_def
        set_active_power_scheme_def call_def demo_os_def)
  ultimately show ?thesis
    using power_scheme_choice [OF demo_power_laws, of demo_machine]
    by (auto split: prod.splits sum.splits)
qed

end
