(* ===== verification/Coordinator.thy ===== *)
theory Coordinator
  imports Game_Mode Power_Scheme Audio Network_Adapter
begin

text \<open>
  \<^verbatim>\<open>optimizations/mod.rs\<close>: the coordinator that applies the three optimizations as one
  transaction, records it on disk, and rolls it back. The JSON encoding of the transaction is a
  parameter. The main result composes the three reversible settings: a committed transaction
  followed by its rollback leaves the observed system as it was.
\<close>

section \<open>The model\<close>

record OptimizationTransaction =
  tx_transaction_id :: string
  tx_timestamp_utc :: string
  tx_previous_game_mode :: "bool option"
  tx_previous_power_scheme :: "string option"
  tx_previous_audio_endpoints :: "AudioEndpointBackup list"
  tx_previous_adapter_properties :: "AdapterPropertyBackup list"
  tx_previous_qos_policy :: "QosPolicyBackup option"
  tx_is_applied :: bool

text \<open>
  \<^verbatim>\<open>serde_json\<close> on transactions.
\<close>

record tx_json =
  tx_encode :: "OptimizationTransaction \<Rightarrow> bytes option"
  tx_decode :: "bytes \<Rightarrow> OptimizationTransaction option"

datatype coordinator_error =
    GameModeStepFailed game_mode_error
  | TransactionReadFailed
  | TransactionDecodeFailed

definition get_snapshot_path :: "'w win32 \<Rightarrow> 'w machine \<Rightarrow> path \<times> 'w machine" where
  "get_snapshot_path os m =
     (let program_data = opt_unwrap_or (env_var os ''ProgramData'' (env m)) (win ''C:/ProgramData'');
          dir = path_join program_data ''ValorantOptimizer'';
          (_, m) = fs_create_dir_all os dir m
      in (path_join dir ''active_transaction.json'', m))"

text \<open>The five steps of a rollback, each of which only logs its failure.\<close>

definition rollback_network ::
  "'w win32 \<Rightarrow> OptimizationTransaction \<Rightarrow> 'w machine \<Rightarrow> 'w machine" where
  "rollback_network os tx m =
     (let m = (case tx_previous_qos_policy tx of
                 Some qos_backup \<Rightarrow> snd (unregister_qos_policy os qos_backup m)
               | None \<Rightarrow> m)
      in if tx_previous_adapter_properties tx \<noteq> []
         then snd (restore_adapter_properties os (tx_previous_adapter_properties tx) m)
         else m)"

definition rollback_settings ::
  "'w win32 \<Rightarrow> OptimizationTransaction \<Rightarrow> 'w machine \<Rightarrow> 'w machine" where
  "rollback_settings os tx m =
     (let m = (if tx_previous_audio_endpoints tx \<noteq> []
               then snd (restore_audio_enhancements os (tx_previous_audio_endpoints tx) m) else m);
          m = (case tx_previous_power_scheme tx of
                 Some scheme_str \<Rightarrow>
                   (case string_to_guid scheme_str of
                      Inr guid \<Rightarrow> snd (restore_power_scheme os guid m)
                    | Inl _ \<Rightarrow> m)
               | None \<Rightarrow> m)
      in case tx_previous_game_mode tx of
           Some prev_mode \<Rightarrow> snd (restore_game_mode os prev_mode m)
         | None \<Rightarrow> m)"

definition rollback ::
  "'w win32 \<Rightarrow> OptimizationTransaction \<Rightarrow> 'w machine \<Rightarrow>
     (coordinator_error, unit) rust_result \<times> 'w machine" where
  "rollback os tx m =
     (let m = rollback_network os tx m;
          m = rollback_settings os tx m;
          (snapshot_path, m) = get_snapshot_path os m;
          m = (if fs_exists os snapshot_path m then snd (fs_remove_file os snapshot_path m) else m)
      in (Ok (), m))"

definition persist_transaction ::
  "'w win32 \<Rightarrow> tx_json \<Rightarrow> OptimizationTransaction \<Rightarrow> 'w machine \<Rightarrow> 'w machine" where
  "persist_transaction os js tx m =
     (let (snapshot_path, m) = get_snapshot_path os m
      in case tx_encode js tx of
           Some json \<Rightarrow> snd (fs_write os snapshot_path json m)
         | None \<Rightarrow> m)"

definition apply_optimizations ::
  "'w win32 \<Rightarrow> tx_json \<Rightarrow> 'w machine \<Rightarrow>
     (coordinator_error, OptimizationTransaction) rust_result \<times> 'w machine" where
  "apply_optimizations os js m =
     (let tx = \<lparr>tx_transaction_id = ''tx_'' @ dec_string (unix_ms os (env m)),
                tx_timestamp_utc = now_debug os (env m),
                tx_previous_game_mode = None, tx_previous_power_scheme = None,
                tx_previous_audio_endpoints = [], tx_previous_adapter_properties = [],
                tx_previous_qos_policy = None, tx_is_applied = False\<rparr>
      in case set_game_mode os True m of
           (Inl e, m) \<Rightarrow>
             (case rollback os tx m of
                (Inl e', m) \<Rightarrow> (Err e', m)
              | (Inr _, m) \<Rightarrow> (Err (GameModeStepFailed e), m))
         | (Inr prev, m) \<Rightarrow>
             let tx = tx\<lparr>tx_previous_game_mode := Some prev\<rparr>;
                 (power_result, m) = apply_gaming_power_scheme os m;
                 tx = (case power_result of
                         Inr prev_guid \<Rightarrow> tx\<lparr>tx_previous_power_scheme := Some (guid_to_string prev_guid)\<rparr>
                       | Inl _ \<Rightarrow> tx);
                 (audio_result, m) = disable_audio_enhancements os m;
                 tx = (case audio_result of
                         Inr backups \<Rightarrow> tx\<lparr>tx_previous_audio_endpoints := backups\<rparr>
                       | Inl _ \<Rightarrow> tx);
                 tx = tx\<lparr>tx_is_applied := True\<rparr>;
                 m = persist_transaction os js tx m
             in (Ok tx, m))"

definition recover_orphaned_transaction ::
  "'w win32 \<Rightarrow> tx_json \<Rightarrow> 'w machine \<Rightarrow> (coordinator_error, bool) rust_result \<times> 'w machine" where
  "recover_orphaned_transaction os js m =
     (let (snapshot_path, m) = get_snapshot_path os m
      in if \<not> fs_exists os snapshot_path m then (Ok False, m)
         else case fs_read_to_string os snapshot_path m of
                Inl _ \<Rightarrow> (Err TransactionReadFailed, m)
              | Inr content \<Rightarrow>
                  (case tx_decode js content of
                     None \<Rightarrow> (Err TransactionDecodeFailed, m)
                   | Some tx \<Rightarrow>
                       (case rollback os tx m of
                          (Inl e, m) \<Rightarrow> (Err e, m)
                        | (Inr _, m) \<Rightarrow> (Ok True, m))))"

section \<open>Frames\<close>

text \<open>What the file operations of the coordinator leave alone.\<close>

definition same_settings :: "'w win32 \<Rightarrow> 'w machine \<Rightarrow> 'w machine \<Rightarrow> bool" where
  "same_settings os m m' \<longleftrightarrow>
     dwords os (env m') = dwords os (env m) \<and> power_get_active os (env m') = power_get_active os (env m) \<and>
     (\<forall>h k a. reg_open os h k a (env m') = reg_open os h k a (env m))"

lemma same_settings_refl [simp]: "same_settings os m m"
  by (simp add: same_settings_def)

lemma same_settings_trans [trans]:
  "same_settings os a b \<Longrightarrow> same_settings os b c \<Longrightarrow> same_settings os a c"
  by (simp add: same_settings_def)

lemma same_settings_env: "env m' = env m \<Longrightarrow> same_settings os m m'"
  by (simp add: same_settings_def)

lemma same_settings_keeps_open: "same_settings os m m' \<Longrightarrow> keeps_open os m m'"
  by (simp add: same_settings_def keeps_open_def)

lemma same_settings_observations:
  assumes "same_settings os m m'"
  shows "get_game_mode_state os m' = get_game_mode_state os m"
    and "get_active_power_scheme os m' = get_active_power_scheme os m"
    and "dwords os (env m') = dwords os (env m)"
  using assms
  by (simp_all add: same_settings_def get_game_mode_state_def get_active_power_scheme_def reg_get_dwords)

lemma get_snapshot_path_same: "dir_laws os \<Longrightarrow> same_settings os m (snd (get_snapshot_path os m))"
  by (simp add: get_snapshot_path_def fs_create_dir_all_def Let_def case_prod_beta same_settings_def dir_laws_def)

lemma persist_transaction_same: "dir_laws os \<Longrightarrow> same_settings os m (persist_transaction os js tx m)"
  using get_snapshot_path_same [of os m]
  by (auto simp: persist_transaction_def Let_def case_prod_beta same_settings_def split: option.split)

lemma rollback_same_settings:
  "dir_laws os \<Longrightarrow> tx_previous_adapter_properties tx = [] \<Longrightarrow> tx_previous_qos_policy tx = None \<Longrightarrow>
     same_settings os (rollback_settings os tx m) (snd (rollback os tx m))"
  using get_snapshot_path_same [of os "rollback_settings os tx m"]
  by (auto simp: rollback_def rollback_network_def Let_def case_prod_beta same_settings_def)

lemma rollback_ok: "fst (rollback os tx m) = Ok ()"
  by (simp add: rollback_def Let_def case_prod_beta)

section \<open>A committed transaction, step by step\<close>

lemma apply_optimizations_steps:
  assumes "apply_optimizations os js m = (Ok tx, m4)"
  obtains prev m1 r m2 bs m3 where
    "set_game_mode os True m = (Ok prev, m1)" "tx_previous_game_mode tx = Some prev"
    "apply_gaming_power_scheme os m1 = (r, m2)"
    "tx_previous_power_scheme tx = (case r of Inr g \<Rightarrow> Some (guid_to_string g) | Inl _ \<Rightarrow> None)"
    "disable_audio_enhancements os m2 = (Ok bs, m3)" "tx_previous_audio_endpoints tx = bs"
    "tx_previous_adapter_properties tx = []" "tx_previous_qos_policy tx = None" "tx_is_applied tx"
    "m4 = persist_transaction os js tx m3"
proof -
  obtain r0 m1 where g: "set_game_mode os True m = (r0, m1)" by fastforce
  obtain r m2 where p: "apply_gaming_power_scheme os m1 = (r, m2)" by fastforce
  obtain bs m3 where a: "disable_audio_enhancements os m2 = (Ok bs, m3)"
    by (cases "disable_endpoints os (enumerate_render_endpoints os m2) [] m2")
      (simp add: disable_audio_enhancements_def)
  obtain prev where r0: "r0 = Ok prev"
    using assms g by (auto simp: apply_optimizations_def Let_def split: sum.splits prod.splits)
  show thesis
    by (rule that [OF g [unfolded r0] _ p _ a])
      (use assms g p a r0 in \<open>auto simp: apply_optimizations_def Let_def split: sum.splits\<close>)
qed

section \<open>Rollback undoes a committed transaction\<close>

text \<open>
  What the round trip asks of the system: the documented laws, that the values the optimizer
  owns can be written, and that the power scheme active at the start can be selected again.
\<close>

definition restorable :: "'w win32 \<Rightarrow> 'w machine \<Rightarrow> bool" where
  "restorable os m \<longleftrightarrow>
     registry_laws os \<and> power_laws os \<and> dir_laws os \<and> game_mode_writable os \<and> audio_writable os \<and>
     (\<forall>w. fst (reg_create os HKEY_CURRENT_USER GAME_BAR_SUBKEY w) = 0) \<and>
     (\<forall>g. get_active_power_scheme os m = Ok g \<longrightarrow>
        length (data4 g) = 8 \<and> (\<forall>w. fst (power_set_active os g w) = 0))"

lemma restore_game_mode_succeeds:
  assumes "game_mode_writable os" and "\<forall>w. fst (reg_create os HKEY_CURRENT_USER GAME_BAR_SUBKEY w) = 0"
  shows "fst (restore_game_mode os b m) = Ok ()"
  using assms
  by (simp add: restore_game_mode_def set_game_mode_def game_mode_writable_def registry_calls
      Let_def case_prod_beta)

lemma rollback_power_step:
  assumes "power_laws os" and "apply_gaming_power_scheme os m1 = (r, m2)"
    and orig: "\<forall>g. get_active_power_scheme os m1 = Ok g \<longrightarrow>
        length (data4 g) = 8 \<and> (\<forall>w. fst (power_set_active os g w) = 0)"
    and same: "power_get_active os (env m') = power_get_active os (env m2)"
  defines "m'' \<equiv> (case (case r of Inr g \<Rightarrow> Some (guid_to_string g) | Inl _ \<Rightarrow> None) of
                 Some s \<Rightarrow> (case string_to_guid s of
                      Inr guid \<Rightarrow> snd (restore_power_scheme os guid m') | Inl _ \<Rightarrow> m')
               | None \<Rightarrow> m')"
  shows "get_active_power_scheme os m'' = get_active_power_scheme os m1"
    and "dwords os (env m'') = dwords os (env m')" and "keeps_open os m' m''"
proof -
  note result = apply_gaming_power_scheme_result [OF assms(1,2)]
  show "get_active_power_scheme os m'' = get_active_power_scheme os m1"
  proof (cases r)
    case (Inl e)
    then show ?thesis
      using result get_active_power_scheme_cong [OF same] by (simp add: m''_def)
  next
    case (Inr g)
    then have g: "get_active_power_scheme os m1 = Ok g" using result by simp
    have "fst (set_active_power_scheme os g m') = Ok ()"
      using orig g by (simp add: set_active_power_scheme_def case_prod_beta)
    then show ?thesis
      using Inr g orig set_active_power_scheme_get [OF assms(1), of g m']
      by (simp add: m''_def string_to_guid_of_string restore_power_scheme_def)
  qed
  show "dwords os (env m'') = dwords os (env m')" and "keeps_open os m' m''"
    by (auto simp: m''_def restore_power_scheme_def set_active_power_scheme_laws [OF assms(1)]
        split: sum.split)
qed

lemma rollback_audio_step:
  assumes laws: "registry_laws os" "audio_writable os" "power_laws os"
    and disable: "disable_audio_enhancements os m2 = (Ok bs, m3)" and same: "same_settings os m3 m4"
  defines "mA \<equiv> snd (restore_audio_enhancements os bs m4)"
  shows "dwords os (env mA) = dwords os (env m2)"
    and "power_get_active os (env mA) = power_get_active os (env m2)"
    and "keeps_open os m2 mA"
proof -
  show "dwords os (env mA) = dwords os (env m2)"
    unfolding mA_def
    using audio_setting.undo_restores [of os m2 bs m3 m4] laws disable same_settings_keeps_open [OF same]
      same_settings_observations(3) [OF same] restore_audio_enhancements_def [of os bs m4] by simp
  show "power_get_active os (env mA) = power_get_active os (env m2)"
    using restore_audio_power [OF laws(3)] disable_audio_power [OF laws(3), of m2] disable same
    by (simp add: mA_def same_settings_def)
  have "keeps_open os m4 mA"
    using restore_endpoints_keeps_open [OF laws(1)] by (simp add: mA_def restore_audio_enhancements_def)
  then show "keeps_open os m2 mA"
    using disable_audio_spec(1) [OF laws(1) disable] same_settings_keeps_open [OF same]
    by (meson keeps_open_trans)
qed

lemma rollback_settings_restores:
  assumes ok: "restorable os m" and run: "apply_optimizations os js m = (Ok tx, m4)"
  defines "m5 \<equiv> rollback_settings os tx m4"
  shows "get_game_mode_state os m5 = get_game_mode_state os m"
    and "get_active_power_scheme os m5 = get_active_power_scheme os m"
    and "\<not> (h = HKEY_CURRENT_USER \<and> eq_ignore_ascii_case k GAME_BAR_SUBKEY) \<Longrightarrow>
           dwords os (env m5) h k n = dwords os (env m) h k n"
proof -
  have laws: "registry_laws os" "power_laws os" "dir_laws os" "game_mode_writable os" "audio_writable os"
    and create: "\<forall>w. fst (reg_create os HKEY_CURRENT_USER GAME_BAR_SUBKEY w) = 0"
    using ok by (simp_all add: restorable_def)
  from run obtain prev m1 r m2 bs m3 where
    g: "set_game_mode os True m = (Ok prev, m1)" and tg: "tx_previous_game_mode tx = Some prev"
    and p: "apply_gaming_power_scheme os m1 = (r, m2)"
    and tp: "tx_previous_power_scheme tx = (case r of Inr g \<Rightarrow> Some (guid_to_string g) | Inl _ \<Rightarrow> None)"
    and a: "disable_audio_enhancements os m2 = (Ok bs, m3)" and ta: "tx_previous_audio_endpoints tx = bs"
    and m4: "m4 = persist_transaction os js tx m3"
    by (rule apply_optimizations_steps)
  note persist = persist_transaction_same [OF laws(3), of m3 js tx, folded m4]
  have g_keeps: "keeps_open os m m1" and g_power: "power_get_active os (env m1) = power_get_active os (env m)"
    using set_game_mode_keeps_open [OF laws(1), of m True] set_game_mode_power [OF laws(2), of True m] g
    by simp_all
  have p_frame: "dwords os (env m2) = dwords os (env m1)" "keeps_open os m1 m2"
    using apply_gaming_power_scheme_frame [OF laws(2), of m1] p by simp_all
  define mA where "mA = snd (restore_audio_enhancements os bs m4)"
  note audio = rollback_audio_step [OF laws(1,5,2) a persist, folded mA_def]
  have mA_keeps: "keeps_open os m mA"
    using g_keeps p_frame(2) audio(3) by (meson keeps_open_trans)
  define mP where "mP = (case tx_previous_power_scheme tx of
                 Some s \<Rightarrow> (case string_to_guid s of
                      Inr guid \<Rightarrow> snd (restore_power_scheme os guid mA) | Inl _ \<Rightarrow> mA)
               | None \<Rightarrow> mA)"
  have "get_active_power_scheme os m1 = get_active_power_scheme os m"
    by (rule get_active_power_scheme_cong [OF g_power])
  then have power: "get_active_power_scheme os mP = get_active_power_scheme os m"
    and mP: "dwords os (env mP) = dwords os (env mA)" "keeps_open os mA mP"
    using rollback_power_step [OF laws(2) p _ audio(2)] ok unfolding mP_def tp restorable_def by simp_all
  have m5: "m5 = snd (restore_game_mode os prev mP)"
    unfolding m5_def rollback_settings_def Let_def tg ta mP_def mA_def
    by (auto simp: restore_audio_enhancements_def split: option.split sum.split)
  have "keeps_open os m mP" using mA_keeps mP(2) by (rule keeps_open_trans)
  then show "get_game_mode_state os m5 = get_game_mode_state os m"
    using restore_game_mode_restores [OF laws(1,4) _ _ restore_game_mode_succeeds [OF laws(4) create]]
      set_game_mode_previous [of os True m prev] g m5 by simp
  show "get_active_power_scheme os m5 = get_active_power_scheme os m"
    using power set_game_mode_power [OF laws(2), of prev mP]
    by (simp add: m5 restore_game_mode_set get_active_power_scheme_def)
  assume other: "\<not> (h = HKEY_CURRENT_USER \<and> eq_ignore_ascii_case k GAME_BAR_SUBKEY)"
  show "dwords os (env m5) h k n = dwords os (env m) h k n"
    using set_game_mode_other_values [OF laws(1) other, of prev mP n]
      set_game_mode_other_values [OF laws(1) other, of True m n] g
    by (simp add: m5 restore_game_mode_set mP(1) audio(1) p_frame(1))
qed

section \<open>The calls a transaction makes, and its failure\<close>

text \<open>The calls a transaction may make.\<close>

definition tx_effect :: "effect \<Rightarrow> bool" where
  "tx_effect e =
     (case e of
        CreateKey h k \<Rightarrow>
          (h = HKEY_CURRENT_USER \<and> k = GAME_BAR_SUBKEY) \<or> (h = HKEY_LOCAL_MACHINE \<and> (\<exists>ep. k = fx_key ep))
      | SetDword h k n v \<Rightarrow> v = 1 \<and>
          (h = HKEY_CURRENT_USER \<and> k = GAME_BAR_SUBKEY \<and>
             n \<in> {VALUE_ALLOW_AUTO_GAME_MODE, VALUE_AUTO_GAME_MODE_ENABLED} \<or>
           h = HKEY_LOCAL_MACHINE \<and> (\<exists>ep. k = fx_key ep) \<and> n = VALUE_DISABLE_SYSFX)
      | SetPowerScheme g \<Rightarrow> g = ULTIMATE_PERFORMANCE_GUID \<or> g = HIGH_PERFORMANCE_GUID
      | CreateDir _ \<Rightarrow> True
      | WriteFile _ \<Rightarrow> True
      | RemoveFile _ \<Rightarrow> True
      | _ \<Rightarrow> False)"

lemma set_game_mode_log: "log_grows tx_effect m (snd (set_game_mode os True m))"
  unfolding set_game_mode_steps Let_def registry_calls
  by (auto intro!: log_grows_step simp: tx_effect_def)

lemma set_active_power_scheme_log:
  "tx_effect (SetPowerScheme g) \<Longrightarrow> log_grows tx_effect m (snd (set_active_power_scheme os g m))"
  by (simp add: set_active_power_scheme_def case_prod_beta Let_def)

lemma apply_power_log: "log_grows tx_effect m (snd (apply_gaming_power_scheme os m))"
proof -
  have u: "log_grows tx_effect m (snd (set_active_power_scheme os ULTIMATE_PERFORMANCE_GUID m))"
    and h: "log_grows tx_effect m' (snd (set_active_power_scheme os HIGH_PERFORMANCE_GUID m'))" for m'
    by (simp_all add: set_active_power_scheme_log tx_effect_def)
  show ?thesis
    using u log_grows_trans [OF u h]
    by (auto simp: apply_gaming_power_scheme_def split: prod.split sum.split)
qed

lemma disable_endpoint_log: "log_grows tx_effect m (snd (disable_endpoint os ep m))"
  by (auto simp: disable_endpoint_def Let_def case_prod_beta registry_calls tx_effect_def
      intro!: log_grows_step)

lemma disable_endpoints_log: "log_grows tx_effect m (snd (disable_endpoints os eps acc m))"
proof (induction eps arbitrary: acc m)
  case Nil
  then show ?case by simp
next
  case (Cons ep eps)
  show ?case
    using log_grows_trans [OF disable_endpoint_log Cons] disable_endpoint_log [of m os ep]
    by (auto split: prod.split option.split) (metis snd_conv)+
qed

lemma disable_audio_log: "log_grows tx_effect m (snd (disable_audio_enhancements os m))"
  using disable_endpoints_log by (simp add: disable_audio_enhancements_def case_prod_beta)

lemma fs_log:
  "log_grows tx_effect m (snd (fs_write os p b m))" "log_grows tx_effect m (snd (fs_remove_file os p m))"
  by (auto simp: fs_defs tx_effect_def intro!: log_grows_one)

lemma get_snapshot_path_log: "log_grows tx_effect m (snd (get_snapshot_path os m))"
  by (simp add: get_snapshot_path_def fs_create_dir_all_def Let_def case_prod_beta tx_effect_def)

lemma persist_log: "log_grows tx_effect m (persist_transaction os js tx m)"
  using get_snapshot_path_log [of m os] log_grows_trans [OF get_snapshot_path_log [of m os] fs_log(1)]
  by (simp add: persist_transaction_def Let_def case_prod_beta split: option.split)

text \<open>A rollback with nothing to restore only looks for the record and removes it.\<close>

definition empty_tx :: "OptimizationTransaction \<Rightarrow> bool" where
  "empty_tx tx \<longleftrightarrow> tx_previous_game_mode tx = None \<and> tx_previous_power_scheme tx = None \<and>
     tx_previous_audio_endpoints tx = [] \<and> tx_previous_adapter_properties tx = [] \<and>
     tx_previous_qos_policy tx = None"

lemma rollback_empty:
  assumes "empty_tx tx"
  shows "snd (rollback os tx m) =
    (let (p, m') = get_snapshot_path os m
     in if fs_exists os p m' then snd (fs_remove_file os p m') else m')"
  using assms
  by (simp add: empty_tx_def rollback_def rollback_network_def rollback_settings_def Let_def case_prod_beta)

lemma rollback_empty_log: "empty_tx tx \<Longrightarrow> log_grows tx_effect m (snd (rollback os tx m))"
  using get_snapshot_path_log [of m os] log_grows_trans [OF get_snapshot_path_log [of m os] fs_log(2)]
  by (simp add: rollback_empty Let_def case_prod_beta)

lemma apply_optimizations_error:
  assumes "apply_optimizations os js m = (Err e, m')"
  obtains e' tx where "e = GameModeStepFailed e'" "empty_tx tx"
    "fst (set_game_mode os True m) = Err e'" "m' = snd (rollback os tx (snd (set_game_mode os True m)))"
proof -
  obtain e' m1 where g: "set_game_mode os True m = (Err e', m1)"
    using assms by (auto simp: apply_optimizations_def Let_def split: prod.splits sum.splits)
  define tx where "tx = \<lparr>tx_transaction_id = ''tx_'' @ dec_string (unix_ms os (env m)),
                tx_timestamp_utc = now_debug os (env m),
                tx_previous_game_mode = None, tx_previous_power_scheme = None,
                tx_previous_audio_endpoints = [], tx_previous_adapter_properties = [],
                tx_previous_qos_policy = None, tx_is_applied = False\<rparr>"
  have "(Err e, m') = (Err (GameModeStepFailed e'), snd (rollback os tx m1))"
    using assms g rollback_ok [of os tx m1]
    by (auto simp: apply_optimizations_def tx_def Let_def split: prod.splits sum.splits)
  then show thesis
    using that [of e' tx] g by (simp add: empty_tx_def tx_def)
qed

lemma apply_succeeds:
  assumes "restorable os m"
  obtains tx m1 where "apply_optimizations os js m = (Ok tx, m1)"
proof (cases "fst (apply_optimizations os js m)")
  case (Inl e)
  have "is_ok (fst (set_game_mode os True m))"
    using assms by (simp add: restorable_def game_mode_writable_def set_game_mode_def registry_calls
        Let_def case_prod_beta)
  moreover have "apply_optimizations os js m = (Err e, snd (apply_optimizations os js m))"
    using Inl by (metis prod.collapse)
  ultimately show thesis by (metis apply_optimizations_error is_ok_simps(1))
next
  case (Inr tx)
  then show thesis using that by (metis prod.collapse)
qed

lemma apply_log: "log_grows tx_effect m (snd (apply_optimizations os js m))"
proof (cases "apply_optimizations os js m")
  case (Pair r m')
  show ?thesis
  proof (cases r)
    case (Inl e)
    obtain tx where "empty_tx tx" "m' = snd (rollback os tx (snd (set_game_mode os True m)))"
      using apply_optimizations_error Pair Inl by metis
    then show ?thesis
      using log_grows_trans [OF set_game_mode_log rollback_empty_log] Pair by simp
  next
    case (Inr tx)
    from Pair [unfolded Inr] obtain prev m1 r' m2 bs m3 where
      "set_game_mode os True m = (Ok prev, m1)" "apply_gaming_power_scheme os m1 = (r', m2)"
      "disable_audio_enhancements os m2 = (Ok bs, m3)" "m' = persist_transaction os js tx m3"
      by (rule apply_optimizations_steps)
    then have "log_grows tx_effect m m1" "log_grows tx_effect m1 m2" "log_grows tx_effect m2 m3"
      "log_grows tx_effect m3 m'"
      using set_game_mode_log [of m os] apply_power_log [of m1 os] disable_audio_log [of m2 os]
        persist_log [of m3 os js tx] by simp_all
    then show ?thesis using Pair by (auto intro: log_grows_trans)
  qed
qed

lemma set_game_mode_failed:
  assumes "registry_laws os" and "fst (set_game_mode os True m) = Err e"
  shows "dwords os (env (snd (set_game_mode os True m))) = dwords os (env m)"
  using assms(2) unfolding set_game_mode_steps
  by (auto simp: set_game_mode_def Let_def case_prod_beta registry_dwords [OF assms(1)] split: if_splits)

lemma rollback_empty_same:
  "dir_laws os \<Longrightarrow> empty_tx tx \<Longrightarrow> same_settings os m (snd (rollback os tx m))"
  using get_snapshot_path_same [of os m]
  by (simp add: rollback_empty Let_def case_prod_beta same_settings_def)

section \<open>Properties\<close>

lemma demo_restorable: "restorable demo_os demo_machine"
  using demo_registry_laws demo_power_laws demo_dir_laws demo_audio_writable
  by (simp add: restorable_def game_mode_writable_def get_active_power_scheme_def)
    (simp add: demo_os_def demo_machine_def demo_world_def)

text \<open>
  C3: on a system where the optimizer's values can be written, applying the optimizations
  succeeds, and rolling the transaction back brings back the Game Mode state, the power scheme
  and every DWORD value outside the Game Bar key.
\<close>

theorem transaction_round_trip:
  assumes "restorable os m"
  shows "\<exists>tx m1 m2. apply_optimizations os js m = (Ok tx, m1) \<and> rollback os tx m1 = (Ok (), m2) \<and>
           get_game_mode_state os m2 = get_game_mode_state os m \<and>
           get_active_power_scheme os m2 = get_active_power_scheme os m \<and>
           (\<forall>h k n. \<not> (h = HKEY_CURRENT_USER \<and> eq_ignore_ascii_case k GAME_BAR_SUBKEY) \<longrightarrow>
              dwords os (env m2) h k n = dwords os (env m) h k n)"
proof -
  obtain tx m1 where run: "apply_optimizations os js m = (Ok tx, m1)"
    using apply_succeeds [OF assms] .
  obtain m2 where undo: "rollback os tx m1 = (Ok (), m2)"
    using rollback_ok [of os tx m1] by (cases "rollback os tx m1") auto
  have "tx_previous_adapter_properties tx = []" "tx_previous_qos_policy tx = None"
    by (rule apply_optimizations_steps [OF run]; simp)+
  then have "same_settings os (rollback_settings os tx m1) m2"
    using rollback_same_settings [of os tx m1] assms undo by (simp add: restorable_def)
  from same_settings_observations [OF this] rollback_settings_restores [OF assms run] run undo
  show ?thesis by auto
qed

theorem transaction_round_trip_witness:
  "restorable demo_os demo_machine \<and>
   (\<exists>tx m1 m2. apply_optimizations demo_os \<lparr>tx_encode = (\<lambda>_. Some []), tx_decode = (\<lambda>_. None)\<rparr> demo_machine =
        (Ok tx, m1) \<and> rollback demo_os tx m1 = (Ok (), m2) \<and>
      get_active_power_scheme demo_os m2 = get_active_power_scheme demo_os demo_machine)"
  using transaction_round_trip [OF demo_restorable] demo_restorable by blast

text \<open>
  applying the optimizations calls the system only to create or set the Game Bar and audio
  effect values (to 1), to select a performance scheme, and for its own record on disk: no
  network adapter, QoS policy, service or process is touched, whether it succeeds or fails.
\<close>

theorem apply_touches_only_settings:
  "log_grows tx_effect m (snd (apply_optimizations os js m))"
  by (rule apply_log)

text \<open>
  when applying fails, it is the Game Mode step that failed, and no DWORD value and no power
  scheme has changed.
\<close>

theorem failed_apply_changes_no_setting:
  assumes "registry_laws os" "power_laws os" "dir_laws os"
    and "apply_optimizations os js m = (Err e, m')"
  shows "(\<exists>e'. e = GameModeStepFailed e') \<and> dwords os (env m') = dwords os (env m) \<and>
    get_active_power_scheme os m' = get_active_power_scheme os m"
proof -
  obtain e' tx where e: "e = GameModeStepFailed e'" "empty_tx tx" "fst (set_game_mode os True m) = Err e'"
    "m' = snd (rollback os tx (snd (set_game_mode os True m)))"
    using apply_optimizations_error [OF assms(4)] .
  have same: "same_settings os (snd (set_game_mode os True m)) m'"
    using rollback_empty_same [OF assms(3) e(2)] e(4) by simp
  have "get_active_power_scheme os (snd (set_game_mode os True m)) = get_active_power_scheme os m"
    by (rule get_active_power_scheme_cong [OF set_game_mode_power [OF assms(2)]])
  then show ?thesis
    using e(1) same_settings_observations(2,3) [OF same] set_game_mode_failed [OF assms(1) e(3)] by simp
qed

definition demo_read_only :: "world win32" where
  "demo_read_only = demo_os\<lparr>reg_create := (\<lambda>h k w. (5, w)), reg_set_dword := (\<lambda>h k n v w. (5, w))\<rparr>"

theorem failed_apply_changes_no_setting_witness:
  "\<exists>m'. apply_optimizations demo_read_only \<lparr>tx_encode = (\<lambda>_. None), tx_decode = (\<lambda>_. None)\<rparr> demo_machine =
      (Err (GameModeStepFailed (GameBarKeyFailed 5)), m') \<and>
    dwords demo_read_only (env m') = dwords demo_read_only demo_world"
proof -
  have laws: "registry_laws demo_read_only" "power_laws demo_read_only" "dir_laws demo_read_only"
    by (auto simp: demo_read_only_def demo_os_def registry_laws_def power_laws_def dir_laws_def
        dwords_def update_dword_def fun_eq_iff eq_ignore_ascii_case_def distinct_map intro: inj_onI)
  obtain m' where run: "apply_optimizations demo_read_only \<lparr>tx_encode = (\<lambda>_. None), tx_decode = (\<lambda>_. None)\<rparr>
      demo_machine = (Err (GameModeStepFailed (GameBarKeyFailed 5)), m')"
    by (simp add: apply_optimizations_def set_game_mode_def registry_calls call_def rollback_def
        demo_read_only_def Let_def case_prod_beta)
  from failed_apply_changes_no_setting [OF laws run] run show ?thesis
    by (auto simp: demo_machine_def)
qed

end
