(* ===== verification/Snapshot_Engine.thy ===== *)
theory Snapshot_Engine
  imports Snapshot_Model Coordinator
begin

text \<open>
  \<^verbatim>\<open>state/snapshot_engine.rs\<close>: where a snapshot may be stored, the secret key beside it, and
  saving, loading and deleting it. Path validation may create and harden the base directory, so
  it returns a new state. The walk from a path up to the base directory is a recursive function
  that ends because a parent is shorter.
\<close>

section \<open>Errors\<close>

datatype violation =
    Traversal path
  | OutsideRoot path
  | ParentMissing path
  | MetadataFailed path
  | ReparsePoint path
  | HandleInfoFailed path
  | HandleReparsePoint path
  | Hardlinked u32 path

datatype key_reason = KeyMissing | UnprotectFailed | InvalidKeyHeader | RandomFailed | ProtectFailed

datatype SnapshotError =
    SnapshotNotFound path
  | SnapshotIo
  | SnapshotSerialization
  | IntegrityViolation path string string
  | KeyUnavailable path key_reason
  | SecurityViolation violation

datatype save_error =
    SavePathInvalid SnapshotError
  | SaveCreateDirFailed
  | SaveKeyFailed SnapshotError
  | SaveSerializeFailed
  | SaveTempWriteFailed
  | SaveAtomicMoveFailed

datatype delete_error = DeletePathInvalid SnapshotError | DeleteFailed

section \<open>Directories and hardening\<close>

definition program_data_dir :: "'w win32 \<Rightarrow> 'w machine \<Rightarrow> path" where
  "program_data_dir os m = opt_unwrap_or (env_var os ''ProgramData'' (env m)) (win ''C:/ProgramData'')"

definition harden_directory_acls :: "'w win32 \<Rightarrow> path \<Rightarrow> 'w machine \<Rightarrow> 'w machine" where
  "harden_directory_acls os dir = call_unit (HardenDirectory dir) (icacls os dir)"

definition harden_key_file_acls :: "'w win32 \<Rightarrow> path \<Rightarrow> 'w machine \<Rightarrow> 'w machine" where
  "harden_key_file_acls os file = call_unit (HardenKeyFile file) (icacls os file)"

definition canonical_snapshot_dir :: "'w win32 \<Rightarrow> 'w machine \<Rightarrow> path" where
  "canonical_snapshot_dir os m = path_join (program_data_dir os m) ''ValorantOptimizer''"

definition default_snapshot_path :: "'w win32 \<Rightarrow> 'w machine \<Rightarrow> path \<times> 'w machine" where
  "default_snapshot_path os m =
     (let dir = canonical_snapshot_dir os m;
          (_, m) = fs_create_dir_all os dir m;
          m = harden_directory_acls os dir m
      in (path_join dir ''snapshot.json'', m))"

section \<open>Path validation\<close>

definition normalize_windows_path :: "path \<Rightarrow> path" where
  "normalize_windows_path p =
     (case strip_prefix (win ''//?/UNC/'') p of
        Some stripped \<Rightarrow> win ''//'' @ stripped
      | None \<Rightarrow> (case strip_prefix (win ''//?/'') p of Some stripped \<Rightarrow> stripped | None \<Rightarrow> p))"

definition FILE_ATTRIBUTE_REPARSE_POINT :: u32 where "FILE_ATTRIBUTE_REPARSE_POINT = 0x400"

text \<open>One path of the walk: it must not be a link or a reparse point.\<close>

definition check_reparse ::
  "'w win32 \<Rightarrow> path \<Rightarrow> 'w machine \<Rightarrow> (SnapshotError, unit) rust_result" where
  "check_reparse os p m =
     (if fs_exists os p m \<or> fs_is_symlink os p (env m) then
        (case fs_attributes os p (env m) of
           None \<Rightarrow> Err (SecurityViolation (MetadataFailed p))
         | Some attrs \<Rightarrow>
             if fs_is_symlink os p (env m) \<or> attrs AND FILE_ATTRIBUTE_REPARSE_POINT \<noteq> 0
             then Err (SecurityViolation (ReparsePoint p)) else Ok ())
      else Ok ())"

function check_chain ::
  "'w win32 \<Rightarrow> path \<Rightarrow> path \<Rightarrow> 'w machine \<Rightarrow> (SnapshotError, unit) rust_result" where
  "check_chain os canonical_base p m =
     (case check_reparse os p m of
        Inl e \<Rightarrow> Err e
      | Inr _ \<Rightarrow>
          if (case fs_canonicalize os p (env m) of
                Some c \<Rightarrow> eq_ignore_ascii_case (normalize_windows_path c)
                           (normalize_windows_path canonical_base)
              | None \<Rightarrow> False)
          then Ok ()
          else case parent p of
                 None \<Rightarrow> Ok ()
               | Some q \<Rightarrow> check_chain os canonical_base q m)"
  by pat_completeness auto
termination
  by (relation "measure (\<lambda>(os, b, p, m). length p)") (auto dest: parent_shorter)

declare check_chain.simps [simp del]

text \<open>The handle of an existing file: no reparse point, a single link.\<close>

definition check_handle ::
  "'w win32 \<Rightarrow> path \<Rightarrow> 'w machine \<Rightarrow> (SnapshotError, unit) rust_result" where
  "check_handle os p m =
     (if \<not> fs_open_ok os p (env m) then Err SnapshotIo
      else case fs_handle_info os p (env m) of
             None \<Rightarrow> Err (SecurityViolation (HandleInfoFailed p))
           | Some (attrs, links) \<Rightarrow>
               if attrs AND FILE_ATTRIBUTE_REPARSE_POINT \<noteq> 0
               then Err (SecurityViolation (HandleReparsePoint p))
               else if links > 1 then Err (SecurityViolation (Hardlinked links p)) else Ok ())"

definition in_base :: "string \<Rightarrow> string \<Rightarrow> bool" where
  "in_base norm_base norm_target \<longleftrightarrow>
     (let base_prefix = (if ends_with norm_base [backslash] \<or> ends_with norm_base ''/''
                         then norm_base else norm_base @ [backslash])
      in starts_with norm_target base_prefix \<or> norm_target = norm_base)"

abbreviation norm_lower :: "path \<Rightarrow> string" where
  "norm_lower p \<equiv> to_lowercase (normalize_windows_path p)"

text \<open>Containment: of the path itself when it exists, of its parent otherwise.\<close>

definition check_containment ::
  "'w win32 \<Rightarrow> string \<Rightarrow> path \<Rightarrow> 'w machine \<Rightarrow> (SnapshotError, path) rust_result" where
  "check_containment os norm_base p m =
     (if fs_exists os p m then
        (case fs_canonicalize os p (env m) of
           None \<Rightarrow> Err SnapshotIo
         | Some canonical_path \<Rightarrow>
             if in_base norm_base (norm_lower canonical_path) then Ok canonical_path
             else Err (SecurityViolation (OutsideRoot p)))
      else
        let par = opt_unwrap_or (parent p) ''.''
        in if fs_exists os par m then
             (case fs_canonicalize os par (env m) of
                None \<Rightarrow> Err SnapshotIo
              | Some canonical_parent \<Rightarrow>
                  if in_base norm_base (norm_lower canonical_parent) then Ok p
                  else Err (SecurityViolation (OutsideRoot p)))
           else Err (SecurityViolation (ParentMissing par)))"

definition prepare_base ::
  "'w win32 \<Rightarrow> path \<Rightarrow> 'w machine \<Rightarrow> (SnapshotError, unit) rust_result \<times> 'w machine" where
  "prepare_base os base_dir m =
     (let (r, m) = (if \<not> fs_exists os base_dir m then fs_create_dir_all os base_dir m else (Ok (), m))
      in case r of
           Inl _ \<Rightarrow> (Err SnapshotIo, m)
         | Inr _ \<Rightarrow>
             (Ok (), if path_starts_with base_dir (program_data_dir os m)
                     then harden_directory_acls os base_dir m else m))"

definition check_snapshot_path ::
  "'w win32 \<Rightarrow> path \<Rightarrow> path \<Rightarrow> 'w machine \<Rightarrow> (SnapshotError, path) rust_result" where
  "check_snapshot_path os base_dir p m =
     (case fs_canonicalize os base_dir (env m) of
        None \<Rightarrow> Err SnapshotIo
      | Some canonical_base \<Rightarrow>
          (case check_containment os (norm_lower canonical_base) p m of
             Inl e \<Rightarrow> Err e
           | Inr canonical_path \<Rightarrow>
               (case check_chain os canonical_base p m of
                  Inl e \<Rightarrow> Err e
                | Inr _ \<Rightarrow>
                    (case (if fs_exists os p m \<and> fs_is_file os p m then check_handle os p m else Ok ()) of
                       Inl e \<Rightarrow> Err e
                     | Inr _ \<Rightarrow>
                         Ok (if fs_exists os p m then normalize_windows_path canonical_path else p)))))"

definition validate_snapshot_path ::
  "'w win32 \<Rightarrow> path \<Rightarrow> path option \<Rightarrow> 'w machine \<Rightarrow> (SnapshotError, path) rust_result \<times> 'w machine" where
  "validate_snapshot_path os p allowed_base m =
     (if has_parent_dir p then (Err (SecurityViolation (Traversal p)), m)
      else
        let base_dir = opt_unwrap_or allowed_base (canonical_snapshot_dir os m)
        in case prepare_base os base_dir m of
             (Inl e, m) \<Rightarrow> (Err e, m)
           | (Inr _, m) \<Rightarrow> (check_snapshot_path os base_dir p m, m))"

definition is_path_in_canonical_dir :: "'w win32 \<Rightarrow> path \<Rightarrow> 'w machine \<Rightarrow> bool \<times> 'w machine" where
  "is_path_in_canonical_dir os p m =
     (let (r, m) = validate_snapshot_path os p None m in (is_ok r, m))"

definition has_snapshot :: "'w win32 \<Rightarrow> path option \<Rightarrow> 'w machine \<Rightarrow> bool \<times> 'w machine" where
  "has_snapshot os target m =
     (let (p, m) = (case target of Some p \<Rightarrow> (p, m) | None \<Rightarrow> default_snapshot_path os m);
          (r, m) = validate_snapshot_path os p None m
      in (case r of Inr valid \<Rightarrow> fs_exists os valid m \<and> fs_is_file os valid m | Inl _ \<Rightarrow> False, m))"

section \<open>The baseline\<close>

definition audio_baseline :: "AudioEndpointInfo \<Rightarrow> AudioEndpointBackup" where
  "audio_baseline ep =
     \<lparr>endpoint_id = id_of ep, endpoint_name = name_of ep,
      original_disabled_state = Some (if enhancements_disabled ep then 1 else 0)\<rparr>"

fun adapter_baseline :: "string \<Rightarrow> NicAdvancedProperty list \<Rightarrow> AdapterPropertyBackup list" where
  "adapter_baseline name [] = []"
| "adapter_baseline name (p # ps) =
     (let kw = registry_keyword p
      in if contains kw ''EEE'' \<or> contains kw ''Green'' \<or> contains kw ''Interrupt'' \<or> contains kw ''Flow'' then
           (case first_value p of
              Some val \<Rightarrow> \<lparr>adapter_name = name, keyword = kw, prop_display_name = nic_display_name p,
                          original_value = val\<rparr> # adapter_baseline name ps
            | None \<Rightarrow> adapter_baseline name ps)
         else adapter_baseline name ps)"

text \<open>\<open>primary\<close> is the name \<^verbatim>\<open>NetworkAdapterInfo::detect_primary\<close> finds.\<close>

definition capture_system_baseline ::
  "'w win32 \<Rightarrow> net_json \<Rightarrow> ('w machine \<Rightarrow> string option) \<Rightarrow> 'w machine \<Rightarrow> SystemStateSnapshot \<times> 'w machine" where
  "capture_system_baseline os js primary m =
     (let s = new_snapshot (''snap_'' @ dec_string (unix_ms os (env m))) (now_debug os (env m));
          s = (case get_game_mode_state os m of Inr gm \<Rightarrow> s\<lparr>previous_game_mode := Some gm\<rparr> | Inl _ \<Rightarrow> s);
          s = (case get_active_power_scheme os m of
                 Inr guid \<Rightarrow> s\<lparr>previous_power_scheme := Some (guid_to_string guid)\<rparr> | Inl _ \<Rightarrow> s);
          s = s\<lparr>previous_audio_endpoints := map audio_baseline (enumerate_render_endpoints os m)\<rparr>;
          (s, m) = (case primary m of
                      None \<Rightarrow> (s, m)
                    | Some name \<Rightarrow>
                        (case query_adapter_properties os js name m of
                           (Inr props, m) \<Rightarrow> (s\<lparr>previous_adapter_properties := adapter_baseline name props\<rparr>, m)
                         | (Inl _, m) \<Rightarrow> (s\<lparr>previous_adapter_properties := []\<rparr>, m)))
      in case query_qos_policy os js DEFAULT_VALORANT_QOS_POLICY_NAME m of
           (Inr (Some policy), m) \<Rightarrow>
             (s\<lparr>previous_qos_policy := Some \<lparr>policy_name = qos_name policy, previous_nla_setting = None,
                                            was_policy_present_before = True\<rparr>\<rparr>, m)
         | (_, m) \<Rightarrow> (s, m))"

section \<open>The key\<close>

definition SNAPSHOT_KEY_FILENAME :: string where "SNAPSHOT_KEY_FILENAME = ''snapshot.key''"

definition MAGIC_KEY_HEADER :: bytes where
  "MAGIC_KEY_HEADER = ascii_bytes ''VALOPT_KEY_V1'' @ [0, 0, 0]"

definition parse_key :: "bytes \<Rightarrow> bytes option" where
  "parse_key plaintext =
     (if length plaintext < 48 \<or> take 16 plaintext \<noteq> MAGIC_KEY_HEADER then None
      else Some (take 32 (drop 16 plaintext)))"

text \<open>Reading an existing key file: decrypt, check the header, take the key.\<close>

definition decrypt_key ::
  "'w win32 \<Rightarrow> path \<Rightarrow> 'w machine \<Rightarrow> (SnapshotError, bytes) rust_result" where
  "decrypt_key os key_path m =
     (case fs_read os key_path m of
        Inl _ \<Rightarrow> Err SnapshotIo
      | Inr ciphertext \<Rightarrow>
          (case crypt_unprotect os ciphertext (env m) of
             None \<Rightarrow> Err (KeyUnavailable key_path UnprotectFailed)
           | Some plaintext \<Rightarrow>
               (case parse_key plaintext of
                  None \<Rightarrow> Err (KeyUnavailable key_path InvalidKeyHeader)
                | Some key \<Rightarrow> Ok key)))"

definition get_or_generate_key ::
  "'w win32 \<Rightarrow> path \<Rightarrow> 'w machine \<Rightarrow> (SnapshotError, bytes) rust_result \<times> 'w machine" where
  "get_or_generate_key os target m =
     (let key_path = with_file_name target SNAPSHOT_KEY_FILENAME
      in if fs_exists os key_path m then
           let m = (if path_starts_with target (program_data_dir os m)
                    then harden_key_file_acls os key_path m else m)
           in (decrypt_key os key_path m, m)
         else
           case advance (gen_random32 os) m of
             (None, m) \<Rightarrow> (Err (KeyUnavailable key_path RandomFailed), m)
           | (Some raw_key, m) \<Rightarrow>
               let plaintext = MAGIC_KEY_HEADER @ raw_key @ le_bytes 16 (unix_ms os (env m))
               in case crypt_protect os plaintext (env m) of
                    None \<Rightarrow> (Err (KeyUnavailable key_path ProtectFailed), m)
                  | Some ciphertext \<Rightarrow>
                      (case fs_write os key_path ciphertext m of
                         (Inl _, m) \<Rightarrow> (Err SnapshotIo, m)
                       | (Inr _, m) \<Rightarrow>
                           let m = (if path_starts_with target (program_data_dir os m) then
                                      harden_directory_acls os (opt_unwrap_or (parent target) ''.'')
                                        (harden_key_file_acls os key_path m)
                                    else m)
                           in (Ok raw_key, m)))"

section \<open>Saving, loading, deleting\<close>

definition snapshot_target :: "'w win32 \<Rightarrow> path option \<Rightarrow> 'w machine \<Rightarrow> path \<times> 'w machine" where
  "snapshot_target os target m = (case target of Some p \<Rightarrow> (p, m) | None \<Rightarrow> default_snapshot_path os m)"

definition temp_path :: "'w win32 \<Rightarrow> path \<Rightarrow> 'w machine \<Rightarrow> path" where
  "temp_path os target m =
     path_join (opt_unwrap_or (parent target) ''.'')
       (''snapshot_'' @ dec_string (unat (own_pid os)) @ ''_'' @ dec_string (unix_ns os (env m)) @ ''.tmp'')"

text \<open>\<open>MoveFileExW\<close>, and when it fails, removing the target and renaming.\<close>

definition replace_file ::
  "'w win32 \<Rightarrow> path \<Rightarrow> path \<Rightarrow> 'w machine \<Rightarrow> (save_error, unit) rust_result \<times> 'w machine" where
  "replace_file os temp target m =
     (case fs_move_replace os temp target m of
        (Inr _, m) \<Rightarrow> (Ok (), m)
      | (Inl _, m) \<Rightarrow>
          let m = snd (fs_remove_file os target m)
          in case fs_rename os temp target m of
               (Inr _, m) \<Rightarrow> (Ok (), m)
             | (Inl _, m) \<Rightarrow> (Err SaveAtomicMoveFailed, snd (fs_remove_file os temp m)))"

text \<open>Writing the signed snapshot: the result, the snapshot as the caller sees it, the state.\<close>

definition write_snapshot ::
  "'w win32 \<Rightarrow> snap_codec \<Rightarrow> SystemStateSnapshot \<Rightarrow> path \<Rightarrow> 'w machine \<Rightarrow>
     (save_error, path) rust_result \<times> SystemStateSnapshot \<times> 'w machine" where
  "write_snapshot os c s target m =
     (case get_or_generate_key os target m of
        (Inl e, m) \<Rightarrow> (Err (SaveKeyFailed e), s, m)
      | (Inr key, m) \<Rightarrow>
          let s = sign_with_key c key s
          in case snap_to_pretty c s of
               None \<Rightarrow> (Err SaveSerializeFailed, s, m)
             | Some json_data \<Rightarrow>
                 let temp = temp_path os target m
                 in case fs_write os temp json_data m of
                      (Inl _, m) \<Rightarrow> (Err SaveTempWriteFailed, s, m)
                    | (Inr _, m) \<Rightarrow>
                        (case replace_file os temp target m of
                           (Inl e, m) \<Rightarrow> (Err e, s, m)
                         | (Inr _, m) \<Rightarrow> (Ok target, s, m)))"

definition save_atomic_with_base ::
  "'w win32 \<Rightarrow> snap_codec \<Rightarrow> SystemStateSnapshot \<Rightarrow> path option \<Rightarrow> path option \<Rightarrow> 'w machine \<Rightarrow>
     (save_error, path) rust_result \<times> SystemStateSnapshot \<times> 'w machine" where
  "save_atomic_with_base os c s target_path allowed_base m =
     (let (raw_target, m) = snapshot_target os target_path m
      in case validate_snapshot_path os raw_target allowed_base m of
           (Inl e, m) \<Rightarrow> (Err (SavePathInvalid e), s, m)
         | (Inr target, m) \<Rightarrow>
             (case (case parent target of Some d \<Rightarrow> fs_create_dir_all os d m | None \<Rightarrow> (Ok (), m)) of
                (Inl _, m) \<Rightarrow> (Err SaveCreateDirFailed, s, m)
              | (Inr _, m) \<Rightarrow> write_snapshot os c s target m))"

definition save_atomic where
  "save_atomic os c s target_path m = save_atomic_with_base os c s target_path None m"

definition read_key ::
  "'w win32 \<Rightarrow> path \<Rightarrow> 'w machine \<Rightarrow> (SnapshotError, bytes) rust_result" where
  "read_key os key_path m =
     (if \<not> fs_exists os key_path m then Err (KeyUnavailable key_path KeyMissing)
      else decrypt_key os key_path m)"

definition read_snapshot ::
  "'w win32 \<Rightarrow> snap_codec \<Rightarrow> path \<Rightarrow> 'w machine \<Rightarrow> (SnapshotError, SystemStateSnapshot) rust_result" where
  "read_snapshot os c target m =
     (if \<not> fs_exists os target m \<or> \<not> fs_is_file os target m then Err (SnapshotNotFound target)
      else case read_key os (with_file_name target SNAPSHOT_KEY_FILENAME) m of
             Inl e \<Rightarrow> Err e
           | Inr key \<Rightarrow>
               (case fs_read_to_string os target m of
                  Inl _ \<Rightarrow> Err SnapshotIo
                | Inr content \<Rightarrow>
                    (case snap_from_str c content of
                       None \<Rightarrow> Err SnapshotSerialization
                     | Some s \<Rightarrow>
                         if hmac_signature s = [] \<or> \<not> verify_hmac c key s
                         then Err (IntegrityViolation target (hmac_signature s) (compute_payload_hmac c key s))
                         else if \<not> eq_ignore_ascii_case (compute_payload_hash c s) (sha256_hash s)
                         then Err (IntegrityViolation target (sha256_hash s) (compute_payload_hash c s))
                         else Ok s)))"

definition load_and_verify_with_base ::
  "'w win32 \<Rightarrow> snap_codec \<Rightarrow> path option \<Rightarrow> path option \<Rightarrow> 'w machine \<Rightarrow>
     (SnapshotError, SystemStateSnapshot) rust_result \<times> 'w machine" where
  "load_and_verify_with_base os c target_path allowed_base m =
     (let (raw_target, m) = snapshot_target os target_path m
      in case validate_snapshot_path os raw_target allowed_base m of
           (Inl e, m) \<Rightarrow> (Err e, m)
         | (Inr target, m) \<Rightarrow> (read_snapshot os c target m, m))"

definition load_and_verify where
  "load_and_verify os c target_path m = load_and_verify_with_base os c target_path None m"

definition erase_snapshot ::
  "'w win32 \<Rightarrow> path \<Rightarrow> 'w machine \<Rightarrow> (delete_error, bool) rust_result \<times> 'w machine" where
  "erase_snapshot os target m =
     (case (if fs_exists os target m
            then (case fs_remove_file os target m of
                    (Inl _, m) \<Rightarrow> (Err DeleteFailed, m) | (Inr _, m) \<Rightarrow> (Ok True, m))
            else (Ok False, m)) of
        (Inl e, m) \<Rightarrow> (Err e, m)
      | (Inr deleted, m) \<Rightarrow>
          let key_path = with_file_name target SNAPSHOT_KEY_FILENAME
          in if fs_exists os key_path m then
               let m = snd (fs_write os key_path (replicate 128 0) m);
                   m = snd (fs_remove_file os key_path m)
               in (Ok True, m)
             else (Ok deleted, m))"

definition delete_snapshot_with_base ::
  "'w win32 \<Rightarrow> path option \<Rightarrow> path option \<Rightarrow> 'w machine \<Rightarrow> (delete_error, bool) rust_result \<times> 'w machine" where
  "delete_snapshot_with_base os target_path allowed_base m =
     (let (raw_target, m) = snapshot_target os target_path m
      in case validate_snapshot_path os raw_target allowed_base m of
           (Inl e, m) \<Rightarrow> (Err (DeletePathInvalid e), m)
         | (Inr target, m) \<Rightarrow> erase_snapshot os target m)"

definition delete_snapshot where
  "delete_snapshot os target_path m = delete_snapshot_with_base os target_path None m"

section \<open>What validation guarantees\<close>

text \<open>The paths the walk inspects, from the given path up to the base directory.\<close>

inductive on_walk :: "'w win32 \<Rightarrow> path \<Rightarrow> 'w machine \<Rightarrow> path \<Rightarrow> path \<Rightarrow> bool"
  for os canonical_base m p where
  here: "on_walk os canonical_base m p p"
| up: "on_walk os canonical_base m p q \<Longrightarrow>
     \<not> (\<exists>c. fs_canonicalize os q (env m) = Some c \<and>
          eq_ignore_ascii_case (normalize_windows_path c) (normalize_windows_path canonical_base)) \<Longrightarrow>
     parent q = Some r \<Longrightarrow> on_walk os canonical_base m p r"

lemma check_chain_step:
  assumes "check_chain os b p m = Ok ()"
  shows "check_reparse os p m = Ok ()"
    and "\<not> (\<exists>c. fs_canonicalize os p (env m) = Some c \<and>
          eq_ignore_ascii_case (normalize_windows_path c) (normalize_windows_path b)) \<Longrightarrow>
         parent p = Some q \<Longrightarrow> check_chain os b q m = Ok ()"
  using assms by (subst (asm) check_chain.simps; auto split: sum.splits option.splits if_splits)+

lemma check_chain_walk:
  assumes "check_chain os b p m = Ok ()"
  shows "on_walk os b m p q \<Longrightarrow> check_reparse os q m = Ok ()"
proof -
  assume "on_walk os b m p q"
  then have "check_chain os b q m = Ok ()"
    by (induction rule: on_walk.induct) (use assms check_chain_step(2) in blast)+
  then show ?thesis by (rule check_chain_step(1))
qed

definition not_a_link :: "'w win32 \<Rightarrow> 'w machine \<Rightarrow> path \<Rightarrow> bool" where
  "not_a_link os m q \<longleftrightarrow>
     \<not> fs_is_symlink os q (env m) \<and>
     (fs_exists os q m \<longrightarrow>
        (\<exists>attrs. fs_attributes os q (env m) = Some attrs \<and> attrs AND FILE_ATTRIBUTE_REPARSE_POINT = 0))"

lemma check_reparse_ok: "check_reparse os q m = Ok () \<Longrightarrow> not_a_link os m q"
  by (auto simp: check_reparse_def not_a_link_def split: if_splits option.splits)

text \<open>The directory the path, or its parent while it does not exist yet, resolves into.\<close>

definition resolves_into :: "'w win32 \<Rightarrow> path \<Rightarrow> path \<Rightarrow> path \<Rightarrow> 'w machine \<Rightarrow> bool" where
  "resolves_into os canonical_base p q m \<longleftrightarrow>
     (if fs_exists os p m
      then \<exists>c. fs_canonicalize os p (env m) = Some c \<and>
             in_base (norm_lower canonical_base) (norm_lower c) \<and> q = normalize_windows_path c
      else \<exists>c. fs_canonicalize os (opt_unwrap_or (parent p) ''.'') (env m) = Some c \<and>
             in_base (norm_lower canonical_base) (norm_lower c) \<and> q = p)"

lemma check_containment_ok:
  assumes "check_containment os (norm_lower b) p m = Ok c"
  shows "resolves_into os b p (if fs_exists os p m then normalize_windows_path c else p) m"
  using assms
  by (auto simp: check_containment_def resolves_into_def Let_def split: if_splits option.splits)

lemma check_handle_ok:
  "check_handle os p m = Ok () \<Longrightarrow> \<exists>attrs links. fs_handle_info os p (env m) = Some (attrs, links) \<and>
     attrs AND FILE_ATTRIBUTE_REPARSE_POINT = 0 \<and> links \<le> 1"
  by (auto simp: check_handle_def split: if_splits option.splits prod.splits)

lemma check_snapshot_path_ok:
  assumes "check_snapshot_path os base p m = Ok q"
  obtains b where "fs_canonicalize os base (env m) = Some b" "resolves_into os b p q m"
    "\<forall>r. on_walk os b m p r \<longrightarrow> not_a_link os m r"
    "fs_is_file os p m \<longrightarrow> (\<exists>attrs links. fs_handle_info os p (env m) = Some (attrs, links) \<and>
       attrs AND FILE_ATTRIBUTE_REPARSE_POINT = 0 \<and> links \<le> 1)"
proof -
  obtain b c where b: "fs_canonicalize os base (env m) = Some b"
    and c: "check_containment os (norm_lower b) p m = Ok c" and chain: "check_chain os b p m = Ok ()"
    and h: "(if fs_exists os p m \<and> fs_is_file os p m then check_handle os p m else Ok ()) = Ok ()"
    and q: "q = (if fs_exists os p m then normalize_windows_path c else p)"
    using assms by (auto simp: check_snapshot_path_def split: option.splits sum.splits)
  show thesis
  proof (rule that [OF b])
    show "resolves_into os b p q m" unfolding q by (rule check_containment_ok [OF c])
    show "\<forall>r. on_walk os b m p r \<longrightarrow> not_a_link os m r"
      using check_chain_walk [OF chain] check_reparse_ok by blast
    show "fs_is_file os p m \<longrightarrow> (\<exists>attrs links. fs_handle_info os p (env m) = Some (attrs, links) \<and>
       attrs AND FILE_ATTRIBUTE_REPARSE_POINT = 0 \<and> links \<le> 1)"
      using h check_handle_ok [of os p m] by (auto simp: fs_exists_def fs_is_file_def split: if_splits)
  qed
qed

definition dir_effect :: "effect \<Rightarrow> bool" where
  "dir_effect e = (case e of CreateDir _ \<Rightarrow> True | HardenDirectory _ \<Rightarrow> True | _ \<Rightarrow> False)"

definition dir_only :: "'w machine \<Rightarrow> 'w machine \<Rightarrow> bool" where
  "dir_only m m' \<longleftrightarrow> files m' = files m \<and> log_grows dir_effect m m'"

lemma dir_only_refl [simp]: "dir_only m m"
  by (simp add: dir_only_def)

lemma dir_only_trans [trans]: "dir_only a b \<Longrightarrow> dir_only b c \<Longrightarrow> dir_only a c"
  by (auto simp: dir_only_def intro: log_grows_trans)

lemma dir_only_create: "dir_only m (snd (fs_create_dir_all os p m))"
  by (simp add: dir_only_def fs_create_dir_all_def case_prod_beta Let_def dir_effect_def)

lemma dir_only_harden: "dir_only m (harden_directory_acls os p m)"
  by (simp add: dir_only_def harden_directory_acls_def dir_effect_def)

lemma prepare_base_dir_only: "dir_only m (snd (prepare_base os base m))"
proof -
  let ?r = "if \<not> fs_exists os base m then fs_create_dir_all os base m else (Ok (), m)"
  have "dir_only m (snd ?r)" using dir_only_create by auto
  moreover have "dir_only m (harden_directory_acls os base (snd ?r))"
    using dir_only_trans [OF \<open>dir_only m (snd ?r)\<close> dir_only_harden] .
  ultimately show ?thesis
    by (auto simp: prepare_base_def Let_def case_prod_beta split: sum.split)
qed

lemma validate_dir_only: "dir_only m (snd (validate_snapshot_path os p b m))"
  using prepare_base_dir_only [of m os "opt_unwrap_or b (canonical_snapshot_dir os m)"]
  by (auto simp: validate_snapshot_path_def Let_def split: prod.split sum.split)

lemma snapshot_target_dir_only: "dir_only m (snd (snapshot_target os t m))"
  using dir_only_trans [OF dir_only_create dir_only_harden]
  by (auto simp: snapshot_target_def default_snapshot_path_def Let_def case_prod_beta split: option.split)

section \<open>Loading\<close>

lemma read_snapshot_ok:
  assumes "read_snapshot os c target m = Ok s"
  shows "\<exists>key. read_key os (with_file_name target SNAPSHOT_KEY_FILENAME) m = Ok key \<and> verify_hmac c key s \<and>
    eq_ignore_ascii_case (compute_payload_hash c s) (sha256_hash s) \<and>
    (\<exists>content. fs_read_to_string os target m = Ok content \<and> snap_from_str c content = Some s)"
  using assms by (auto simp: read_snapshot_def split: if_splits sum.splits option.splits)

lemma load_ok:
  assumes "load_and_verify_with_base os c target allowed_base m = (Ok s, m')"
  shows "dir_only m m'" and "\<exists>path. read_snapshot os c path m' = Ok s"
proof -
  obtain p0 m0 where t: "snapshot_target os target m = (p0, m0)" by fastforce
  obtain v m1 where v: "validate_snapshot_path os p0 allowed_base m0 = (v, m1)" by fastforce
  obtain path where r: "read_snapshot os c path m' = Ok s" "m1 = m'"
    using assms t v by (cases v) (auto simp: load_and_verify_with_base_def)
  show "dir_only m m'"
    using dir_only_trans [of m m0 m1] snapshot_target_dir_only [of m os target] t v r(2)
      validate_dir_only [of m0 os p0 allowed_base] by simp
  show "\<exists>path. read_snapshot os c path m' = Ok s" using r(1) by blast
qed

section \<open>Saving, then loading\<close>

text \<open>
  Documented behaviour of the data protection calls on one machine: what was protected is
  unprotected to the same bytes, whatever happens in between, and random keys have 32 bytes.
\<close>

definition crypto_laws :: "'w win32 \<Rightarrow> bool" where
  "crypto_laws os \<longleftrightarrow>
     (\<forall>b w w'. crypt_unprotect os b w = crypt_unprotect os b w') \<and>
     (\<forall>b w x. crypt_protect os b w = Some x \<longrightarrow> crypt_unprotect os x w = Some b) \<and>
     (\<forall>w b. fst (gen_random32 os w) = Some b \<longrightarrow> length b = 32)"

text \<open>The JSON text of a snapshot decodes to the snapshot.\<close>

definition codec_laws :: "snap_codec \<Rightarrow> bool" where
  "codec_laws c \<longleftrightarrow>
     sha_sound c \<and> (\<forall>s j. snap_to_pretty c s = Some j \<longrightarrow> utf8_valid j \<and> snap_from_str c j = Some s)"

text \<open>The three files of a save are different files.\<close>

definition separate_files :: "'w win32 \<Rightarrow> path \<Rightarrow> bool" where
  "separate_files os target \<longleftrightarrow>
     file_id os (with_file_name target SNAPSHOT_KEY_FILENAME) \<noteq> file_id os target \<and>
     (\<forall>m. file_id os (temp_path os target m) \<noteq> file_id os target \<and>
          file_id os (temp_path os target m) \<noteq> file_id os (with_file_name target SNAPSHOT_KEY_FILENAME))"

definition key_on_disk :: "'w win32 \<Rightarrow> path \<Rightarrow> bytes \<Rightarrow> 'w machine \<Rightarrow> bool" where
  "key_on_disk os key_path key m \<longleftrightarrow>
     (\<exists>ct pt. files m (file_id os key_path) = Some ct \<and> (\<forall>w. crypt_unprotect os ct w = Some pt) \<and>
        parse_key pt = Some key)"

lemma parse_new_key: "length raw = 32 \<Longrightarrow> parse_key (MAGIC_KEY_HEADER @ raw @ rest) = Some raw"
  by (simp add: parse_key_def MAGIC_KEY_HEADER_def ascii_bytes_def)

lemma harden_files [simp]:
  "files (harden_directory_acls os p m) = files m" "files (harden_key_file_acls os p m) = files m"
  by (simp_all add: harden_directory_acls_def harden_key_file_acls_def)

lemma decrypt_key_ok:
  assumes "decrypt_key os kp m = Ok key"
  obtains ct pt where "files m (file_id os kp) = Some ct" "crypt_unprotect os ct (env m) = Some pt"
    "parse_key pt = Some key"
  using assms by (auto simp: decrypt_key_def fs_read_def split: option.splits if_splits)

lemma get_or_generate_key_stored:
  assumes laws: "crypto_laws os" and key: "get_or_generate_key os target m = (Ok key, m')"
  shows "key_on_disk os (with_file_name target SNAPSHOT_KEY_FILENAME) key m'"
proof -
  let ?kp = "with_file_name target SNAPSHOT_KEY_FILENAME"
  have stable: "crypt_unprotect os ct w = Some pt \<Longrightarrow> \<forall>w. crypt_unprotect os ct w = Some pt" for ct pt w
    using laws unfolding crypto_laws_def by metis
  show ?thesis
  proof (cases "fs_exists os ?kp m")
    case True
    then have d: "decrypt_key os ?kp m' = Ok key"
      using key by (auto simp: get_or_generate_key_def Let_def)
    obtain ct pt where "files m' (file_id os ?kp) = Some ct" "crypt_unprotect os ct (env m') = Some pt"
        "parse_key pt = Some key"
      by (rule decrypt_key_ok [OF d])
    with stable show ?thesis unfolding key_on_disk_def by blast
  next
    case False
    obtain r m1 where g: "advance (gen_random32 os) m = (r, m1)" by fastforce
    with False key obtain raw where raw: "r = Some raw"
      by (cases r) (auto simp: get_or_generate_key_def Let_def)
    have len: "length raw = 32"
      using laws g raw unfolding crypto_laws_def by (metis advance_simps(1) fst_conv)
    let ?pt = "MAGIC_KEY_HEADER @ raw @ le_bytes 16 (unix_ms os (env m1))"
    obtain ct where ct: "crypt_protect os ?pt (env m1) = Some ct"
      using key False g raw by (auto simp: get_or_generate_key_def Let_def split: option.splits)
    have un: "\<forall>w. crypt_unprotect os ct w = Some ?pt"
      using laws ct stable unfolding crypto_laws_def by blast
    have "key = raw" "files m' (file_id os ?kp) = Some ct"
      using key False g raw ct
      by (auto simp: get_or_generate_key_def Let_def fs_write_def split: if_splits)
    with un parse_new_key [OF len] show ?thesis unfolding key_on_disk_def by blast
  qed
qed

lemma replace_file_ok:
  assumes "replace_file os temp target m = (Ok (), m')" and "file_id os temp \<noteq> file_id os target"
  shows "files m' (file_id os target) = files m (file_id os temp) \<and> files m' (file_id os temp) = None \<and>
    (\<forall>f. f \<noteq> file_id os temp \<longrightarrow> f \<noteq> file_id os target \<longrightarrow> files m' f = files m f)"
  using assms
  by (auto simp: replace_file_def fs_move_replace_def fs_rename_def fs_remove_file_def move_contents_def
      Let_def split: if_splits)

lemma write_snapshot_ok:
  assumes laws: "crypto_laws os" and sep: "separate_files os target"
    and run: "write_snapshot os c s target m = (Ok q, s', m')"
  obtains key j where "q = target" "s' = sign_with_key c key s" "snap_to_pretty c s' = Some j"
    "files m' (file_id os target) = Some j"
    "key_on_disk os (with_file_name target SNAPSHOT_KEY_FILENAME) key m'"
proof -
  obtain kr m1 where k: "get_or_generate_key os target m = (kr, m1)" by fastforce
  obtain key where key: "kr = Ok key"
    using run k by (cases kr) (auto simp: write_snapshot_def)
  let ?s = "sign_with_key c key s" and ?t = "temp_path os target m1"
  obtain j where j: "snap_to_pretty c ?s = Some j"
    using run k key by (auto simp: write_snapshot_def Let_def split: option.splits)
  obtain wr m2 where w: "fs_write os ?t j m1 = (wr, m2)" by fastforce
  have wr: "wr = Ok ()"
    using run k key j w by (cases wr) (auto simp: write_snapshot_def Let_def)
  obtain rr m3 where r: "replace_file os ?t target m2 = (rr, m3)" by fastforce
  have rr: "rr = Ok ()" "q = target" "s' = ?s" "m' = m3"
    using run k key j w wr r by (cases rr; auto simp: write_snapshot_def Let_def)+
  have ids: "file_id os ?t \<noteq> file_id os target"
    "file_id os ?t \<noteq> file_id os (with_file_name target SNAPSHOT_KEY_FILENAME)"
    "file_id os (with_file_name target SNAPSHOT_KEY_FILENAME) \<noteq> file_id os target"
    using sep unfolding separate_files_def by blast+
  have m2: "files m2 = (files m1)(file_id os ?t := Some j)"
    using w wr by (auto simp: fs_write_def split: if_splits)
  note moved = replace_file_ok [OF r [unfolded rr(1)] ids(1)]
  have "files m' (file_id os target) = Some j"
    using moved rr(4) by (simp add: m2)
  moreover have "files m' (file_id os (with_file_name target SNAPSHOT_KEY_FILENAME)) =
      files m1 (file_id os (with_file_name target SNAPSHOT_KEY_FILENAME))"
    using moved rr(4) ids by (simp add: m2)
  then have "key_on_disk os (with_file_name target SNAPSHOT_KEY_FILENAME) key m'"
    using get_or_generate_key_stored [OF laws k [unfolded key]] unfolding key_on_disk_def by simp
  ultimately show thesis
    using that [OF rr(2)] rr(3) j by simp
qed

lemma read_key_on_disk:
  "key_on_disk os kp key m \<Longrightarrow> (\<And>p w. fs_read_ok os p w) \<Longrightarrow> read_key os kp m = Ok key"
  by (auto simp: key_on_disk_def read_key_def decrypt_key_def fs_exists_def fs_read_def)

lemma read_after_write:
  assumes "codec_laws c" and read: "\<And>p w. fs_read_ok os p w"
    and "files m (file_id os target) = Some j" and "snap_to_pretty c (sign_with_key c key s) = Some j"
    and "key_on_disk os (with_file_name target SNAPSHOT_KEY_FILENAME) key m"
  shows "read_snapshot os c target m = Ok (sign_with_key c key s)"
proof -
  let ?s = "sign_with_key c key s"
  have sound: "sha_sound c" and j: "utf8_valid j" "snap_from_str c j = Some ?s"
    using assms(1,4) by (auto simp: codec_laws_def)
  have v: "verify_hmac c key ?s" by (rule hmac_sig.sign_verifies [OF sound])
  have "hmac_signature ?s \<noteq> []" using v by (auto simp: verify_hmac_def)
  moreover have "compute_payload_hash c ?s = sha256_hash ?s"
    by (simp add: sign_with_key_def Let_def)
  ultimately show ?thesis
    using v j read_key_on_disk [OF assms(5) read] assms(3) read
    by (simp add: read_snapshot_def fs_exists_def fs_is_file_def fs_read_to_string_def fs_read_def)
qed

lemma key_on_disk_files: "files m' = files m \<Longrightarrow> key_on_disk os kp key m' = key_on_disk os kp key m"
  by (simp add: key_on_disk_def)

text \<open>What a save wrote, read in any later state with the same files.\<close>

lemma saved_snapshot_reads:
  assumes "codec_laws c" and "crypto_laws os" and "separate_files os q" and "\<And>p w. fs_read_ok os p w"
    and save: "save_atomic_with_base os c s (Some p) base m = (Ok q, s', m1)"
    and files: "files m2 = files m1"
  shows "read_snapshot os c q m2 = Ok s' \<and> (\<exists>key. s' = sign_with_key c key s)"
proof -
  obtain v m0 where v: "validate_snapshot_path os p base m = (v, m0)" by fastforce
  obtain target where target: "v = Ok target"
    using save v by (cases v) (auto simp: save_atomic_with_base_def snapshot_target_def)
  obtain d m0' where d: "(case parent target of Some d \<Rightarrow> fs_create_dir_all os d m0 | None \<Rightarrow> (Ok (), m0)) = (d, m0')"
    by fastforce
  have w: "write_snapshot os c s target m0' = (Ok q, s', m1)"
    using save v target d by (cases d) (auto simp: save_atomic_with_base_def snapshot_target_def)
  have tq: "target = q"
    using w by (auto simp: write_snapshot_def Let_def split: prod.splits sum.splits option.splits)
  obtain key j where k: "s' = sign_with_key c key s" "snap_to_pretty c s' = Some j"
    "files m1 (file_id os q) = Some j" "key_on_disk os (with_file_name q SNAPSHOT_KEY_FILENAME) key m1"
    by (rule write_snapshot_ok [OF assms(2,3) w [unfolded tq]])
  have "read_snapshot os c q m2 = Ok s'"
    unfolding k(1)
    by (rule read_after_write [OF assms(1,4), where j = j])
      (use k files key_on_disk_files [OF files] in simp_all)
  then show ?thesis using k(1) by blast
qed

section \<open>A concrete store\<close>

definition demo_dir :: path where "demo_dir = win ''C:/ProgramData/ValorantOptimizer''"
definition demo_path :: path where "demo_path = win ''C:/ProgramData/ValorantOptimizer/snapshot.json''"
definition demo_key :: path where "demo_key = win ''C:/ProgramData/ValorantOptimizer/snapshot.key''"

lemma demo_paths:
  "\<not> has_parent_dir demo_path" "parent demo_path = Some demo_dir"
  "normalize_windows_path demo_path = demo_path" "normalize_windows_path demo_dir = demo_dir"
  "\<not> contains demo_dir ''.''" "contains demo_path ''.''" "contains demo_key ''.''"
  "\<not> eq_ignore_ascii_case demo_path demo_dir" "eq_ignore_ascii_case demo_dir demo_dir"
  "in_base (to_lowercase demo_dir) (to_lowercase demo_path)"
  "in_base (to_lowercase demo_dir) (to_lowercase demo_dir)"
  "path_starts_with demo_dir (win ''C:/ProgramData'')" "path_starts_with demo_path (win ''C:/ProgramData'')"
  "with_file_name demo_path SNAPSHOT_KEY_FILENAME = demo_key"
  "to_lowercase demo_key \<noteq> to_lowercase demo_path"
  by code_simp+

lemma demo_fs:
  "fs_is_symlink demo_os p w = False" "fs_attributes demo_os p w = Some 0x80"
  "fs_canonicalize demo_os p w = Some p" "fs_open_ok demo_os p w" "fs_handle_info demo_os p w = Some (0x80, 1)"
  "file_id demo_os p = to_lowercase p" "fs_is_dir demo_os p w \<longleftrightarrow> \<not> contains p ''.''"
  "env_var demo_os n w = None" "fs_write_ok demo_os p w" "fs_read_ok demo_os p w" "fs_remove_ok demo_os p w"
  "fs_move_ok demo_os p q w" "gen_random32 demo_os w = (Some (replicate 32 7), w)"
  "crypt_protect demo_os b w = Some (1 # b)"
  by (simp_all add: demo_os_def)

lemma demo_check_reparse: "check_reparse demo_os p m = Ok ()"
  by (simp add: check_reparse_def demo_fs FILE_ATTRIBUTE_REPARSE_POINT_def)

lemma demo_check_chain: "check_chain demo_os demo_dir demo_path m = Ok ()"
proof -
  have "check_chain demo_os demo_dir demo_dir m = Ok ()"
    by (subst check_chain.simps) (simp add: demo_check_reparse demo_fs demo_paths)
  then show ?thesis
    by (subst check_chain.simps) (simp add: demo_check_reparse demo_fs demo_paths)
qed

lemma demo_validate:
  "validate_snapshot_path demo_os demo_path (Some demo_dir) m = (Ok demo_path, harden_directory_acls demo_os demo_dir m)"
proof -
  let ?m = "harden_directory_acls demo_os demo_dir m"
  have "prepare_base demo_os demo_dir m = (Ok (), ?m)"
    by (simp add: prepare_base_def fs_exists_def demo_fs demo_paths program_data_dir_def)
  moreover have "check_containment demo_os (norm_lower demo_dir) demo_path ?m = Ok demo_path"
    by (simp add: check_containment_def fs_exists_def demo_fs demo_paths)
  moreover have "check_handle demo_os demo_path ?m = Ok ()"
    by (simp add: check_handle_def demo_fs FILE_ATTRIBUTE_REPARSE_POINT_def)
  ultimately show ?thesis
    by (simp add: validate_snapshot_path_def check_snapshot_path_def demo_fs demo_paths demo_check_chain)
qed

definition demo_snapshot :: SystemStateSnapshot where
  "demo_snapshot = new_snapshot ''snap_1'' ''now''"

definition demo_signed :: "SystemStateSnapshot \<Rightarrow> SystemStateSnapshot" where
  "demo_signed s = sign_with_key demo_codec (replicate 32 7) s"

definition demo_store :: "SystemStateSnapshot \<Rightarrow> snap_codec" where
  "demo_store s = demo_codec\<lparr>snap_to_pretty := (\<lambda>t. if t = demo_signed s then Some [123] else None),
     snap_from_str := (\<lambda>b. if b = [123] then Some (demo_signed s) else None)\<rparr>"

definition demo_saved_files :: "path \<rightharpoonup> bytes" where
  "demo_saved_files = [to_lowercase demo_path \<mapsto> [123],
     to_lowercase demo_key \<mapsto> 1 # MAGIC_KEY_HEADER @ replicate 32 7 @ replicate 16 0]"

lemma demo_store_laws: "codec_laws (demo_store s)"
  using demo_sha_sound
  by (auto simp: codec_laws_def demo_store_def sha_sound_def in_range_def)

lemma demo_store_signs: "sign_with_key (demo_store s) (replicate 32 7) s = demo_signed s"
  by (simp add: demo_signed_def sign_with_key_def compute_payload_hash_def compute_payload_hmac_def
      compute_hmac_sha256_def hmac_key_block_def canonical_payload_bytes_def demo_store_def Let_def)

lemma demo_reads:
  assumes "files m = demo_saved_files"
  shows "read_snapshot demo_os (demo_store s) demo_path m = Ok (demo_signed s)"
proof -
  have "key_on_disk demo_os demo_key (replicate 32 7) m"
    unfolding key_on_disk_def assms demo_saved_files_def
    using parse_new_key [of "replicate 32 7" "replicate 16 0"]
    by (simp add: demo_fs) (simp add: demo_os_def)
  then show ?thesis
    using read_after_write [OF demo_store_laws [of s] demo_fs(10), where m = m and target = demo_path and j = "[123]"
        and key = "replicate 32 7" and s = s] demo_paths(15) assms
    by (simp add: demo_store_signs demo_paths demo_fs demo_saved_files_def) (simp add: demo_store_def)?
qed

lemma demo_crypto_laws: "crypto_laws demo_os"
  by (auto simp: crypto_laws_def demo_os_def)

lemma demo_temp_last: "last (to_lowercase (temp_path demo_os demo_path m)) = CHR ''p''"
  by (simp add: temp_path_def demo_paths path_join_def to_lowercase_def ascii_lower_def)

lemma demo_separate: "separate_files demo_os demo_path"
proof -
  have "last (to_lowercase demo_path) = CHR ''n''" "last (to_lowercase demo_key) = CHR ''y''" by code_simp+
  then have "to_lowercase (temp_path demo_os demo_path m) \<noteq> to_lowercase demo_path"
    "to_lowercase (temp_path demo_os demo_path m) \<noteq> to_lowercase demo_key" for m
    using demo_temp_last [of m] by fastforce+
  then show ?thesis
    by (simp add: separate_files_def demo_fs demo_paths)
qed

lemma demo_key_generated:
  assumes "files m (to_lowercase demo_key) = None"
  shows "\<exists>m'. get_or_generate_key demo_os demo_path m = (Ok (replicate 32 7), m')"
  using assms
  by (simp add: get_or_generate_key_def demo_paths fs_exists_def demo_fs advance_def fs_write_def
      Let_def)

lemma demo_saves:
  assumes "files m = Map.empty"
  shows "\<exists>m1. save_atomic_with_base demo_os (demo_store s) s (Some demo_path) (Some demo_dir) m =
    (Ok demo_path, demo_signed s, m1)"
proof -
  obtain m0 where dir: "fs_create_dir_all demo_os demo_dir (harden_directory_acls demo_os demo_dir m) = (Ok (), m0)"
    and empty: "files m0 = Map.empty"
    using assms by (simp add: fs_create_dir_all_def call_def demo_os_def)
  obtain m1 where key: "get_or_generate_key demo_os demo_path m0 = (Ok (replicate 32 7), m1)"
    using demo_key_generated [of m0] empty by auto
  have pretty: "snap_to_pretty (demo_store s) (demo_signed s) = Some [123]" by (simp add: demo_store_def)
  obtain m2 where wr: "fs_write demo_os (temp_path demo_os demo_path m1) [123] m1 = (Ok (), m2)"
    "files m2 (to_lowercase (temp_path demo_os demo_path m1)) = Some [123]"
    by (simp add: fs_write_def demo_fs)
  obtain m3 where move: "replace_file demo_os (temp_path demo_os demo_path m1) demo_path m2 = (Ok (), m3)"
    using wr(2) by (simp add: replace_file_def fs_move_replace_def demo_fs)
  show ?thesis
    using dir key wr(1) move
    by (simp add: save_atomic_with_base_def snapshot_target_def demo_validate demo_paths write_snapshot_def
        demo_store_signs pretty Let_def)
qed

section \<open>A failed replacement\<close>

text \<open>
  When \<open>MoveFileExW\<close> and the rename after it both fail, the previous snapshot has already been
  removed: neither the old nor the new one is left.
\<close>

lemma failed_replace_loses_both:
  assumes "file_id os temp \<noteq> file_id os target"
    and "\<And>w. \<not> fs_move_ok os temp target w" and "\<And>w. \<not> fs_rename_ok os temp target w"
    and "\<And>p w. fs_remove_ok os p w"
  shows "fst (replace_file os temp target m) = Err SaveAtomicMoveFailed"
    and "files (snd (replace_file os temp target m)) (file_id os target) = None"
    and "files (snd (replace_file os temp target m)) (file_id os temp) = None"
  using assms
  by (auto simp: replace_file_def fs_move_replace_def fs_rename_def fs_remove_file_def Let_def)

section \<open>Properties\<close>

text \<open>
  C5: an accepted snapshot path is contained. Whatever path and base directory are given, a path
  that \<open>validate_snapshot_path\<close> accepts has no parent component, resolves to a path inside the canonical
  base directory (its parent does, while the file does not exist), no component on the way from it
  up to the base is a symbolic link or a reparse point, and the file itself has no second hard
  link. Validation changes no file.
\<close>

theorem validated_path_is_contained:
  assumes "validate_snapshot_path os p allowed_base m = (Ok q, m')"
  shows "\<not> has_parent_dir p \<and> files m' = files m \<and>
    (\<exists>b. fs_canonicalize os (opt_unwrap_or allowed_base (canonical_snapshot_dir os m)) (env m') = Some b \<and>
       resolves_into os b p q m' \<and> (\<forall>r. on_walk os b m' p r \<longrightarrow> not_a_link os m' r) \<and>
       (fs_is_file os p m' \<longrightarrow> (\<exists>attrs links. fs_handle_info os p (env m') = Some (attrs, links) \<and>
          attrs AND FILE_ATTRIBUTE_REPARSE_POINT = 0 \<and> links \<le> 1)))"
proof -
  let ?base = "opt_unwrap_or allowed_base (canonical_snapshot_dir os m)"
  have np: "\<not> has_parent_dir p" and check: "check_snapshot_path os ?base p m' = Ok q"
    using assms by (auto simp: validate_snapshot_path_def Let_def split: if_splits prod.splits sum.splits)
  have fs: "files m' = files m"
    using validate_dir_only [of m os p allowed_base] assms by (simp add: dir_only_def)
  obtain b where "fs_canonicalize os ?base (env m') = Some b" "resolves_into os b p q m'"
    "\<forall>r. on_walk os b m' p r \<longrightarrow> not_a_link os m' r"
    "fs_is_file os p m' \<longrightarrow> (\<exists>attrs links. fs_handle_info os p (env m') = Some (attrs, links) \<and>
       attrs AND FILE_ATTRIBUTE_REPARSE_POINT = 0 \<and> links \<le> 1)"
    by (rule check_snapshot_path_ok [OF check])
  with np fs show ?thesis by (intro conjI exI [of _ b])
qed

theorem validated_path_is_contained_witness:
  "\<not> has_parent_dir demo_path \<and>
   validate_snapshot_path demo_os demo_path (Some demo_dir) demo_machine =
     (Ok demo_path, harden_directory_acls demo_os demo_dir demo_machine)"
  using validated_path_is_contained [OF demo_validate] demo_validate by blast

text \<open>
  C6: a loaded snapshot is authentic. When \<open>load_and_verify_with_base\<close> returns a snapshot, it is
  the content of the file at the accepted path, it verifies under the key stored beside it and its
  hash matches; loading writes no file and does nothing but create and harden directories.
\<close>

theorem loaded_snapshot_is_authentic:
  assumes "load_and_verify_with_base os c target allowed_base m = (Ok s, m')"
  shows "\<exists>path key. read_key os (with_file_name path SNAPSHOT_KEY_FILENAME) m' = Ok key \<and>
           verify_hmac c key s \<and> eq_ignore_ascii_case (compute_payload_hash c s) (sha256_hash s) \<and>
           (\<exists>content. fs_read_to_string os path m' = Ok content \<and> snap_from_str c content = Some s) \<and>
           files m' = files m \<and> log_grows dir_effect m m'"
proof -
  obtain path where "read_snapshot os c path m' = Ok s" using load_ok(2) [OF assms] by blast
  from read_snapshot_ok [OF this] load_ok(1) [OF assms] show ?thesis by (auto simp: dir_only_def)
qed

theorem loaded_snapshot_is_authentic_witness:
  "\<exists>m m' s key. load_and_verify_with_base demo_os (demo_store demo_snapshot) (Some demo_path) (Some demo_dir) m =
       (Ok s, m') \<and> verify_hmac (demo_store demo_snapshot) key s"
proof -
  define m where "m = demo_machine\<lparr>files := demo_saved_files\<rparr>"
  let ?m = "harden_directory_acls demo_os demo_dir m"
  have "read_snapshot demo_os (demo_store demo_snapshot) demo_path ?m = Ok (demo_signed demo_snapshot)"
    by (rule demo_reads) (simp add: m_def)
  then have load: "load_and_verify_with_base demo_os (demo_store demo_snapshot) (Some demo_path) (Some demo_dir) m =
      (Ok (demo_signed demo_snapshot), ?m)"
    by (simp add: load_and_verify_with_base_def snapshot_target_def demo_validate)
  with loaded_snapshot_is_authentic [OF this] show ?thesis by blast
qed

text \<open>
  C4: a saved snapshot loads back. After a successful save, as long as the path still validates
  to the same target, loading returns exactly the signed snapshot the save produced, whether the
  key was found on disk or generated by the save.
\<close>

theorem save_then_load:
  assumes "codec_laws c" and "crypto_laws os" and "separate_files os q" and "\<And>p w. fs_read_ok os p w"
    and save: "save_atomic_with_base os c s (Some p) base m = (Ok q, s', m1)"
    and again: "validate_snapshot_path os p base m1 = (Ok q, m2)"
  shows "load_and_verify_with_base os c (Some p) base m1 = (Ok s', m2) \<and>
         (\<exists>key. s' = sign_with_key c key s)"
proof -
  have "files m2 = files m1"
    using validate_dir_only [of m1 os p base] again by (simp add: dir_only_def)
  from saved_snapshot_reads [OF assms(1-4) save this] again show ?thesis
    by (auto simp: load_and_verify_with_base_def snapshot_target_def)
qed

theorem save_then_load_witness:
  "\<exists>m1 m2. save_atomic_with_base demo_os (demo_store demo_snapshot) demo_snapshot (Some demo_path)
       (Some demo_dir) demo_machine = (Ok demo_path, demo_signed demo_snapshot, m1) \<and>
     load_and_verify_with_base demo_os (demo_store demo_snapshot) (Some demo_path) (Some demo_dir) m1 =
       (Ok (demo_signed demo_snapshot), m2)"
proof -
  have "files demo_machine = Map.empty" by (simp add: demo_machine_def)
  from demo_saves [OF this, of demo_snapshot] obtain m1 where
    save: "save_atomic_with_base demo_os (demo_store demo_snapshot) demo_snapshot (Some demo_path)
       (Some demo_dir) demo_machine = (Ok demo_path, demo_signed demo_snapshot, m1)" by blast
  from save save_then_load [OF demo_store_laws demo_crypto_laws demo_separate demo_fs(10) save demo_validate]
  show ?thesis by blast
qed

text \<open>
  deleting a snapshot removes it and its key, and the result says whether either existed.
\<close>

theorem delete_erases_snapshot_and_key:
  assumes "\<And>p w. fs_remove_ok os p w" and "\<And>p w. fs_write_ok os p w"
    and "\<And>p w. p \<in> {target, with_file_name target SNAPSHOT_KEY_FILENAME} \<Longrightarrow> \<not> fs_is_dir os p w"
    and "validate_snapshot_path os p base m = (Ok target, m1)"
  shows "\<exists>deleted m2. delete_snapshot_with_base os (Some p) base m = (Ok deleted, m2) \<and>
    files m2 (file_id os target) = None \<and>
    files m2 (file_id os (with_file_name target SNAPSHOT_KEY_FILENAME)) = None \<and>
    (deleted \<longleftrightarrow> files m (file_id os target) \<noteq> None \<or>
       files m (file_id os (with_file_name target SNAPSHOT_KEY_FILENAME)) \<noteq> None)"
proof -
  have "files m1 = files m"
    using validate_dir_only [of m os p base] assms(4) by (simp add: dir_only_def)
  then show ?thesis
    using assms
    by (simp add: delete_snapshot_with_base_def snapshot_target_def erase_snapshot_def fs_exists_def
        fs_remove_file_def fs_write_def Let_def)
qed

theorem delete_erases_snapshot_and_key_witness:
  "\<exists>m2. delete_snapshot_with_base demo_os (Some demo_path) (Some demo_dir)
      (demo_machine\<lparr>files := [to_lowercase demo_key \<mapsto> [1]]\<rparr>) = (Ok True, m2) \<and>
     files m2 (to_lowercase demo_key) = None"
proof -
  have "\<not> fs_is_dir demo_os p w" if "p \<in> {demo_path, with_file_name demo_path SNAPSHOT_KEY_FILENAME}" for p w
    using that by (auto simp: demo_fs demo_paths)
  from delete_erases_snapshot_and_key [OF demo_fs(11,9) this demo_validate,
      of "demo_machine\<lparr>files := [to_lowercase demo_key \<mapsto> [1]]\<rparr>"]
  show ?thesis by (auto simp: demo_fs demo_paths)
qed

end
