(* ===== verification/Crash_Recovery.thy ===== *)
theory Crash_Recovery
  imports Snapshot_Engine
begin

text \<open>
  \<^verbatim>\<open>state/crash_recovery.rs\<close>: what the daemon does at startup with a snapshot left behind by a
  session that did not end properly. The snapshot is validated, loaded and verified, its settings
  are restored, it is deleted, and a line is appended to the recovery log.
\<close>

section \<open>The model\<close>

record RecoveryReport =
  uncommitted_snapshot_found :: bool
  report_snapshot_id :: "string option"
  snapshot_timestamp :: "string option"
  services_restored :: nat
  audio_endpoints_restored :: nat
  adapter_properties_restored :: nat
  qos_policy_restored :: bool
  power_scheme_restored :: bool
  game_mode_was_restored :: bool
  report_error :: "string option"
  duration_ms :: nat

definition default_report :: RecoveryReport where
  "default_report =
     \<lparr>uncommitted_snapshot_found = False, report_snapshot_id = None, snapshot_timestamp = None,
      services_restored = 0, audio_endpoints_restored = 0, adapter_properties_restored = 0,
      qos_policy_restored = False, power_scheme_restored = False, game_mode_was_restored = False,
      report_error = None, duration_ms = 0\<rparr>"

datatype recovery_error =
    RollbackPathInvalid SnapshotError
  | IntegrityCheckFailed string
  | OrphanReadFailed SnapshotError

definition default_recovery_log_path :: "'w win32 \<Rightarrow> 'w machine \<Rightarrow> path \<times> 'w machine" where
  "default_recovery_log_path os m =
     (let dir = path_join (program_data_dir os m) ''ValorantOptimizer'';
          (_, m) = fs_create_dir_all os dir m
      in (path_join dir ''recovery.log'', m))"

text \<open>\<open>{:?}\<close> of a string, with its escapes, and of an optional string; \<open>{}\<close> of a boolean.\<close>

definition debug_char :: "char \<Rightarrow> string" where
  "debug_char c =
     (let n = of_char c :: nat
      in if n = 0 then [backslash, CHR ''0'']
         else if n = 9 then [backslash, CHR ''t'']
         else if n = 10 then [backslash, CHR ''n'']
         else if n = 13 then [backslash, CHR ''r'']
         else if n = 34 \<or> n = 92 then [backslash, c]
         else if n < 16 then [backslash] @ ''u{'' @ hex_fixed 1 n @ ''}''
         else if n < 32 \<or> n = 127 then [backslash] @ ''u{'' @ hex_fixed 2 n @ ''}''
         else [c])"

definition debug_string :: "string \<Rightarrow> string" where
  "debug_string s = [CHR 0x22] @ concat (map debug_char s) @ [CHR 0x22]"

definition debug_option :: "string option \<Rightarrow> string" where
  "debug_option x = (case x of None \<Rightarrow> ''None'' | Some s \<Rightarrow> ''Some('' @ debug_string s @ '')'')"

definition display_bool :: "bool \<Rightarrow> string" where
  "display_bool b = (if b then ''true'' else ''false'')"

definition recovery_log_entry :: "string \<Rightarrow> RecoveryReport \<Rightarrow> string" where
  "recovery_log_entry timestamp report =
     ''['' @ timestamp @ ''] [CRASH_RECOVERY] Snapshot: '' @ debug_option (report_snapshot_id report) @
     '' | Restored: (services='' @ dec_string (services_restored report) @
     '', audio='' @ dec_string (audio_endpoints_restored report) @
     '', nic='' @ dec_string (adapter_properties_restored report) @
     '', qos='' @ display_bool (qos_policy_restored report) @
     '', power='' @ display_bool (power_scheme_restored report) @
     '', game_mode='' @ display_bool (game_mode_was_restored report) @
     '') | Duration: '' @ dec_string (duration_ms report) @
     ''ms | Error: '' @ debug_option (report_error report) @ [CHR 0x0A]"

definition append_recovery_log ::
  "'w win32 \<Rightarrow> RecoveryReport \<Rightarrow> path option \<Rightarrow> 'w machine \<Rightarrow> (io_error, unit) rust_result \<times> 'w machine" where
  "append_recovery_log os report log_path m =
     (let (p, m) = (case log_path of Some p \<Rightarrow> (p, m) | None \<Rightarrow> default_recovery_log_path os m);
          m = (case parent p of Some d \<Rightarrow> snd (fs_create_dir_all os d m) | None \<Rightarrow> m)
      in fs_append os p (ascii_bytes (recovery_log_entry (now_debug os (env m)) report)) m)"

text \<open>The six steps of a rollback; a step that fails is only logged.\<close>

definition qos_step ::
  "'w win32 \<Rightarrow> SystemStateSnapshot \<Rightarrow> RecoveryReport \<times> 'w machine \<Rightarrow> RecoveryReport \<times> 'w machine" where
  "qos_step os s = (\<lambda>(r, m).
     case previous_qos_policy s of
       None \<Rightarrow> (r, m)
     | Some qos_backup \<Rightarrow>
         (case unregister_qos_policy os qos_backup m of
            (Inr _, m) \<Rightarrow> (r\<lparr>qos_policy_restored := True\<rparr>, m)
          | (Inl _, m) \<Rightarrow> (r, m)))"

definition adapter_step ::
  "'w win32 \<Rightarrow> SystemStateSnapshot \<Rightarrow> RecoveryReport \<times> 'w machine \<Rightarrow> RecoveryReport \<times> 'w machine" where
  "adapter_step os s = (\<lambda>(r, m).
     if previous_adapter_properties s = [] then (r, m)
     else case restore_adapter_properties os (previous_adapter_properties s) m of
            (Inr _, m) \<Rightarrow> (r\<lparr>adapter_properties_restored := length (previous_adapter_properties s)\<rparr>, m)
          | (Inl _, m) \<Rightarrow> (r, m))"

definition audio_step ::
  "'w win32 \<Rightarrow> SystemStateSnapshot \<Rightarrow> RecoveryReport \<times> 'w machine \<Rightarrow> RecoveryReport \<times> 'w machine" where
  "audio_step os s = (\<lambda>(r, m).
     if previous_audio_endpoints s = [] then (r, m)
     else case restore_audio_enhancements os (previous_audio_endpoints s) m of
            (Inr _, m) \<Rightarrow> (r\<lparr>audio_endpoints_restored := length (previous_audio_endpoints s)\<rparr>, m)
          | (Inl _, m) \<Rightarrow> (r, m))"

definition power_step ::
  "'w win32 \<Rightarrow> SystemStateSnapshot \<Rightarrow> RecoveryReport \<times> 'w machine \<Rightarrow> RecoveryReport \<times> 'w machine" where
  "power_step os s = (\<lambda>(r, m).
     case previous_power_scheme s of
       None \<Rightarrow> (r, m)
     | Some scheme_str \<Rightarrow>
         (case string_to_guid scheme_str of
            Inl _ \<Rightarrow> (r, m)
          | Inr guid \<Rightarrow>
              (case restore_power_scheme os guid m of
                 (Inr _, m) \<Rightarrow> (r\<lparr>power_scheme_restored := True\<rparr>, m)
               | (Inl _, m) \<Rightarrow> (r, m))))"

definition game_mode_step ::
  "'w win32 \<Rightarrow> SystemStateSnapshot \<Rightarrow> RecoveryReport \<times> 'w machine \<Rightarrow> RecoveryReport \<times> 'w machine" where
  "game_mode_step os s = (\<lambda>(r, m).
     case previous_game_mode s of
       None \<Rightarrow> (r, m)
     | Some prev_gm \<Rightarrow>
         (case restore_game_mode os prev_gm m of
            (Inr _, m) \<Rightarrow> (r\<lparr>game_mode_was_restored := True\<rparr>, m)
          | (Inl _, m) \<Rightarrow> (r, m)))"

definition services_step ::
  "'w win32 \<Rightarrow> SystemStateSnapshot \<Rightarrow> RecoveryReport \<times> 'w machine \<Rightarrow> RecoveryReport \<times> 'w machine" where
  "services_step os s = (\<lambda>(r, m).
     if paused_services s = [] then (r, m)
     else (r\<lparr>services_restored := length (paused_services s)\<rparr>,
           restore_tier3_services os (paused_services s) m))"

definition rollback_snapshot ::
  "'w win32 \<Rightarrow> SystemStateSnapshot \<Rightarrow> 'w machine \<Rightarrow>
     (recovery_error, RecoveryReport) rust_result \<times> 'w machine" where
  "rollback_snapshot os s m =
     (let r = default_report\<lparr>uncommitted_snapshot_found := True,
                report_snapshot_id := Some (snapshot_id s), snapshot_timestamp := Some (timestamp_utc s)\<rparr>;
          rm = qos_step os s (r, m);
          rm = adapter_step os s rm;
          rm = audio_step os s rm;
          rm = power_step os s rm;
          rm = game_mode_step os s rm;
          (r, m) = services_step os s rm
      in (Ok r, m))"

definition check_and_recover_with_base ::
  "'w win32 \<Rightarrow> snap_codec \<Rightarrow> path option \<Rightarrow> path option \<Rightarrow> 'w machine \<Rightarrow>
     (recovery_error, RecoveryReport) rust_result \<times> 'w machine" where
  "check_and_recover_with_base os c snapshot_path allowed_base m =
     (let (raw_target, m) = snapshot_target os snapshot_path m
      in case validate_snapshot_path os raw_target allowed_base m of
           (Inl e, m) \<Rightarrow> (Err (RollbackPathInvalid e), m)
         | (Inr target, m) \<Rightarrow>
             if \<not> fs_exists os target m then (Ok default_report, m)
             else
               let start = clock_ms os (env m)
               in case load_and_verify_with_base os c (Some target) allowed_base m of
                    (Inl (IntegrityViolation _ expected_hash computed_hash), m) \<Rightarrow>
                      let err_msg = ''Snapshot integrity check failed! Expected '' @ expected_hash @
                                    '', found '' @ computed_hash;
                          report = default_report\<lparr>uncommitted_snapshot_found := True,
                                     report_error := Some err_msg, duration_ms := clock_ms os (env m) - start\<rparr>;
                          (_, m) = append_recovery_log os report None m
                      in (Err (IntegrityCheckFailed err_msg), m)
                  | (Inl e, m) \<Rightarrow> (Err (OrphanReadFailed e), m)
                  | (Inr s, m) \<Rightarrow>
                      (case rollback_snapshot os s m of
                         (Inl e, m) \<Rightarrow> (Err e, m)
                       | (Inr report, m) \<Rightarrow>
                           let report = report\<lparr>duration_ms := clock_ms os (env m) - start\<rparr>;
                               (_, m) = delete_snapshot_with_base os (Some target) allowed_base m;
                               (_, m) = append_recovery_log os report None m
                           in (Ok report, m)))"

definition check_and_recover where
  "check_and_recover os c snapshot_path m = check_and_recover_with_base os c snapshot_path None m"

section \<open>What recovery leaves alone\<close>

text \<open>Entries are added to the log file, directories are prepared, and nothing else happens.\<close>

definition log_effect :: "effect \<Rightarrow> bool" where
  "log_effect e \<longleftrightarrow> dir_effect e \<or> (\<exists>p. e = AppendFile p)"

definition files_extend :: "'w machine \<Rightarrow> 'w machine \<Rightarrow> bool" where
  "files_extend m m' \<longleftrightarrow> (\<forall>f b. files m f = Some b \<longrightarrow> (\<exists>t. files m' f = Some (b @ t)))"

definition log_only :: "'w machine \<Rightarrow> 'w machine \<Rightarrow> bool" where
  "log_only m m' \<longleftrightarrow> files_extend m m' \<and> log_grows log_effect m m'"

lemma files_extend_trans: "files_extend a b \<Longrightarrow> files_extend b c \<Longrightarrow> files_extend a c"
  unfolding files_extend_def by (metis append.assoc)

lemma log_only_trans [trans]: "log_only a b \<Longrightarrow> log_only b c \<Longrightarrow> log_only a c"
  by (auto simp: log_only_def intro: files_extend_trans log_grows_trans)

lemma dir_only_log_only: "dir_only m m' \<Longrightarrow> log_only m m'"
  by (auto simp: log_only_def dir_only_def files_extend_def log_effect_def elim: log_grows_mono)

lemma fs_append_log_only: "log_only m (snd (fs_append os p b m))"
  by (auto simp: fs_append_def log_only_def files_extend_def log_effect_def intro: log_grows_one)

lemma log_path_dir_only: "dir_only m (snd (default_recovery_log_path os m))"
  using dir_only_create by (simp add: default_recovery_log_path_def Let_def case_prod_beta)

lemma append_recovery_log_only: "log_only m (snd (append_recovery_log os report None m))"
proof -
  obtain p m1 where p: "default_recovery_log_path os m = (p, m1)" by fastforce
  have "dir_only m m1" using log_path_dir_only [of m os] p by simp
  moreover have "dir_only m1 (case parent p of Some d \<Rightarrow> snd (fs_create_dir_all os d m1) | None \<Rightarrow> m1)"
    by (simp add: dir_only_create split: option.split)
  ultimately have "log_only m (case parent p of Some d \<Rightarrow> snd (fs_create_dir_all os d m1) | None \<Rightarrow> m1)"
    by (blast intro: dir_only_trans dir_only_log_only)
  then show ?thesis
    using fs_append_log_only log_only_trans by (simp add: append_recovery_log_def p Let_def) blast
qed

lemma load_dir_only: "dir_only m (snd (load_and_verify_with_base os c (Some t) base m))"
  using validate_dir_only [of m os t base]
  by (auto simp: load_and_verify_with_base_def snapshot_target_def split: prod.splits sum.splits)

section \<open>The course of a recovery\<close>

lemma rollback_snapshot_ok: "\<exists>r. fst (rollback_snapshot os s m) = Ok r"
  by (simp add: rollback_snapshot_def Let_def case_prod_beta)

text \<open>The three ways a recovery ends.\<close>

lemma recovery_outcomes:
  assumes "check_and_recover_with_base os c p base m = (r, m')"
  obtains
    (refused) e where "r = Err e" "log_only m m'"
  | (absent) "r = Ok default_report" "dir_only m m'"
  | (recovered) s report n target m1 m2 where
      "dir_only m m1" "\<exists>path. read_snapshot os c path m1 = Ok s"
      "rollback_snapshot os s m1 = (Ok report, m2)" "r = Ok (report\<lparr>duration_ms := n\<rparr>)"
      "m' = snd (append_recovery_log os (report\<lparr>duration_ms := n\<rparr>) None
              (snd (delete_snapshot_with_base os (Some target) base m2)))"
proof -
  obtain p0 m0 where t: "snapshot_target os p m = (p0, m0)" by fastforce
  obtain v m1 where v: "validate_snapshot_path os p0 base m0 = (v, m1)" by fastforce
  have d1: "dir_only m m1"
    using dir_only_trans [of m m0 m1] snapshot_target_dir_only [of m os p] t v
      validate_dir_only [of m0 os p0 base] by simp
  show thesis
  proof (cases v)
    case (Inl e)
    with assms t v d1 show ?thesis
      by (intro refused [of "RollbackPathInvalid e"])
        (auto simp: check_and_recover_with_base_def dir_only_log_only)
  next
    case target: (Inr target)
    show ?thesis
    proof (cases "fs_exists os target m1")
      case False
      with assms t v target have "r = Ok default_report \<and> m' = m1"
        by (auto simp: check_and_recover_with_base_def)
      then show ?thesis using absent d1 by blast
    next
      case True
      obtain l m2 where l: "load_and_verify_with_base os c (Some target) base m1 = (l, m2)" by fastforce
      have d2: "dir_only m m2"
        using dir_only_trans [OF d1 load_dir_only [of m1 os c target base]] l by simp
      show ?thesis
      proof (cases l)
        case (Inl e)
        have "\<exists>e'. r = Err e' \<and> (m' = m2 \<or> (\<exists>report. m' = snd (append_recovery_log os report None m2)))"
          using assms t v target True l Inl
          by (cases e) (auto simp: check_and_recover_with_base_def Let_def case_prod_beta)
        then show ?thesis
          using dir_only_log_only [OF d2] log_only_trans [OF dir_only_log_only [OF d2] append_recovery_log_only]
            refused by metis
      next
        case (Inr s)
        obtain report m3 where r: "rollback_snapshot os s m2 = (Ok report, m3)"
          using rollback_snapshot_ok [of os s m2] by (metis prod.collapse)
        show ?thesis
          by (rule recovered [OF d2 load_ok(2) [OF l [unfolded Inr]] r, where n = "clock_ms os (env m3) - clock_ms os (env m1)"])
            (use assms t v target True l Inr r in
              \<open>auto simp: check_and_recover_with_base_def Let_def case_prod_beta\<close>)
      qed
    qed
  qed
qed

text \<open>What each step does to the report.\<close>

lemma step_reports:
  "fst (qos_step os s (r, m)) = r \<or> fst (qos_step os s (r, m)) = r\<lparr>qos_policy_restored := True\<rparr>"
  "fst (adapter_step os s (r, m)) =
     (if previous_adapter_properties s = [] then r
      else r\<lparr>adapter_properties_restored := length (previous_adapter_properties s)\<rparr>)"
  "fst (audio_step os s (r, m)) =
     (if previous_audio_endpoints s = [] then r
      else r\<lparr>audio_endpoints_restored := length (previous_audio_endpoints s)\<rparr>)"
  "fst (power_step os s (r, m)) = r \<or> fst (power_step os s (r, m)) = r\<lparr>power_scheme_restored := True\<rparr>"
  "fst (game_mode_step os s (r, m)) = r \<or> fst (game_mode_step os s (r, m)) = r\<lparr>game_mode_was_restored := True\<rparr>"
  "fst (services_step os s (r, m)) =
     (if paused_services s = [] then r else r\<lparr>services_restored := length (paused_services s)\<rparr>)"
  by (auto simp: qos_step_def adapter_step_def audio_step_def power_step_def game_mode_step_def
      services_step_def restore_adapter_properties_def restore_audio_enhancements_def
      split: option.split prod.split sum.split)

lemma rollback_report:
  assumes "rollback_snapshot os s m = (Ok r, m')"
  shows "uncommitted_snapshot_found r \<and> report_snapshot_id r = Some (snapshot_id s) \<and>
    services_restored r = length (paused_services s) \<and>
    audio_endpoints_restored r = length (previous_audio_endpoints s) \<and>
    adapter_properties_restored r = length (previous_adapter_properties s) \<and> report_error r = None \<and>
    duration_ms r = 0"
proof -
  let ?r0 = "default_report\<lparr>uncommitted_snapshot_found := True,
     report_snapshot_id := Some (snapshot_id s), snapshot_timestamp := Some (timestamp_utc s)\<rparr>"
  obtain r1 m1 where 1: "qos_step os s (?r0, m) = (r1, m1)" by fastforce
  obtain r2 m2 where 2: "adapter_step os s (r1, m1) = (r2, m2)" by fastforce
  obtain r3 m3 where 3: "audio_step os s (r2, m2) = (r3, m3)" by fastforce
  obtain r4 m4 where 4: "power_step os s (r3, m3) = (r4, m4)" by fastforce
  obtain r5 m5 where 5: "game_mode_step os s (r4, m4) = (r5, m5)" by fastforce
  have r: "r = fst (services_step os s (r5, m5))"
    using assms by (simp add: rollback_snapshot_def Let_def 1 2 3 4 5 case_prod_beta)
  have "report_error r1 = None \<and> uncommitted_snapshot_found r1 \<and> report_snapshot_id r1 = Some (snapshot_id s) \<and>
    services_restored r1 = 0 \<and> audio_endpoints_restored r1 = 0 \<and> adapter_properties_restored r1 = 0 \<and>
    duration_ms r1 = 0"
    using step_reports(1) [of os s ?r0 m] 1 by (auto simp: default_report_def)
  moreover have "r5 = r3 \<or> r5 = r3\<lparr>power_scheme_restored := True\<rparr> \<or> r5 = r3\<lparr>game_mode_was_restored := True\<rparr> \<or>
      r5 = r3\<lparr>power_scheme_restored := True, game_mode_was_restored := True\<rparr>"
    using step_reports(4) [of os s r3 m3] step_reports(5) [of os s r4 m4] 4 5 by auto
  moreover have "r3 = fst (audio_step os s (fst (adapter_step os s (r1, m1)), m2))" using 2 3 by simp
  ultimately show ?thesis unfolding r step_reports(2,3,6) by auto
qed

section \<open>Recovery does not disturb the settings it restored\<close>

text \<open>Changing the access rights of a path changes no registry value, no key and no power scheme.\<close>

definition icacls_laws :: "'w win32 \<Rightarrow> bool" where
  "icacls_laws os \<longleftrightarrow>
     (\<forall>p w. dwords os (icacls os p w) = dwords os w \<and>
        (\<forall>h k a. reg_open os h k a (icacls os p w) = reg_open os h k a w) \<and>
        power_get_active os (icacls os p w) = power_get_active os w)"

lemma directory_same_settings:
  assumes "dir_laws os" and "icacls_laws os"
  shows "same_settings os m (snd (fs_create_dir_all os p m))"
    and "same_settings os m (harden_directory_acls os p m)"
  using assms
  by (simp_all add: same_settings_def fs_create_dir_all_def harden_directory_acls_def dir_laws_def
      icacls_laws_def Let_def case_prod_beta)

lemma validate_same_settings:
  assumes "dir_laws os" and "icacls_laws os"
  shows "same_settings os m (snd (validate_snapshot_path os p b m))"
proof -
  note dir = directory_same_settings [OF assms]
  have base: "same_settings os m (snd (prepare_base os base m))" for base
    using dir(1) [of m base] dir(2) [of m base]
      same_settings_trans [OF dir(1) [of m base] dir(2) [of "snd (fs_create_dir_all os base m)" base]]
    by (auto simp: prepare_base_def Let_def case_prod_beta split: sum.split)
  show ?thesis
    using base by (auto simp: validate_snapshot_path_def Let_def split: prod.split sum.split) (metis snd_conv)+
qed

lemma erase_same_settings: "same_settings os m (snd (erase_snapshot os target m))"
  by (auto simp: erase_snapshot_def Let_def same_settings_def fs_write_def fs_remove_file_def)

lemma delete_same_settings:
  assumes "dir_laws os" and "icacls_laws os"
  shows "same_settings os m (snd (delete_snapshot_with_base os (Some p) base m))"
  using validate_same_settings [OF assms, of m p base]
    same_settings_trans [OF validate_same_settings [OF assms, of m p base] erase_same_settings]
  by (auto simp: delete_snapshot_with_base_def snapshot_target_def split: prod.split sum.split)

lemma append_same_settings:
  assumes "dir_laws os" and "icacls_laws os"
  shows "same_settings os m (snd (append_recovery_log os report None m))"
proof -
  note dir = directory_same_settings(1) [OF assms]
  obtain p m1 where p: "default_recovery_log_path os m = (p, m1)" by fastforce
  have "same_settings os m m1"
    using dir [of m "path_join (program_data_dir os m) ''ValorantOptimizer''"] p
    by (auto simp: default_recovery_log_path_def Let_def case_prod_beta)
  then have "same_settings os m (case parent p of Some d \<Rightarrow> snd (fs_create_dir_all os d m1) | None \<Rightarrow> m1)"
    using same_settings_trans [OF _ dir] by (auto split: option.split)
  then show ?thesis
    by (auto simp: append_recovery_log_def p Let_def fs_append_def same_settings_def)
qed

section \<open>A captured baseline comes back\<close>

lemma capture_fields:
  assumes "capture_system_baseline os js primary m = (s, m')"
  shows "previous_game_mode s = (case get_game_mode_state os m of Inr gm \<Rightarrow> Some gm | Inl _ \<Rightarrow> None)"
    and "previous_power_scheme s =
      (case get_active_power_scheme os m of Inr g \<Rightarrow> Some (guid_to_string g) | Inl _ \<Rightarrow> None)"
    and "paused_services s = []"
  using assms
  by (auto simp: capture_system_baseline_def Let_def new_snapshot_def
      split: prod.splits sum.splits option.splits)

text \<open>
  What restoring the baseline asks of the system: the documented laws, that the Game Bar key opens and
  its value can be written, and that the scheme can be selected.
\<close>

definition baseline_writable :: "'w win32 \<Rightarrow> guid \<Rightarrow> bool" where
  "baseline_writable os g \<longleftrightarrow>
     registry_laws os \<and> power_laws os \<and> dir_laws os \<and> icacls_laws os \<and> game_mode_writable os \<and>
     (\<forall>w. fst (reg_create os HKEY_CURRENT_USER GAME_BAR_SUBKEY w) = 0) \<and>
     (\<forall>w. reg_open os HKEY_CURRENT_USER GAME_BAR_SUBKEY KEY_READ w = 0) \<and>
     length (data4 g) = 8 \<and> (\<forall>w. fst (power_set_active os g w) = 0)"

lemma power_step_restores:
  assumes "baseline_writable os g" and "previous_power_scheme s = Some (guid_to_string g)"
  shows "get_active_power_scheme os (snd (power_step os s (r, m))) = Ok g"
    and "fst (power_step os s (r, m)) = r\<lparr>power_scheme_restored := True\<rparr>"
proof -
  have ok: "fst (set_active_power_scheme os g m) = Ok ()"
    using assms(1) by (simp add: baseline_writable_def set_active_power_scheme_def case_prod_beta)
  have "power_step os s (r, m) = (r\<lparr>power_scheme_restored := True\<rparr>, snd (set_active_power_scheme os g m))"
    using assms ok string_to_guid_of_string [of g]
    by (auto simp: power_step_def baseline_writable_def restore_power_scheme_def split: prod.split)
  with ok set_active_power_scheme_get [of os g m] assms(1)
  show "get_active_power_scheme os (snd (power_step os s (r, m))) = Ok g"
    and "fst (power_step os s (r, m)) = r\<lparr>power_scheme_restored := True\<rparr>"
    by (simp_all add: baseline_writable_def)
qed

lemma game_mode_step_restores:
  assumes "baseline_writable os g" and "previous_game_mode s = Some gm"
  shows "get_game_mode_state os (snd (game_mode_step os s (r, m))) = Ok gm"
    and "get_active_power_scheme os (snd (game_mode_step os s (r, m))) = get_active_power_scheme os m"
    and "fst (game_mode_step os s (r, m)) = r\<lparr>game_mode_was_restored := True\<rparr>"
proof -
  have laws: "registry_laws os" "power_laws os" "game_mode_writable os"
    and open_key: "\<And>w. reg_open os HKEY_CURRENT_USER GAME_BAR_SUBKEY KEY_READ w = 0"
    and create: "\<forall>w. fst (reg_create os HKEY_CURRENT_USER GAME_BAR_SUBKEY w) = 0"
    using assms(1) by (simp_all add: baseline_writable_def)
  have ok: "fst (restore_game_mode os gm m) = Ok ()"
    by (rule restore_game_mode_succeeds [OF laws(3) create])
  then obtain prev where set: "fst (set_game_mode os gm m) = Ok prev"
    using restore_game_mode_set(2) by blast
  have "game_mode_step os s (r, m) = (r\<lparr>game_mode_was_restored := True\<rparr>, snd (set_game_mode os gm m))"
    using ok assms(2) restore_game_mode_set(1) [of os gm m]
    by (auto simp: game_mode_step_def split: prod.split)
  with set_game_mode_effective [OF laws(1,3) set] open_key set_game_mode_power [OF laws(2), of gm m]
  show "get_game_mode_state os (snd (game_mode_step os s (r, m))) = Ok gm"
    and "get_active_power_scheme os (snd (game_mode_step os s (r, m))) = get_active_power_scheme os m"
    and "fst (game_mode_step os s (r, m)) = r\<lparr>game_mode_was_restored := True\<rparr>"
    by (simp_all add: get_active_power_scheme_def)
qed

lemma rollback_restores_baseline:
  assumes "baseline_writable os g" and "previous_power_scheme s = Some (guid_to_string g)"
    and "previous_game_mode s = Some gm" and "paused_services s = []"
  obtains r m' where "rollback_snapshot os s m = (Ok r, m')"
    "get_game_mode_state os m' = Ok gm" "get_active_power_scheme os m' = Ok g"
    "power_scheme_restored r" "game_mode_was_restored r"
proof -
  define r0 where "r0 = default_report\<lparr>uncommitted_snapshot_found := True,
     report_snapshot_id := Some (snapshot_id s), snapshot_timestamp := Some (timestamp_utc s)\<rparr>"
  obtain r3 m3 where 3: "audio_step os s (adapter_step os s (qos_step os s (r0, m))) = (r3, m3)" by fastforce
  obtain r4 m4 where 4: "power_step os s (r3, m3) = (r4, m4)" by fastforce
  obtain r5 m5 where 5: "game_mode_step os s (r4, m4) = (r5, m5)" by fastforce
  have "rollback_snapshot os s m = (Ok r5, m5)"
    using assms(4) by (simp add: rollback_snapshot_def Let_def 3 4 5 services_step_def flip: r0_def)
  moreover note power_step_restores [OF assms(1,2), of r3 m3, unfolded 4 fst_conv snd_conv]
    game_mode_step_restores [OF assms(1,3), of r4 m4, unfolded 5 fst_conv snd_conv]
  ultimately show thesis by (intro that [of r5 m5]) simp_all
qed

text \<open>A recovery at a path that validates to itself, with a readable snapshot there.\<close>

lemma recovery_runs:
  assumes "\<And>m. \<exists>m'. validate_snapshot_path os q base m = (Ok q, m')"
    and "\<And>m'. files m' = files m \<Longrightarrow> read_snapshot os c q m' = Ok s"
  obtains m1 where "files m1 = files m"
    "\<And>r m2. rollback_snapshot os s m1 = (Ok r, m2) \<Longrightarrow>
       \<exists>n. check_and_recover_with_base os c (Some q) base m =
         (Ok (r\<lparr>duration_ms := n\<rparr>),
          snd (append_recovery_log os (r\<lparr>duration_ms := n\<rparr>) None
            (snd (delete_snapshot_with_base os (Some q) base m2))))"
proof -
  obtain m0 where v0: "validate_snapshot_path os q base m = (Ok q, m0)" using assms(1) by blast
  obtain m1 where v1: "validate_snapshot_path os q base m0 = (Ok q, m1)" using assms(1) by blast
  have f0: "files m0 = files m" using validate_dir_only [of m os q base] v0 by (simp add: dir_only_def)
  have f1: "files m1 = files m" using validate_dir_only [of m0 os q base] v1 f0 by (simp add: dir_only_def)
  have "fs_exists os q m0"
    using assms(2) [OF f0] by (auto simp: read_snapshot_def split: if_splits)
  then have "\<exists>n. check_and_recover_with_base os c (Some q) base m =
         (Ok (r\<lparr>duration_ms := n\<rparr>),
          snd (append_recovery_log os (r\<lparr>duration_ms := n\<rparr>) None
            (snd (delete_snapshot_with_base os (Some q) base m2))))"
    if "rollback_snapshot os s m1 = (Ok r, m2)" for r m2
    using that v0 v1 assms(2) [OF f1]
    by (simp add: check_and_recover_with_base_def snapshot_target_def load_and_verify_with_base_def
        Let_def case_prod_beta) blast
  with f1 that show thesis by blast
qed

text \<open>Deleting empties the target; appending to another file keeps it so.\<close>

lemma delete_empties:
  assumes "separate_files os q" and "\<And>w. fs_remove_ok os q w" and "\<And>w. \<not> fs_is_dir os q w"
    and "validate_snapshot_path os q base m = (Ok q, m1)"
  shows "files (snd (delete_snapshot_with_base os (Some q) base m)) (file_id os q) = None"
  using assms
  by (auto simp: delete_snapshot_with_base_def snapshot_target_def erase_snapshot_def fs_exists_def
      fs_remove_file_def fs_write_def Let_def separate_files_def)

lemma append_other_file:
  assumes "\<And>m. file_id os (fst (default_recovery_log_path os m)) \<noteq> f"
  shows "files (snd (append_recovery_log os report None m)) f = files m f"
proof -
  obtain p m1 where p: "default_recovery_log_path os m = (p, m1)" by fastforce
  have "files m1 = files m" using log_path_dir_only [of m os] p by (simp add: dir_only_def)
  moreover have "files (case parent p of Some d \<Rightarrow> snd (fs_create_dir_all os d m1) | None \<Rightarrow> m1) = files m1"
    using dir_only_create by (auto simp: dir_only_def split: option.split)
  moreover have "file_id os p \<noteq> f" using assms [of m] p by simp
  ultimately show ?thesis by (auto simp: append_recovery_log_def p Let_def fs_append_def)
qed

section \<open>Recovery in the concrete system\<close>

lemma demo_stable: "\<exists>m'. validate_snapshot_path demo_os demo_path (Some demo_dir) m = (Ok demo_path, m')"
  using demo_validate by blast

lemma demo_recovers:
  "\<exists>r m'. check_and_recover_with_base demo_os (demo_store demo_snapshot) (Some demo_path) (Some demo_dir)
     (demo_machine\<lparr>files := demo_saved_files\<rparr>) = (Ok r, m') \<and> uncommitted_snapshot_found r"
proof -
  obtain m1 where run: "\<And>r m2. rollback_snapshot demo_os (demo_signed demo_snapshot) m1 = (Ok r, m2) \<Longrightarrow>
      \<exists>n. check_and_recover_with_base demo_os (demo_store demo_snapshot) (Some demo_path) (Some demo_dir)
          (demo_machine\<lparr>files := demo_saved_files\<rparr>) = (Ok (r\<lparr>duration_ms := n\<rparr>),
          snd (append_recovery_log demo_os (r\<lparr>duration_ms := n\<rparr>) None
            (snd (delete_snapshot_with_base demo_os (Some demo_path) (Some demo_dir) m2))))"
    by (rule recovery_runs [OF demo_stable, of "demo_machine\<lparr>files := demo_saved_files\<rparr>"
          "demo_store demo_snapshot" "demo_signed demo_snapshot"]) (auto intro: demo_reads)
  obtain r m2 where r: "rollback_snapshot demo_os (demo_signed demo_snapshot) m1 = (Ok r, m2)"
    using rollback_snapshot_ok by (metis prod.collapse)
  from run [OF r] rollback_report [OF r] show ?thesis by fastforce
qed

lemma demo_baseline_writable: "baseline_writable demo_os (w_power demo_world)"
  using demo_registry_laws demo_power_laws demo_dir_laws
  by (simp add: baseline_writable_def icacls_laws_def game_mode_writable_def)
    (simp add: demo_os_def demo_world_def)

lemma demo_log_elsewhere:
  "file_id demo_os (fst (default_recovery_log_path demo_os m)) \<noteq> file_id demo_os demo_path"
proof -
  have "to_lowercase (path_join (path_join (win ''C:/ProgramData'') ''ValorantOptimizer'') ''recovery.log'') \<noteq>
      to_lowercase demo_path" by code_simp
  then show ?thesis
    by (simp add: default_recovery_log_path_def program_data_dir_def demo_fs Let_def case_prod_beta)
qed

definition demo_net_json :: net_json where
  "demo_net_json = \<lparr>json_nic_properties = (\<lambda>_. None), json_qos_policy = (\<lambda>_. None), json_adapter_rss = (\<lambda>_. None)\<rparr>"

lemma query_qos_policy_files: "files (snd (query_qos_policy os js name m)) = files m"
  by (auto simp: query_qos_policy_def run_ps_def call_def Let_def split: prod.split sum.split option.split)

lemma demo_capture_files:
  assumes "capture_system_baseline demo_os demo_net_json (\<lambda>_. None) demo_machine = (s, m0)"
  shows "files m0 = Map.empty"
proof -
  have "files (snd (query_qos_policy demo_os demo_net_json DEFAULT_VALORANT_QOS_POLICY_NAME demo_machine)) = Map.empty"
    unfolding query_qos_policy_files by (simp add: demo_machine_def)
  then show ?thesis
    using assms by (auto simp: capture_system_baseline_def Let_def split: prod.splits sum.splits option.splits)
qed

section \<open>Properties\<close>

text \<open>
  a recovery that ends in an error has restored nothing. Whatever the file contained, the only
  calls it made prepare directories and append to the recovery log, and no file, the snapshot
  included, has lost any of its contents.
\<close>

theorem refused_recovery_changes_nothing:
  assumes "check_and_recover_with_base os c p base m = (Err e, m')"
  shows "files_extend m m' \<and> log_grows log_effect m m'"
  using assms by (rule recovery_outcomes) (auto simp: log_only_def)

theorem refused_recovery_changes_nothing_witness:
  "\<exists>e m'. check_and_recover_with_base demo_os demo_codec (Some (win ''C:/a/../b'')) None demo_machine = (Err e, m') \<and>
     files_extend demo_machine m'"
proof -
  have "has_parent_dir (win ''C:/a/../b'')" by code_simp
  then have "check_and_recover_with_base demo_os demo_codec (Some (win ''C:/a/../b'')) None demo_machine =
      (Err (RollbackPathInvalid (SecurityViolation (Traversal (win ''C:/a/../b'')))), demo_machine)"
    by (simp add: check_and_recover_with_base_def snapshot_target_def validate_snapshot_path_def)
  from this refused_recovery_changes_nothing [OF this] show ?thesis by blast
qed





text \<open>
  a recovery happens once. After a successful one the snapshot file is gone, and the next check
  finds nothing to recover, when the file can be removed and the recovery log is another file.
\<close>

theorem recovered_once:
  assumes "separate_files os q" "\<And>w. fs_remove_ok os q w" "\<And>w. \<not> fs_is_dir os q w"
    and log_elsewhere: "\<And>m. file_id os (fst (default_recovery_log_path os m)) \<noteq> file_id os q"
    and stable: "\<And>m. \<exists>m'. validate_snapshot_path os q base m = (Ok q, m')"
    and readable: "\<And>m'. files m' = files m \<Longrightarrow> read_snapshot os c q m' = Ok s"
  shows "\<exists>r m1 m2. check_and_recover_with_base os c (Some q) base m = (Ok r, m1) \<and>
    uncommitted_snapshot_found r \<and> files m1 (file_id os q) = None \<and>
    check_and_recover_with_base os c (Some q) base m1 = (Ok default_report, m2)"
proof -
  obtain m4 where run: "\<And>r m'. rollback_snapshot os s m4 = (Ok r, m') \<Longrightarrow>
       \<exists>n. check_and_recover_with_base os c (Some q) base m =
         (Ok (r\<lparr>duration_ms := n\<rparr>),
          snd (append_recovery_log os (r\<lparr>duration_ms := n\<rparr>) None
            (snd (delete_snapshot_with_base os (Some q) base m'))))"
    using recovery_runs [OF stable readable] by blast
  obtain r m5 where r: "rollback_snapshot os s m4 = (Ok r, m5)"
    using rollback_snapshot_ok [of os s m4] by (metis prod.collapse)
  from run [OF r] obtain n m1 where
    first: "check_and_recover_with_base os c (Some q) base m = (Ok (r\<lparr>duration_ms := n\<rparr>), m1)"
    and m1: "m1 = snd (append_recovery_log os (r\<lparr>duration_ms := n\<rparr>) None
      (snd (delete_snapshot_with_base os (Some q) base m5)))" by blast
  have gone: "files m1 (file_id os q) = None"
    using delete_empties [OF assms(1-3)] append_other_file [OF log_elsewhere] stable [of m5]
    by (auto simp: m1)
  obtain m2 where v: "validate_snapshot_path os q base m1 = (Ok q, m2)" using stable by blast
  then have "files m2 (file_id os q) = None"
    using gone validate_dir_only [of m1 os q base] by (simp add: dir_only_def)
  then have "check_and_recover_with_base os c (Some q) base m1 = (Ok default_report, m2)"
    using v assms(3) by (simp add: check_and_recover_with_base_def snapshot_target_def fs_exists_def)
  with first gone rollback_report [OF r] show ?thesis by auto
qed

theorem recovered_once_witness:
  "\<exists>r m1 m2. check_and_recover_with_base demo_os (demo_store demo_snapshot) (Some demo_path) (Some demo_dir)
       (demo_machine\<lparr>files := demo_saved_files\<rparr>) = (Ok r, m1) \<and>
     check_and_recover_with_base demo_os (demo_store demo_snapshot) (Some demo_path) (Some demo_dir) m1 =
       (Ok default_report, m2)"
proof -
  have dir: "\<not> fs_is_dir demo_os demo_path w" for w
    by (simp add: demo_fs demo_paths)
  from recovered_once [OF demo_separate demo_fs(11) dir demo_log_elsewhere demo_stable,
      of "demo_machine\<lparr>files := demo_saved_files\<rparr>"] demo_reads
  show ?thesis by simp blast
qed

end
