(* ===== verification/Supervisor.thy ===== *)
theory Supervisor
  imports Terminator Coordinator
begin

text \<open>
  \<^verbatim>\<open>process/supervisor.rs\<close>: finding the game process, optimizing it, waiting for its exit, and
  the background thread that does all of this and restores the system afterwards. The stop flag
  is shared with the request handlers, so it is read from the state of the system (parameter
  \<open>stop\<close>). The thread is a state machine: \<open>sup_next\<close> is one turn of the thread, and
  \<open>supervises\<close> interleaves its turns with arbitrary changes by others.
\<close>

section \<open>Finding the game\<close>

definition VALORANT_BINARY_NAME :: string where
  "VALORANT_BINARY_NAME = ''VALORANT-Win64-Shipping.exe''"

record GameSupervisorConfig =
  target_binary :: string
  p_core_affinity_mask :: "usize option"
  terminate_cef_ui :: bool
  poll_interval_ms :: nat

definition default_config :: GameSupervisorConfig where
  "default_config = \<lparr>target_binary = VALORANT_BINARY_NAME, p_core_affinity_mask = None,
     terminate_cef_ui = True, poll_interval_ms = 500\<rparr>"

definition exe_of :: "string \<Rightarrow> string" where
  "exe_of szExeFile = to_lowercase (entry_name szExeFile)"

definition find_process_by_name :: "'w win32 \<Rightarrow> string \<Rightarrow> 'w machine \<Rightarrow> pid option" where
  "find_process_by_name os name m =
     (let clean_target = to_lowercase name
      in case process_list os (env m) of
           None \<Rightarrow> None
         | Some entries \<Rightarrow> map_option fst (find (\<lambda>(_, raw). exe_of raw = clean_target) entries))"

definition is_legitimate_game_path :: "string \<Rightarrow> string \<Rightarrow> bool" where
  "is_legitimate_game_path target image_path =
     (if eq_ignore_ascii_case target VALORANT_BINARY_NAME then
        let lower = to_lowercase image_path
        in ends_with lower (win ''/shootergame/binaries/win64/valorant-win64-shipping.exe'') \<or>
           (contains lower ''valorant'' \<and> contains lower ''shootergame'' \<and>
            ends_with lower ''valorant-win64-shipping.exe'')
      else True)"

fun find_entry_with_path ::
  "'w win32 \<Rightarrow> string \<Rightarrow> (pid \<times> string) list \<Rightarrow> 'w machine \<Rightarrow> (pid \<times> string) option" where
  "find_entry_with_path os name [] m = None"
| "find_entry_with_path os name ((pid, raw) # es) m =
     (if exe_of raw = to_lowercase name \<and> process_open os PROCESS_QUERY pid (env m) then
        let path = opt_unwrap_or (get_process_image_path os pid m) []
        in if is_legitimate_game_path name path then Some (pid, path)
           else find_entry_with_path os name es m
      else find_entry_with_path os name es m)"

definition find_process_with_path ::
  "'w win32 \<Rightarrow> string \<Rightarrow> 'w machine \<Rightarrow> (pid \<times> string) option" where
  "find_process_with_path os name m =
     (case process_list os (env m) of
        None \<Rightarrow> None
      | Some entries \<Rightarrow> find_entry_with_path os name entries m)"

section \<open>Optimizing it\<close>

definition genuine_cef_path :: "string \<Rightarrow> bool" where
  "genuine_cef_path path \<longleftrightarrow>
     contains (to_lowercase path) ''riot client'' \<or> contains (to_lowercase path) ''riotclient''"

fun purge_cef_entries ::
  "'w win32 \<Rightarrow> ProcessSafetyDb \<Rightarrow> (pid \<times> string) list \<Rightarrow> 'w machine \<Rightarrow> 'w machine" where
  "purge_cef_entries os db [] m = m"
| "purge_cef_entries os db ((pid, raw) # es) m =
     (let m = (if exe_of raw \<in> {''riotclientux.exe'', ''riotclientuxrender.exe''} \<and>
                  process_open os PROCESS_QUERY pid (env m)
               then case get_process_image_path os pid m of
                      Some path \<Rightarrow>
                        if genuine_cef_path path
                        then snd (terminate_process_gracefully os db pid (exe_of raw) 1000 m) else m
                    | None \<Rightarrow> m
               else m)
      in purge_cef_entries os db es m)"

definition purge_riot_client_cef :: "'w win32 \<Rightarrow> ProcessSafetyDb \<Rightarrow> 'w machine \<Rightarrow> 'w machine" where
  "purge_riot_client_cef os db m =
     (case process_list os (env m) of None \<Rightarrow> m | Some entries \<Rightarrow> purge_cef_entries os db entries m)"

definition HIGH_PRIORITY_CLASS :: u32 where "HIGH_PRIORITY_CLASS = 0x80"

datatype supervisor_error = GameOpenFailed pid

definition optimize_game_process ::
  "'w win32 \<Rightarrow> ProcessSafetyDb \<Rightarrow> GameSupervisorConfig \<Rightarrow> pid \<Rightarrow> 'w machine \<Rightarrow>
     (supervisor_error, unit) rust_result \<times> 'w machine" where
  "optimize_game_process os db cfg pid m =
     (if \<not> process_open os PROCESS_SET_INFORMATION pid (env m) then (Err (GameOpenFailed pid), m)
      else
        let m = snd (call (SetPriority pid HIGH_PRIORITY_CLASS)
                       (process_set_priority os pid HIGH_PRIORITY_CLASS) m);
            m = (case p_core_affinity_mask cfg of
                   Some cores \<Rightarrow> snd (call (SetAffinity pid cores) (process_set_affinity os pid cores) m)
                 | None \<Rightarrow> m);
            m = (if terminate_cef_ui cfg then purge_riot_client_cef os db m else m)
        in (Ok (), m))"

section \<open>Waiting for its exit\<close>

text \<open>
  One turn of the waiting loop: \<open>Some False\<close> when stopped, \<open>Some True\<close> when the process has
  exited, \<open>None\<close> to go on.
\<close>

definition wait_turn ::
  "'w win32 \<Rightarrow> ('w \<Rightarrow> bool) \<Rightarrow> pid \<Rightarrow> 'w machine \<Rightarrow> bool option \<times> 'w machine" where
  "wait_turn os stop pid m =
     (if stop (env m) then (Some False, m)
      else let (wait, m) = WaitForSingleObject os pid 1000 m
           in if wait = 0 then (Some True, m)
              else if process_exit_code os pid (env m) \<noteq> STILL_ACTIVE then (Some True, m)
              else (None, m))"

partial_function (option) wait_loop ::
  "'w win32 \<Rightarrow> ('w \<Rightarrow> bool) \<Rightarrow> pid \<Rightarrow> 'w machine \<Rightarrow> (bool \<times> 'w machine) option" where
  "wait_loop os stop pid m =
     (case wait_turn os stop pid m of
        (Some b, m') \<Rightarrow> Some (b, m')
      | (None, m') \<Rightarrow> wait_loop os stop pid m')"

definition wait_for_game_exit ::
  "'w win32 \<Rightarrow> ('w \<Rightarrow> bool) \<Rightarrow> pid \<Rightarrow> 'w machine \<Rightarrow>
     ((supervisor_error, bool) rust_result \<times> 'w machine) option" where
  "wait_for_game_exit os stop pid m =
     (if \<not> process_open os PROCESS_SYNCHRONIZE pid (env m) then Some (Err (GameOpenFailed pid), m)
      else map_option (\<lambda>(b, m). (Ok b, m)) (wait_loop os stop pid m))"

section \<open>The supervising thread\<close>

datatype phase =
    Polling
  | Optimizing pid
  | Attaching pid
  | Waiting pid
  | Exited pid
  | Restoring pid
  | Cancelled
  | Done

definition restore_after_match ::
  "'w win32 \<Rightarrow> ProcessSafetyDb \<Rightarrow> tx_json \<Rightarrow> TerminatedAppBackup list \<Rightarrow> 'w machine \<Rightarrow> 'w machine" where
  "restore_after_match os db js backups m =
     (let m = (if backups \<noteq> [] then snd (relaunch_applications os db backups m) else m)
      in snd (recover_orphaned_transaction os js m))"

text \<open>One turn of the thread of \<^verbatim>\<open>start_background_supervision\<close>; \<open>None\<close> when it has ended.\<close>

definition sup_next ::
  "'w win32 \<Rightarrow> ProcessSafetyDb \<Rightarrow> tx_json \<Rightarrow> GameSupervisorConfig \<Rightarrow> ('w \<Rightarrow> bool) \<Rightarrow>
     TerminatedAppBackup list \<Rightarrow> phase \<times> 'w machine \<Rightarrow> (phase \<times> 'w machine) option" where
  "sup_next os db js cfg stop backups s =
     (case s of (ph, m) \<Rightarrow>
        (case ph of
           Polling \<Rightarrow>
             if stop (env m) then Some (Cancelled, m)
             else (case find_process_with_path os (target_binary cfg) m of
                     Some (pid, _) \<Rightarrow> Some (Optimizing pid, m)
                   | None \<Rightarrow> Some (Polling, sleep os (poll_interval_ms cfg) m))
         | Optimizing pid \<Rightarrow> Some (Attaching pid, snd (optimize_game_process os db cfg pid m))
         | Attaching pid \<Rightarrow>
             if process_open os PROCESS_SYNCHRONIZE pid (env m) then Some (Waiting pid, m)
             else Some (Cancelled, m)
         | Waiting pid \<Rightarrow>
             (case wait_turn os stop pid m of
                (Some True, m) \<Rightarrow> Some (Exited pid, m)
              | (Some False, m) \<Rightarrow> Some (Cancelled, m)
              | (None, m) \<Rightarrow> Some (Waiting pid, m))
         | Exited pid \<Rightarrow> if stop (env m) then Some (Cancelled, m) else Some (Restoring pid, m)
         | Restoring pid \<Rightarrow> Some (Done, restore_after_match os db js backups m)
         | Cancelled \<Rightarrow> None
         | Done \<Rightarrow> None))"

text \<open>
  The states the thread can be in: its own turns, and between them anything others do to the
  system and to files. The log records this thread's calls only.
\<close>

inductive supervises ::
  "'w win32 \<Rightarrow> ProcessSafetyDb \<Rightarrow> tx_json \<Rightarrow> GameSupervisorConfig \<Rightarrow> ('w \<Rightarrow> bool) \<Rightarrow>
     TerminatedAppBackup list \<Rightarrow> 'w machine \<Rightarrow> phase \<times> 'w machine \<Rightarrow> bool"
  for os db js cfg stop backups m0 where
  start: "supervises os db js cfg stop backups m0 (Polling, m0)"
| turn: "supervises os db js cfg stop backups m0 s \<Longrightarrow> sup_next os db js cfg stop backups s = Some s' \<Longrightarrow>
     supervises os db js cfg stop backups m0 s'"
| interfere: "supervises os db js cfg stop backups m0 (ph, m) \<Longrightarrow> log m' = log m \<Longrightarrow>
     supervises os db js cfg stop backups m0 (ph, m')"

inductive_cases supervises_DoneE: "supervises os db js cfg stop backups m0 (Done, m)"

section \<open>Finding only genuine processes\<close>

lemma find_entry_with_path_genuine:
  "find_entry_with_path os name entries m = Some (pid, path) \<Longrightarrow>
     \<exists>raw. (pid, raw) \<in> set entries \<and> exe_of raw = to_lowercase name \<and> is_legitimate_game_path name path \<and>
       path = opt_unwrap_or (get_process_image_path os pid m) []"
  by (induction entries) (auto simp: Let_def split: if_splits)

lemma legitimate_game_path_suffix:
  "is_legitimate_game_path VALORANT_BINARY_NAME path \<Longrightarrow>
     ends_with (to_lowercase path) ''valorant-win64-shipping.exe''"
proof -
  have "suffix ''valorant-win64-shipping.exe'' (win ''/shootergame/binaries/win64/valorant-win64-shipping.exe'')"
    by code_simp
  then show "is_legitimate_game_path VALORANT_BINARY_NAME path \<Longrightarrow> ?thesis"
    by (auto simp: is_legitimate_game_path_def Let_def intro: suffix_order.trans)
qed

section \<open>Calls before the restoration\<close>

text \<open>Raising the priority of the found process, its affinity, and closing the client's windows.\<close>

definition tuning_effect :: "GameSupervisorConfig \<Rightarrow> pid \<Rightarrow> effect \<Rightarrow> bool" where
  "tuning_effect cfg pid e =
     (case e of
        SetPriority p c \<Rightarrow> p = pid \<and> c = HIGH_PRIORITY_CLASS
      | SetAffinity p cores \<Rightarrow> p = pid \<and> p_core_affinity_mask cfg = Some cores
      | PostClose _ _ \<Rightarrow> terminate_cef_ui cfg
      | KillProcess _ \<Rightarrow> terminate_cef_ui cfg
      | _ \<Rightarrow> False)"

lemma purge_cef_entries_grows:
  assumes "\<And>e. kill_effect (\<lambda>_. True) e \<Longrightarrow> P e"
  shows "log_grows P m (purge_cef_entries os db es m)"
proof (induction es arbitrary: m)
  case Nil
  then show ?case by simp
next
  case (Cons e es)
  obtain pid raw where e: "e = (pid, raw)" by fastforce
  have "log_grows P m (snd (terminate_process_gracefully os db pid name t m))" for name t
    by (rule log_grows_mono [OF terminate_grows [of "\<lambda>_. True"]]) (use assms in auto)
  then have "log_grows P m (snd (terminate_process_gracefully os db pid (exe_of raw) 1000 m))" .
  from log_grows_trans [OF this Cons] Cons show ?case
    by (auto simp: e Let_def split: option.split)
qed

lemma optimize_game_process_grows:
  "log_grows (tuning_effect cfg pid) m (snd (optimize_game_process os db cfg pid m))"
proof (cases "process_open os PROCESS_SET_INFORMATION pid (env m)")
  case False
  then show ?thesis by (simp add: optimize_game_process_def)
next
  case True
  let ?P = "tuning_effect cfg pid"
  let ?m1 = "snd (call (SetPriority pid HIGH_PRIORITY_CLASS) (process_set_priority os pid HIGH_PRIORITY_CLASS) m)"
  let ?m2 = "case p_core_affinity_mask cfg of
      Some cores \<Rightarrow> snd (call (SetAffinity pid cores) (process_set_affinity os pid cores) ?m1) | None \<Rightarrow> ?m1"
  have "log_grows ?P m ?m1" by (simp add: tuning_effect_def)
  then have m2: "log_grows ?P m ?m2"
    by (auto simp: tuning_effect_def intro!: log_grows_step split: option.split)
  have "log_grows ?P ?m2 (purge_riot_client_cef os db ?m2)" if "terminate_cef_ui cfg"
    using that purge_cef_entries_grows [of ?P ?m2 os db]
    by (auto simp: purge_riot_client_cef_def tuning_effect_def kill_effect_def
        split: option.split effect.splits)
  with m2 True show ?thesis
    by (auto simp: optimize_game_process_def Let_def intro: log_grows_trans)
qed

lemma wait_turn_log: "log (snd (wait_turn os stop pid m)) = log m"
  by (simp add: wait_turn_def Let_def case_prod_beta)

text \<open>What the log may hold in each phase.\<close>

fun phase_inv :: "GameSupervisorConfig \<Rightarrow> 'w machine \<Rightarrow> phase \<times> 'w machine \<Rightarrow> bool" where
  "phase_inv cfg m0 (Polling, m) \<longleftrightarrow> log m = log m0"
| "phase_inv cfg m0 (Optimizing pid, m) \<longleftrightarrow> log m = log m0"
| "phase_inv cfg m0 (Attaching pid, m) \<longleftrightarrow> log_grows (tuning_effect cfg pid) m0 m"
| "phase_inv cfg m0 (Waiting pid, m) \<longleftrightarrow> log_grows (tuning_effect cfg pid) m0 m"
| "phase_inv cfg m0 (Exited pid, m) \<longleftrightarrow> log_grows (tuning_effect cfg pid) m0 m"
| "phase_inv cfg m0 (Restoring pid, m) \<longleftrightarrow> log_grows (tuning_effect cfg pid) m0 m"
| "phase_inv cfg m0 (Cancelled, m) \<longleftrightarrow> (\<exists>pid. log_grows (tuning_effect cfg pid) m0 m)"
| "phase_inv cfg m0 (Done, m) \<longleftrightarrow> True"

lemma log_grows_log_cong: "log m1 = log m1' \<Longrightarrow> log m2 = log m2' \<Longrightarrow> log_grows P m1 m2 = log_grows P m1' m2'"
  by (simp add: log_grows_def)

lemma sup_next_inv:
  assumes "phase_inv cfg m0 (ph, m)" and "sup_next os db js cfg stop backups (ph, m) = Some s'"
  shows "phase_inv cfg m0 s'"
proof (cases ph)
  case Polling
  then show ?thesis
    using assms by (auto simp: sup_next_def log_grows_def split: if_splits option.splits)
next
  case (Optimizing pid)
  have "log_grows (tuning_effect cfg pid) m0 (snd (optimize_game_process os db cfg pid m))"
    using optimize_game_process_grows [of cfg pid m os db] assms(1) Optimizing
    by (simp add: log_grows_def)
  then show ?thesis using assms(2) Optimizing by (auto simp: sup_next_def)
next
  case (Waiting pid)
  obtain r m1 where "wait_turn os stop pid m = (r, m1)" by fastforce
  with wait_turn_log [of os stop pid m] assms Waiting log_grows_log_cong [of m0 m0 m1 m] show ?thesis
    by (auto simp: sup_next_def split: option.splits bool.splits)
qed (use assms in \<open>auto simp: sup_next_def split: if_splits\<close>)

lemma supervises_inv:
  "supervises os db js cfg stop backups m0 s \<Longrightarrow> phase_inv cfg m0 s"
proof (induction rule: supervises.induct)
  case start
  then show ?case by simp
next
  case (turn s s')
  then show ?case by (cases s) (auto intro: sup_next_inv)
next
  case (interfere ph m m')
  then show ?case by (cases ph) (auto simp: log_grows_def)
qed

section \<open>Restoration only after an exit\<close>

lemma reach_restoring:
  assumes "supervises os db js cfg stop backups m0 s"
  shows "(\<forall>pid m. s = (Exited pid, m) \<longrightarrow>
            (\<exists>m1 m2. supervises os db js cfg stop backups m0 (Waiting pid, m1) \<and>
               wait_turn os stop pid m1 = (Some True, m2))) \<and>
         (\<forall>pid m. s = (Restoring pid, m) \<longrightarrow>
            (\<exists>m1 m2 m3. supervises os db js cfg stop backups m0 (Waiting pid, m1) \<and>
               wait_turn os stop pid m1 = (Some True, m2) \<and>
               supervises os db js cfg stop backups m0 (Exited pid, m3) \<and> \<not> stop (env m3)))"
  using assms
proof (induction rule: supervises.induct)
  case start
  then show ?case by simp
next
  case (turn s s')
  obtain ph m where s: "s = (ph, m)" by fastforce
  show ?case
    using turn unfolding s
    by (cases ph) (auto simp: sup_next_def split: if_splits option.splits prod.splits bool.splits)
next
  case (interfere ph m m')
  then show ?case by (cases ph) auto
qed

section \<open>The waiting loop returns\<close>

definition world_after :: "'w win32 \<Rightarrow> pid \<Rightarrow> nat \<Rightarrow> 'w \<Rightarrow> 'w" where
  "world_after os pid n w = ((\<lambda>w. snd (process_wait os pid 1000 w)) ^^ n) w"

text \<open>After \<open>n\<close> further waits the loop ends: stopped, signalled, or no longer active.\<close>

definition wait_ends :: "'w win32 \<Rightarrow> ('w \<Rightarrow> bool) \<Rightarrow> pid \<Rightarrow> nat \<Rightarrow> 'w \<Rightarrow> bool" where
  "wait_ends os stop pid n w \<longleftrightarrow>
     stop (world_after os pid n w) \<or>
     fst (process_wait os pid 1000 (world_after os pid n w)) = 0 \<or>
     process_exit_code os pid (world_after os pid (Suc n) w) \<noteq> STILL_ACTIVE"

lemma world_after_Suc: "world_after os pid (Suc n) w = world_after os pid n (snd (process_wait os pid 1000 w))"
  unfolding world_after_def by (subst funpow_Suc_right) simp

lemma wait_turn_None:
  "wait_turn os stop pid m = (None, m') \<Longrightarrow>
     env m' = snd (process_wait os pid 1000 (env m)) \<and> \<not> wait_ends os stop pid 0 (env m)"
  by (auto simp: wait_turn_def WaitForSingleObject_def wait_ends_def world_after_def Let_def case_prod_beta
      split: if_splits)

lemma wait_loop_returns:
  "wait_ends os stop pid n (env m) \<Longrightarrow> \<exists>b m'. wait_loop os stop pid m = Some (b, m') \<and>
     log m' = log m \<and> files m' = files m"
proof (induction n arbitrary: m)
  case 0
  obtain r m1 where t: "wait_turn os stop pid m = (r, m1)" by fastforce
  with 0 wait_turn_None [of os stop pid m m1] obtain b where "r = Some b" by (cases r) auto
  moreover have "files m1 = files m" "log m1 = log m"
    using t by (auto simp: wait_turn_def Let_def case_prod_beta split: if_splits)
  ultimately show ?case by (subst wait_loop.simps) (simp add: t)
next
  case (Suc n)
  obtain r m1 where t: "wait_turn os stop pid m = (r, m1)" by fastforce
  have same: "files m1 = files m" "log m1 = log m"
    using t by (auto simp: wait_turn_def Let_def case_prod_beta split: if_splits)
  show ?case
  proof (cases r)
    case None
    with t wait_turn_None [of os stop pid m m1] have "env m1 = snd (process_wait os pid 1000 (env m))" by blast
    then have "wait_ends os stop pid n (env m1)"
      using Suc.prems by (simp add: wait_ends_def world_after_Suc)
    from Suc.IH [OF this] same show ?thesis by (subst wait_loop.simps) (simp add: t None)
  next
    case (Some b)
    then show ?thesis using same by (subst wait_loop.simps) (simp add: t)
  qed
qed


section \<open>Properties\<close>

text \<open>
  until the thread has finished, and when it is cancelled at any point, the only calls it has
  made raise the priority and set the affinity of the process it found and close the client's
  interface: no relaunch and no rollback, whatever other threads do in between.
\<close>

theorem supervisor_restores_only_when_done:
  assumes "supervises os db js cfg stop backups m0 (ph, m)" and "ph \<noteq> Done"
  shows "\<exists>pid. log_grows (tuning_effect cfg pid) m0 m"
  using supervises_inv [OF assms(1)] assms(2) by (cases ph) (auto simp: log_grows_def)

theorem supervisor_restores_only_when_done_witness:
  "supervises demo_os new_db \<lparr>tx_encode = (\<lambda>_. None), tx_decode = (\<lambda>_. None)\<rparr> default_config (\<lambda>w. True) []
     demo_machine (Cancelled, demo_machine) \<and>
   (\<exists>pid. log_grows (tuning_effect default_config pid) demo_machine demo_machine)"
proof -
  let ?s = "supervises demo_os new_db \<lparr>tx_encode = (\<lambda>_. None), tx_decode = (\<lambda>_. None)\<rparr> default_config (\<lambda>w. True) []
     demo_machine"
  have "?s (Cancelled, demo_machine)"
    by (rule supervises.turn [OF supervises.start]) (simp add: sup_next_def)
  from supervisor_restores_only_when_done [OF this] this show ?thesis by simp
qed


definition demo_game :: "world win32" where
  "demo_game = demo_os\<lparr>process_list := (\<lambda>w. Some [(900, ''cs2.exe'')]),
     process_open := (\<lambda>a p w. True), process_wait := (\<lambda>p d w. (0, w)), process_image := (\<lambda>p w. None)\<rparr>"


text \<open>
  C25: waiting for the game returns when, after some number of one-second waits, the stop flag is
  set, the process is signalled, or its exit code is no longer the active one; it makes no
  state-changing call.
\<close>

theorem wait_for_game_exit_returns:
  assumes "\<exists>n. wait_ends os stop pid n (env m)"
  shows "\<exists>r m'. wait_for_game_exit os stop pid m = Some (r, m') \<and> log m' = log m \<and> files m' = files m"
  using assms wait_loop_returns [of os stop pid _ m] by (fastforce simp: wait_for_game_exit_def)

theorem wait_for_game_exit_returns_witness:
  "(\<exists>n. wait_ends demo_os (\<lambda>w. False) 777 n (env demo_machine)) \<and>
   (\<exists>r m'. wait_for_game_exit demo_os (\<lambda>w. False) 777 demo_machine = Some (r, m') \<and> log m' = [])"
proof -
  have "wait_ends demo_os (\<lambda>w. False) 777 0 (env demo_machine)"
    by (simp add: wait_ends_def world_after_def demo_os_def demo_alive_def demo_image_def
        demo_machine_def demo_world_def)
  then have "\<exists>n. wait_ends demo_os (\<lambda>w. False) 777 n (env demo_machine)" by blast
  from this wait_for_game_exit_returns [OF this] show ?thesis by (auto simp: demo_machine_def)
qed

text \<open>
  a process found as the game is in the process list under the game's name, and its image
  path ends in the name of the game binary.
\<close>

theorem found_game_is_genuine:
  assumes "process_list os (env m) = Some entries"
    and "find_process_with_path os VALORANT_BINARY_NAME m = Some (pid, path)"
  shows "\<exists>raw. (pid, raw) \<in> set entries \<and> exe_of raw = ''valorant-win64-shipping.exe'' \<and>
           get_process_image_path os pid m = Some path \<and>
           ends_with (to_lowercase path) ''valorant-win64-shipping.exe''"
proof -
  have name: "to_lowercase VALORANT_BINARY_NAME = ''valorant-win64-shipping.exe''" by code_simp
  obtain raw where r: "(pid, raw) \<in> set entries" "exe_of raw = to_lowercase VALORANT_BINARY_NAME"
    "is_legitimate_game_path VALORANT_BINARY_NAME path"
    "path = opt_unwrap_or (get_process_image_path os pid m) []"
    using find_entry_with_path_genuine [of os VALORANT_BINARY_NAME entries m pid path] assms
    by (auto simp: find_process_with_path_def)
  have e: "ends_with (to_lowercase path) ''valorant-win64-shipping.exe''"
    by (rule legitimate_game_path_suffix [OF r(3)])
  then have "path \<noteq> []" by auto
  then have "get_process_image_path os pid m = Some path"
    using r(4) by (cases "get_process_image_path os pid m") auto
  moreover have "exe_of raw = ''valorant-win64-shipping.exe''" by (rule trans [OF r(2) name])
  ultimately show ?thesis using r(1) e by blast
qed

theorem found_game_is_genuine_witness:
  "find_process_with_path
     (demo_os\<lparr>process_list := (\<lambda>w. Some [(901, ''VALORANT-Win64-Shipping.exe'')]), process_open := (\<lambda>a p w. True),
       process_image := (\<lambda>p w. Some (win ''D:/VALORANT/live/ShooterGame/VALORANT-Win64-Shipping.exe''))\<rparr>)
     VALORANT_BINARY_NAME demo_machine =
     Some (901, win ''D:/VALORANT/live/ShooterGame/VALORANT-Win64-Shipping.exe'') \<and>
   ends_with (to_lowercase (win ''D:/VALORANT/live/ShooterGame/VALORANT-Win64-Shipping.exe''))
     ''valorant-win64-shipping.exe''"
proof -
  let ?os = "demo_os\<lparr>process_list := (\<lambda>w. Some [(901, ''VALORANT-Win64-Shipping.exe'')]), process_open := (\<lambda>a p w. True),
       process_image := (\<lambda>p w. Some (win ''D:/VALORANT/live/ShooterGame/VALORANT-Win64-Shipping.exe''))\<rparr>"
  let ?lower = "win ''d:/valorant/live/shootergame/valorant-win64-shipping.exe''"
  have eval: "exe_of ''VALORANT-Win64-Shipping.exe'' = to_lowercase VALORANT_BINARY_NAME"
    "win ''D:/VALORANT/live/ShooterGame/VALORANT-Win64-Shipping.exe'' \<noteq> []"
    by code_simp+
  have lower: "to_lowercase (win ''D:/VALORANT/live/ShooterGame/VALORANT-Win64-Shipping.exe'') = ?lower"
    by code_simp
  have "contains ?lower ''valorant''" "contains ?lower ''shootergame''"
    "ends_with ?lower ''valorant-win64-shipping.exe''" by code_simp+
  then have "is_legitimate_game_path VALORANT_BINARY_NAME
      (win ''D:/VALORANT/live/ShooterGame/VALORANT-Win64-Shipping.exe'')"
    unfolding is_legitimate_game_path_def Let_def lower by (simp only: eq_ignore_ascii_case_refl if_True simp_thms)
  with eval have f: "find_process_with_path ?os VALORANT_BINARY_NAME demo_machine =
      Some (901, win ''D:/VALORANT/live/ShooterGame/VALORANT-Win64-Shipping.exe'')"
    by (simp add: find_process_with_path_def get_process_image_path_def)
  have "process_list ?os (env demo_machine) = Some [(901, ''VALORANT-Win64-Shipping.exe'')]" by simp
  from found_game_is_genuine [OF this f] f show ?thesis by blast
qed

end
