(* ===== verification/Launcher.thy ===== *)
theory Launcher
  imports Supervisor
begin

text \<open>
  \<^verbatim>\<open>process/valorant_launcher.rs\<close>: finding the Riot Client and the game, and starting the game
  through the client or the registered URI. The installer's JSON file is decoded by a parameter
  (crate \<^verbatim>\<open>serde_json\<close>), which gives the string fields of the object.
\<close>

section \<open>Data\<close>

definition RIOT_CLIENT_SERVICES_NAME :: string where
  "RIOT_CLIENT_SERVICES_NAME = ''RiotClientServices.exe''"

definition RIOT_CLIENT_URI :: string where
  "RIOT_CLIENT_URI = ''riotclient://launch-product?product=valorant&patchline=live''"

datatype ValorantLaunchError = NotInstalled | LaunchFailed nat | VanguardError string

text \<open>The message of a successful launch, by its form.\<close>

datatype launch_status = AlreadyRunning pid | ClientLaunched pid | UriDispatched

record ValorantInstallation =
  riot_client_path :: "path option"
  valorant_shipping_path :: "path option"
  install_directory :: "path option"
  uri_registered :: bool

type_synonym installs_json = "bytes \<Rightarrow> (string \<Rightarrow> string option) option"

datatype root_key = Hive hive | HKEY_CLASSES_ROOT

section \<open>Reading the registry\<close>

definition key_opens :: "'w win32 \<Rightarrow> root_key \<Rightarrow> string \<Rightarrow> 'w machine \<Rightarrow> bool" where
  "key_opens os root subkey m =
     (case root of
        Hive h \<Rightarrow> reg_open os h subkey KEY_READ (env m) = 0
      | HKEY_CLASSES_ROOT \<Rightarrow> hkcr_open os subkey (env m) = 0)"

definition key_string :: "'w win32 \<Rightarrow> root_key \<Rightarrow> string \<Rightarrow> string \<Rightarrow> 'w machine \<Rightarrow> (u32 \<times> string) option" where
  "key_string os root subkey value_name m =
     (case root of
        Hive h \<Rightarrow> reg_get_sz os h subkey value_name 1024 (env m)
      | HKEY_CLASSES_ROOT \<Rightarrow> hkcr_get_sz os subkey value_name 1024 (env m))"

text \<open>\<open>REG_SZ\<close> is 1 and \<open>REG_EXPAND_SZ\<close> is 2; the buffer counts two bytes a character.\<close>

definition query_registry_string ::
  "'w win32 \<Rightarrow> root_key \<Rightarrow> string \<Rightarrow> string \<Rightarrow> 'w machine \<Rightarrow> string option" where
  "query_registry_string os root subkey value_name m =
     (if key_opens os root subkey m then
        (case key_string os root subkey value_name m of
           Some (val_type, buf) \<Rightarrow>
             if (val_type = 1 \<or> val_type = 2) \<and> 2 * length buf > 2
             then Some (trim (trim_matches (CHR 0x00) (take (2 * length buf div 2 - 1) buf)))
             else None
         | None \<Rightarrow> None)
      else None)"

definition extract_executable_from_command :: "string \<Rightarrow> path option" where
  "extract_executable_from_command cmd =
     (let trimmed = trim cmd
      in if starts_with trimmed [CHR 0x22] then
           map_option (\<lambda>e. take e (drop 1 trimmed)) (find_sub [CHR 0x22] (drop 1 trimmed))
         else map_option (\<lambda>pos. take (pos + 4) trimmed) (find_sub ''.exe'' (to_lowercase trimmed)))"

definition is_uri_protocol_registered :: "'w win32 \<Rightarrow> 'w machine \<Rightarrow> bool" where
  "is_uri_protocol_registered os m = key_opens os HKEY_CLASSES_ROOT (win ''riotclient/shell/open/command'') m"

section \<open>Finding the client\<close>

text \<open>The first candidate that is a file.\<close>

definition first_file :: "'w win32 \<Rightarrow> 'w machine \<Rightarrow> path list \<Rightarrow> path option" where
  "first_file os m candidates = find (\<lambda>p. fs_is_file os p m) candidates"

definition or_else :: "'a option \<Rightarrow> 'a option \<Rightarrow> 'a option" where
  "or_else a b = (case a of Some x \<Rightarrow> Some x | None \<Rightarrow> b)"

definition riot_dir :: "'w win32 \<Rightarrow> 'w machine \<Rightarrow> path" where
  "riot_dir os m = path_join (opt_unwrap_or (env_var os ''ProgramData'' (env m)) (win ''C:/ProgramData'')) ''Riot Games''"

definition installs_candidates :: "'w win32 \<Rightarrow> installs_json \<Rightarrow> 'w machine \<Rightarrow> path list" where
  "installs_candidates os js m =
     (let installs = path_join (riot_dir os m) ''RiotClientInstalls.json''
      in if fs_is_file os installs m then
           (case fs_read_to_string os installs m of
              Inl _ \<Rightarrow> []
            | Inr content \<Rightarrow>
                (case js content of
                   None \<Rightarrow> []
                 | Some json \<Rightarrow> List.map_filter json [''rc_default'', ''rc_live'']))
         else [])"

definition client_subkeys :: "(root_key \<times> string) list" where
  "client_subkeys =
     [(Hive HKEY_CURRENT_USER, win ''Software/Riot Games/RiotClient''),
      (Hive HKEY_LOCAL_MACHINE, win ''SOFTWARE/Riot Games, Inc/Riot Client''),
      (Hive HKEY_LOCAL_MACHINE, win ''SOFTWARE/WOW6432Node/Riot Games, Inc/Riot Client'')]"

definition registry_candidates :: "'w win32 \<Rightarrow> 'w machine \<Rightarrow> path list" where
  "registry_candidates os m =
     List.map_filter
       (\<lambda>(root, subkey). map_option (\<lambda>loc. path_join loc RIOT_CLIENT_SERVICES_NAME)
          (query_registry_string os root subkey ''Location'' m))
       client_subkeys"

definition command_candidate :: "'w win32 \<Rightarrow> 'w machine \<Rightarrow> path list" where
  "command_candidate os m =
     (case query_registry_string os HKEY_CLASSES_ROOT (win ''riotclient/shell/open/command'') [] m of
        None \<Rightarrow> []
      | Some cmd \<Rightarrow> (case extract_executable_from_command cmd of None \<Rightarrow> [] | Some p \<Rightarrow> [p]))"

definition drives :: "string list" where
  "drives = [''C'', ''D'', ''E'', ''F'', ''G'']"

definition find_riot_client_executable :: "'w win32 \<Rightarrow> installs_json \<Rightarrow> 'w machine \<Rightarrow> path option" where
  "find_riot_client_executable os js m =
     or_else (first_file os m (installs_candidates os js m))
    (or_else (first_file os m (registry_candidates os m))
    (or_else (first_file os m (command_candidate os m))
      (first_file os m
        (map (\<lambda>d. d @ win '':/Riot Games/Riot Client/'' @ RIOT_CLIENT_SERVICES_NAME) drives))))"

section \<open>Finding the game\<close>

text \<open>\<open>splitn(2, d)\<close>.\<close>

definition splitn2 :: "char \<Rightarrow> string \<Rightarrow> string list" where
  "splitn2 d s = (case find_sub [d] s of None \<Rightarrow> [s] | Some i \<Rightarrow> [take i s, drop (i + 1) s])"

definition shipping_in :: "path \<Rightarrow> path" where
  "shipping_in dir =
     path_join (path_join (path_join (path_join dir ''ShooterGame'') ''Binaries'') ''Win64'') VALORANT_BINARY_NAME"

definition settings_dir :: "string \<Rightarrow> path option" where
  "settings_dir line =
     (let trimmed = trim line
      in if starts_with trimmed ''product_install_full_path:'' then
           (case splitn2 CHR '':'' trimmed of
              [_, v] \<Rightarrow> Some (trim_matches (CHR 0x27) (trim_matches (CHR 0x22) (trim v)))
            | _ \<Rightarrow> None)
         else None)"

definition settings_dirs :: "'w win32 \<Rightarrow> 'w machine \<Rightarrow> path list" where
  "settings_dirs os m =
     (let yaml = path_join (path_join (path_join (riot_dir os m) ''Metadata'') ''valorant.live'')
                   ''valorant.live.product_settings.yaml''
      in if fs_is_file os yaml m then
           (case fs_read_to_string os yaml m of
              Inl _ \<Rightarrow> []
            | Inr content \<Rightarrow> List.map_filter settings_dir (lines (ascii_string content)))
         else [])"

definition uninstall_keys :: "(root_key \<times> string) list" where
  "uninstall_keys =
     [(Hive HKEY_LOCAL_MACHINE,
       win ''SOFTWARE/Microsoft/Windows/CurrentVersion/Uninstall/Riot Game valorant.live''),
      (Hive HKEY_CURRENT_USER,
       win ''Software/Microsoft/Windows/CurrentVersion/Uninstall/Riot Game valorant.live''),
      (Hive HKEY_LOCAL_MACHINE,
       win ''SOFTWARE/WOW6432Node/Microsoft/Windows/CurrentVersion/Uninstall/Riot Game valorant.live'')]"

definition uninstall_dirs :: "'w win32 \<Rightarrow> 'w machine \<Rightarrow> path list" where
  "uninstall_dirs os m =
     List.map_filter (\<lambda>(root, key). query_registry_string os root key ''InstallLocation'' m) uninstall_keys"

definition drive_dirs :: "path list" where
  "drive_dirs = map (\<lambda>d. d @ win '':/Riot Games/VALORANT/live'') drives"

definition drive_shipping :: "path \<Rightarrow> path" where
  "drive_shipping dir = dir @ win ''/ShooterGame/Binaries/Win64/'' @ VALORANT_BINARY_NAME"

definition find_valorant_paths :: "'w win32 \<Rightarrow> 'w machine \<Rightarrow> path option \<times> path option" where
  "find_valorant_paths os m =
     (case find (\<lambda>dir. fs_is_file os (shipping_in dir) m) (settings_dirs os m @ uninstall_dirs os m) of
        Some dir \<Rightarrow> (Some (shipping_in dir), Some dir)
      | None \<Rightarrow>
          (case find (\<lambda>dir. fs_is_file os (drive_shipping dir) m) drive_dirs of
             Some dir \<Rightarrow> (Some (drive_shipping dir), Some dir)
           | None \<Rightarrow> (None, None)))"

definition detect_installation :: "'w win32 \<Rightarrow> installs_json \<Rightarrow> 'w machine \<Rightarrow> ValorantInstallation" where
  "detect_installation os js m =
     (let riot = find_riot_client_executable os js m;
          (shipping, dir) = find_valorant_paths os m;
          uri = is_uri_protocol_registered os m
      in \<lparr>riot_client_path = riot, valorant_shipping_path = shipping, install_directory = dir,
          uri_registered = uri\<rparr>)"

section \<open>Launching\<close>

definition launch_args :: "string list" where
  "launch_args = [''--launch-product=valorant'', ''--launch-patchline=live'']"

definition launch_args_line :: string where
  "launch_args_line = ''--launch-product=valorant --launch-patchline=live''"

definition launch_client :: "'w win32 \<Rightarrow> path \<Rightarrow> 'w machine \<Rightarrow> pid option \<times> 'w machine" where
  "launch_client os riot_exe m =
     (let (r, m) =
        (if is_current_process_elevated os m then
           (case get_interactive_user_token os m of
              Some token \<Rightarrow>
                (case spawn_process_with_user_token os riot_exe (Some launch_args_line) token m of
                   (Inr pid, m) \<Rightarrow> (Some pid, m)
                 | (Inl _, m) \<Rightarrow> (None, m))
            | None \<Rightarrow> (None, m))
         else (None, m))
      in case r of
           Some pid \<Rightarrow> (Some pid, m)
         | None \<Rightarrow>
             (case spawn_plain os riot_exe launch_args m of
                (Inr pid, m) \<Rightarrow> (Some pid, m)
              | (Inl _, m) \<Rightarrow> (None, m)))"

definition launch_uri ::
  "'w win32 \<Rightarrow> 'w machine \<Rightarrow> (ValorantLaunchError, launch_status) rust_result \<times> 'w machine" where
  "launch_uri os m =
     (let (ret_val, m) = call (ShellOpen RIOT_CLIENT_URI) (shell_execute os RIOT_CLIENT_URI) m
      in (if ret_val > 32 then Ok UriDispatched else Err (LaunchFailed ret_val), m))"

definition launch_game ::
  "'w win32 \<Rightarrow> installs_json \<Rightarrow> 'w machine \<Rightarrow> (ValorantLaunchError, launch_status) rust_result \<times> 'w machine" where
  "launch_game os js m =
     (case find_process_with_path os VALORANT_BINARY_NAME m of
        Some (pid, _) \<Rightarrow> (Ok (AlreadyRunning pid), m)
      | None \<Rightarrow>
          let installation = detect_installation os js m
          in case (case riot_client_path installation of
                     Some riot_exe \<Rightarrow> launch_client os riot_exe m
                   | None \<Rightarrow> (None, m)) of
               (Some pid, m) \<Rightarrow> (Ok (ClientLaunched pid), m)
             | (None, m) \<Rightarrow>
                 if uri_registered installation then launch_uri os m else (Err NotInstalled, m))"

section \<open>What is found exists\<close>

lemma first_file_Some: "first_file os m ps = Some p \<Longrightarrow> p \<in> set ps \<and> fs_is_file os p m"
  using find_Some_in by (fastforce simp: first_file_def)

lemma or_else_Some: "or_else a b = Some x \<longleftrightarrow> a = Some x \<or> a = None \<and> b = Some x"
  by (auto simp: or_else_def split: option.split)

lemma found_client_is_file: "find_riot_client_executable os js m = Some p \<Longrightarrow> fs_is_file os p m"
  by (auto simp: find_riot_client_executable_def or_else_Some dest: first_file_Some)

lemma found_game_is_file:
  "find_valorant_paths os m = (Some p, d) \<Longrightarrow> fs_is_file os p m"
  by (auto simp: find_valorant_paths_def split: option.splits dest!: sym [of "Some _"] find_Some_in)

lemma extract_quoted:
  assumes "CHR 0x22 \<notin> set p"
  shows "extract_executable_from_command (CHR 0x22 # p @ CHR 0x22 # rest) = Some p"
proof -
  have q: "\<not> is_whitespace (CHR 0x22)" by (simp add: is_whitespace_def)
  obtain rest' where t: "trim (CHR 0x22 # p @ CHR 0x22 # rest) = CHR 0x22 # p @ CHR 0x22 # rest'"
  proof -
    have "dropWhile is_whitespace (rev rest @ CHR 0x22 # rev p @ [CHR 0x22]) =
      dropWhile is_whitespace (rev rest) @ CHR 0x22 # rev p @ [CHR 0x22]"
      using q by (simp add: dropWhile_append3 dropWhile_append)
    then show thesis
      using that [of "rev (dropWhile is_whitespace (rev rest))"] q by (simp add: trim_both_def)
  qed
  have "find_sub [CHR 0x22] (p @ CHR 0x22 # rest') = Some (length p)"
    using assms by (induction p) auto
  then show ?thesis
    by (simp add: extract_executable_from_command_def t Let_def)
qed

section \<open>What a launch calls\<close>

definition launch_effect :: "'w win32 \<Rightarrow> installs_json \<Rightarrow> 'w machine \<Rightarrow> effect \<Rightarrow> bool" where
  "launch_effect os js m e =
     (case e of
        SpawnAsUser token line \<Rightarrow>
          (\<exists>exe. find_riot_client_executable os js m = Some exe \<and> fs_is_file os exe m \<and>
             line = quoted_command exe (Some launch_args_line))
      | Spawn exe args \<Rightarrow>
          find_riot_client_executable os js m = Some exe \<and> fs_is_file os exe m \<and> args = launch_args
      | ShellOpen uri \<Rightarrow> uri = RIOT_CLIENT_URI \<and> is_uri_protocol_registered os m
      | _ \<Rightarrow> False)"

text \<open>The calls of a start through the client: under the user's token, then directly.\<close>

lemma launch_client_calls:
  assumes "launch_client os exe m = (r, m')"
  shows "files m' = files m" and "\<exists>es. log m' = log m @ es \<and>
    (es = [Spawn exe launch_args] \<or>
     (\<exists>t. es = [SpawnAsUser t (quoted_command exe (Some launch_args_line))] \<and> r \<noteq> None) \<or>
     (\<exists>t. es = [SpawnAsUser t (quoted_command exe (Some launch_args_line)), Spawn exe launch_args]))"
proof -
  have plain: "files (snd (spawn_plain os exe launch_args m)) = files m"
    "log (snd (spawn_plain os exe launch_args m)) = log m @ [Spawn exe launch_args]" for m
    by (simp_all add: spawn_plain_def Let_def case_prod_beta split: option.split)
  have user: "files (snd (spawn_process_with_user_token os exe a t m)) = files m"
    "log (snd (spawn_process_with_user_token os exe a t m)) = log m @ [SpawnAsUser t (quoted_command exe a)]" for a t m
    by (simp_all add: spawn_process_with_user_token_def Let_def case_prod_beta split: option.split)
  obtain q m1 where q: "(if is_current_process_elevated os m then
           (case get_interactive_user_token os m of
              Some token \<Rightarrow>
                (case spawn_process_with_user_token os exe (Some launch_args_line) token m of
                   (Inr pid, m) \<Rightarrow> (Some pid, m)
                 | (Inl _, m) \<Rightarrow> (None, m))
            | None \<Rightarrow> (None, m))
         else (None, m)) = (q, m1)" by fastforce
  have first: "files m1 = files m \<and> (log m1 = log m \<and> q = None \<or>
      (\<exists>t. log m1 = log m @ [SpawnAsUser t (quoted_command exe (Some launch_args_line))]))"
  proof (cases "is_current_process_elevated os m \<and> get_interactive_user_token os m \<noteq> None")
    case True
    then obtain t where t: "get_interactive_user_token os m = Some t" by blast
    have "m1 = snd (spawn_process_with_user_token os exe (Some launch_args_line) t m)"
      using q True t by (auto split: prod.splits sum.splits)
    then show ?thesis using user by auto
  qed (use q in \<open>auto split: if_splits\<close>)
  have rest: "(r, m') = (case q of
           Some pid \<Rightarrow> (Some pid, m1)
         | None \<Rightarrow>
             (case spawn_plain os exe launch_args m1 of
                (Inr pid, m) \<Rightarrow> (Some pid, m)
              | (Inl _, m) \<Rightarrow> (None, m)))"
    using assms q by (simp add: launch_client_def)
  have "q = None \<Longrightarrow> m' = snd (spawn_plain os exe launch_args m1)"
    using rest by (auto split: prod.splits sum.splits)
  then have "(\<exists>pid. q = Some pid \<and> r = q \<and> m' = m1) \<or> q = None \<and> m' = snd (spawn_plain os exe launch_args m1)"
    using rest by (cases q) auto
  then show "files m' = files m" and "\<exists>es. log m' = log m @ es \<and>
    (es = [Spawn exe launch_args] \<or>
     (\<exists>t. es = [SpawnAsUser t (quoted_command exe (Some launch_args_line))] \<and> r \<noteq> None) \<or>
     (\<exists>t. es = [SpawnAsUser t (quoted_command exe (Some launch_args_line)), Spawn exe launch_args]))"
    using first plain [of m1] by auto
qed

lemma launch_uri_calls:
  "files (snd (launch_uri os m)) = files m" "log (snd (launch_uri os m)) = log m @ [ShellOpen RIOT_CLIENT_URI]"
  "fst (launch_uri os m) \<noteq> Err NotInstalled" "fst (launch_uri os m) \<noteq> Ok (ClientLaunched pid)"
  "fst (launch_uri os m) \<noteq> Ok (AlreadyRunning pid)"
  by (auto simp: launch_uri_def Let_def case_prod_beta)

text \<open>The attempt through the client, when the game is not running.\<close>

lemma launch_client_step:
  assumes "(case find_riot_client_executable os js m of
      Some riot_exe \<Rightarrow> launch_client os riot_exe m | None \<Rightarrow> (None, m)) = (r, m1)"
  shows "files m1 = files m" and "\<exists>es. log m1 = log m @ es \<and> list_all (launch_effect os js m) es \<and>
    length es \<le> 2 \<and> (r \<noteq> None \<longrightarrow> es \<noteq> [])"
proof -
  show "files m1 = files m"
    using assms launch_client_calls(1) by (auto split: option.splits)
  show "\<exists>es. log m1 = log m @ es \<and> list_all (launch_effect os js m) es \<and> length es \<le> 2 \<and> (r \<noteq> None \<longrightarrow> es \<noteq> [])"
  proof (cases "find_riot_client_executable os js m")
    case None
    then show ?thesis using assms by simp
  next
    case (Some exe)
    with assms have "launch_client os exe m = (r, m1)" by simp
    from launch_client_calls(2) [OF this] show ?thesis
      using Some found_client_is_file [OF Some] by (auto simp: launch_effect_def)
  qed
qed

section \<open>The concrete system\<close>

lemma demo_not_running:
  assumes "env m = env demo_machine"
  shows "find_process_with_path demo_os VALORANT_BINARY_NAME m = None"
proof -
  have "process_list demo_os (env demo_machine) =
      Some [(4, ''System''), (100, ''val-opt-core.exe''), (200, ''Discord.exe''), (300, ''vgc.exe'')]"
    by (simp add: demo_os_def demo_machine_def demo_world_def)
  moreover have "exe_of ''System'' \<noteq> to_lowercase VALORANT_BINARY_NAME"
    "exe_of ''val-opt-core.exe'' \<noteq> to_lowercase VALORANT_BINARY_NAME"
    "exe_of ''Discord.exe'' \<noteq> to_lowercase VALORANT_BINARY_NAME"
    "exe_of ''vgc.exe'' \<noteq> to_lowercase VALORANT_BINARY_NAME" by code_simp+
  ultimately show ?thesis using assms by (simp add: find_process_with_path_def)
qed

definition demo_client :: path where
  "demo_client = win ''C:/Riot Games/Riot Client/RiotClientServices.exe''"

lemma demo_finds_client:
  assumes "files m = [to_lowercase demo_client \<mapsto> []]"
  shows "find_riot_client_executable demo_os js m = Some demo_client"
proof -
  have paths: "to_lowercase (path_join (path_join (win ''C:/ProgramData'') ''Riot Games'') ''RiotClientInstalls.json'') \<noteq>
      to_lowercase demo_client"
    "''C'' @ win '':/Riot Games/Riot Client/'' @ RIOT_CLIENT_SERVICES_NAME = demo_client" by code_simp+
  have demo: "env_var demo_os n w = None" "file_id demo_os p = to_lowercase p" "hkcr_open demo_os k w = 2"
    "reg_get_sz demo_os h k n l w = None" for n w p k h l
    by (simp_all add: demo_os_def)
  have "installs_candidates demo_os js m = []"
    using paths(1) assms by (simp add: installs_candidates_def riot_dir_def fs_is_file_def demo)
  moreover have "registry_candidates demo_os m = []" "command_candidate demo_os m = []"
    by (simp_all add: registry_candidates_def command_candidate_def client_subkeys_def
        query_registry_string_def key_opens_def key_string_def demo map_filter_def)
  moreover have "fs_is_file demo_os demo_client m" using assms by (simp add: fs_is_file_def demo)
  ultimately show ?thesis
    using paths(2) by (simp add: find_riot_client_executable_def or_else_def first_file_def drives_def)
qed

section \<open>Properties\<close>

lemma launch_game_result:
  assumes "launch_game os js m = (r, m')"
  shows "files m' = files m \<and> log_grows (launch_effect os js m) m m' \<and> length (log m') \<le> length (log m) + 3 \<and>
    (r = Ok (AlreadyRunning pid) \<longrightarrow> m' = m) \<and> (r = Ok (ClientLaunched pid) \<longrightarrow> log m' \<noteq> log m) \<and>
    (r = Ok UriDispatched \<longrightarrow> last (log m') = ShellOpen RIOT_CLIENT_URI) \<and>
    (r = Err NotInstalled \<longrightarrow> \<not> is_uri_protocol_registered os m)"
proof (cases "find_process_with_path os VALORANT_BINARY_NAME m")
  case (Some x)
  then show ?thesis using assms by (cases x) (auto simp: launch_game_def)
next
  case None
  obtain q m1 where q: "(case find_riot_client_executable os js m of
      Some riot_exe \<Rightarrow> launch_client os riot_exe m | None \<Rightarrow> (None, m)) = (q, m1)" by fastforce
  obtain es where f: "files m1 = files m" and es: "log m1 = log m @ es" "list_all (launch_effect os js m) es"
    "length es \<le> 2" "q \<noteq> None \<longrightarrow> es \<noteq> []"
    using launch_client_step [OF q] by blast
  have run: "(r, m') = (case q of
       Some pid \<Rightarrow> (Ok (ClientLaunched pid), m1)
     | None \<Rightarrow> if is_uri_protocol_registered os m then launch_uri os m1 else (Err NotInstalled, m1))"
    using assms None q by (auto simp: launch_game_def detect_installation_def Let_def case_prod_beta split: option.splits if_splits)
  show ?thesis
  proof (cases "q = None \<and> is_uri_protocol_registered os m")
    case True
    then have "m' = snd (launch_uri os m1)" "r = fst (launch_uri os m1)" using run by (simp_all add: prod_eq_iff)
    then show ?thesis
      using True f es launch_uri_calls [of os m1]
      by (auto simp: log_grows_def launch_effect_def)
  next
    case False
    with run have "m' = m1" "r = (case q of Some pid \<Rightarrow> Ok (ClientLaunched pid) | None \<Rightarrow> Err NotInstalled)"
      by (auto split: option.splits)
    then show ?thesis using False f es by (auto simp: log_grows_def split: option.splits)
  qed
qed

text \<open>
  C21: launching starts only what it found. When the game runs already, nothing is called. Otherwise
  at most three calls are made, each of which starts the Riot Client executable that was found
  and is a file, with the two fixed arguments, under the user's token or directly, or opens the
  fixed URI if its protocol is registered; no file is touched, and \<^verbatim>\<open>NotInstalled\<close> is reported
  only when the protocol is not registered.
\<close>

theorem launch_starts_only_found_client:
  assumes "launch_game os js m = (r, m')"
  shows "files m' = files m \<and> log_grows (launch_effect os js m) m m' \<and> length (log m') \<le> length (log m) + 3 \<and>
    (r = Ok (AlreadyRunning pid) \<longrightarrow> m' = m) \<and> (r = Ok (ClientLaunched pid) \<longrightarrow> log m' \<noteq> log m) \<and>
    (r = Ok UriDispatched \<longrightarrow> last (log m') = ShellOpen RIOT_CLIENT_URI) \<and>
    (r = Err NotInstalled \<longrightarrow> \<not> is_uri_protocol_registered os m)"
  using assms by (rule launch_game_result)

theorem launch_starts_only_found_client_witness:
  "\<exists>m'. launch_game demo_os (\<lambda>_. None) demo_machine = (Err NotInstalled, m') \<and>
     \<not> is_uri_protocol_registered demo_os demo_machine"
proof -
  have "find_process_with_path demo_os VALORANT_BINARY_NAME demo_machine = None"
    by (rule demo_not_running) simp
  moreover have "find_riot_client_executable demo_os (\<lambda>_. None) demo_machine = None"
    by (auto simp: find_riot_client_executable_def or_else_def first_file_def fs_is_file_def demo_machine_def
        find_None_iff split: option.split)
  moreover have "\<not> is_uri_protocol_registered demo_os demo_machine"
    by (simp add: is_uri_protocol_registered_def key_opens_def demo_os_def)
  ultimately have "launch_game demo_os (\<lambda>_. None) demo_machine = (Err NotInstalled, demo_machine)"
    by (simp add: launch_game_def detect_installation_def Let_def case_prod_beta)
  from this launch_starts_only_found_client [OF this] show ?thesis by blast
qed

text \<open>
  the game is not started with the daemon's privileges while it can be avoided. When the daemon
  is elevated, the interactive user's token is available and starting under it succeeds, the
  Riot Client is started exactly once, under that token.
\<close>

theorem elevated_launch_uses_user_token:
  assumes "find_process_with_path os VALORANT_BINARY_NAME m = None"
    and "find_riot_client_executable os js m = Some exe"
    and "is_current_process_elevated os m" and "get_interactive_user_token os m = Some token"
    and "fst (create_process_as_user os token (quoted_command exe (Some launch_args_line)) (parent exe) (env m)) = Some pid"
  shows "\<exists>m'. launch_game os js m = (Ok (ClientLaunched pid), m') \<and>
    log m' = log m @ [SpawnAsUser token (quoted_command exe (Some launch_args_line))]"
  using assms
  by (auto simp: launch_game_def detect_installation_def launch_client_def spawn_process_with_user_token_def
      Let_def case_prod_beta)

theorem elevated_launch_uses_user_token_witness:
  "\<exists>m'. launch_game demo_os (\<lambda>_. None) (demo_machine\<lparr>files := [to_lowercase demo_client \<mapsto> []]\<rparr>) =
       (Ok (ClientLaunched 501), m') \<and>
     log m' = [SpawnAsUser (SessionToken 1) (quoted_command demo_client (Some launch_args_line))]"
proof -
  let ?m = "demo_machine\<lparr>files := [to_lowercase demo_client \<mapsto> []]\<rparr>"
  have "is_current_process_elevated demo_os ?m" "get_interactive_user_token demo_os ?m = Some (SessionToken 1)"
    "fst (create_process_as_user demo_os (SessionToken 1) (quoted_command demo_client (Some launch_args_line))
       (parent demo_client) (env ?m)) = Some 501" "log ?m = []"
    by (simp_all add: is_current_process_elevated_def get_interactive_user_token_def demo_os_def
        demo_machine_def demo_world_def)
  from elevated_launch_uses_user_token [OF demo_not_running demo_finds_client this(1-3)] this(4)
  show ?thesis by simp
qed

text \<open>
  the executable of a registered open command is read back: from a command that starts with a
  quoted path, whatever follows it, exactly that path is extracted.
\<close>

theorem open_command_executable:
  assumes "CHR 0x22 \<notin> set p"
  shows "extract_executable_from_command (CHR 0x22 # p @ CHR 0x22 # rest) = Some p"
  by (rule extract_quoted [OF assms])

theorem open_command_executable_witness:
  "extract_executable_from_command (CHR 0x22 # win ''C:/Riot/RiotClientServices.exe'' @ CHR 0x22 # '' --app'') =
     Some (win ''C:/Riot/RiotClientServices.exe'')"
proof -
  have "CHR 0x22 \<notin> set (win ''C:/Riot/RiotClientServices.exe'')" by code_simp
  from open_command_executable [OF this] show ?thesis .
qed

end
