(* ===== verification/Host_Info.thy ===== *)
theory Host_Info
  imports Win32
begin

text \<open>
  \<^verbatim>\<open>hardware/cpu.rs\<close> and \<^verbatim>\<open>hardware/network.rs\<close>: what the daemon reads about the host before it
  tunes a game process or an adapter. The processor information is a byte buffer of records that the
  code walks with raw pointers: reading outside the buffer is undefined behaviour, the value \<open>None\<close>
  here. Masks and counts are words of their width.
\<close>

section \<open>The queries\<close>

record socket_address =
  sa_family :: u16
  sin_addr :: u32

record adapter_entry =
  entry_description :: "string option"
  entry_friendly_name :: "string option"
  if_type :: u32
  oper_status :: int
  transmit_link_speed :: u64
  unicast_addresses :: "socket_address option list"

text \<open>
  The size \<^verbatim>\<open>GetLogicalProcessorInformationEx\<close> asks for and what it then puts into a buffer of that
  size (\<open>None\<close> on failure); the status, the size asked for and the entries \<^verbatim>\<open>GetAdaptersAddresses\<close>
  gives for a buffer size.
\<close>

record 'w hardware =
  processor_info_size :: "'w \<Rightarrow> u32"
  processor_info :: "u32 \<Rightarrow> 'w \<Rightarrow> bytes option"
  adapters_addresses :: "u32 \<Rightarrow> 'w \<Rightarrow> u32 \<times> u32 \<times> adapter_entry list"

section \<open>Processor topology\<close>

record CoreDescriptor =
  efficiency_class :: u8
  core_has_smt :: bool
  logical_core_count :: u32
  group_masks :: "(u16 \<times> u64) list"

record EvaluatedTopology =
  physical_cores :: u32
  logical_cores :: u32
  performance_cores :: u32
  efficient_cores :: u32
  has_smt :: bool
  is_hybrid :: bool
  topology_affinity_mask :: "u64 option"

definition default_topology :: EvaluatedTopology where
  "default_topology = \<lparr>physical_cores = 0, logical_cores = 0, performance_cores = 0, efficient_cores = 0,
     has_smt = False, is_hybrid = False, topology_affinity_mask = None\<rparr>"

definition group0_mask :: "CoreDescriptor \<Rightarrow> u64 \<Rightarrow> u64" where
  "group0_mask c = fold (\<lambda>(g, m) bits. if g = 0 then or bits m else bits) (group_masks c)"

definition evaluate_topology :: "CoreDescriptor list \<Rightarrow> EvaluatedTopology" where
  "evaluate_topology cores =
     (if cores = [] then default_topology
      else
        let physical = of_nat (length cores);
            logical = fold (\<lambda>c n. n + logical_core_count c) cores 0;
            smt = fold (\<lambda>c b. if core_has_smt c then True else b) cores False;
            min_eff = fold (\<lambda>c v. if efficiency_class c < v then efficiency_class c else v) cores (- 1);
            max_eff = fold (\<lambda>c v. if efficiency_class c > v then efficiency_class c else v) cores 0;
            hybrid = max_eff > min_eff;
            (p, e, affinity) =
              (if hybrid then
                 let p_count = of_nat (length (filter (\<lambda>c. efficiency_class c = max_eff) cores));
                     e_count = of_nat (length (filter (\<lambda>c. efficiency_class c < max_eff) cores));
                     bits = fold group0_mask (filter (\<lambda>c. efficiency_class c = max_eff) cores) 0
                 in (p_count, e_count, if bits \<noteq> 0 then Some bits else None)
               else (physical, 0, None))
        in \<lparr>physical_cores = physical, logical_cores = logical, performance_cores = p, efficient_cores = e,
            has_smt = smt, is_hybrid = hybrid, topology_affinity_mask = affinity\<rparr>)"

text \<open>A little-endian field of \<open>n\<close> bytes at an offset; \<open>None\<close> outside the buffer.\<close>

definition field_at :: "nat \<Rightarrow> nat \<Rightarrow> bytes \<Rightarrow> nat option" where
  "field_at off n buf = (if off + n \<le> length buf then Some (be_val (rev (take n (drop off buf)))) else None)"

definition count_ones :: "u64 \<Rightarrow> u32" where
  "count_ones m = of_nat (length (filter (\<lambda>i. bit m i) [0..<64]))"

text \<open>The \<open>GROUP_AFFINITY\<close> entries of a core record, of 16 bytes each.\<close>

fun read_groups :: "nat \<Rightarrow> nat \<Rightarrow> bytes \<Rightarrow> (u16 \<times> u64) list option" where
  "read_groups off 0 buf = Some []"
| "read_groups off (Suc n) buf =
     (case (field_at off 8 buf, field_at (off + 8) 2 buf, read_groups (off + 16) n buf) of
        (Some msk, Some grp, Some rest) \<Rightarrow> Some ((of_nat grp, of_nat msk) # rest)
      | _ \<Rightarrow> None)"

definition read_core :: "nat \<Rightarrow> bytes \<Rightarrow> CoreDescriptor option" where
  "read_core off buf =
     (case (field_at (off + 8) 1 buf, field_at (off + 9) 1 buf, field_at (off + 30) 2 buf) of
        (Some flags, Some eff, Some group_count) \<Rightarrow>
          (case read_groups (off + 32) group_count buf of
             None \<Rightarrow> None
           | Some gs \<Rightarrow>
               Some \<lparr>efficiency_class = of_nat eff, core_has_smt = odd flags,
                     logical_core_count = fold (\<lambda>(_, m) n. n + count_ones m) gs 0, group_masks = gs\<rparr>)
      | _ \<Rightarrow> None)"

function parse_cores_from :: "nat \<Rightarrow> bytes \<Rightarrow> CoreDescriptor list option" where
  "parse_cores_from off buf =
     (if off + 8 \<le> length buf then
        let relationship = the (field_at off 4 buf); record_size = the (field_at (off + 4) 4 buf)
        in if record_size < 8 \<or> off + record_size > length buf then Some []
           else case (if relationship = 0 then map_option (\<lambda>c. [c]) (read_core off buf) else Some []) of
                  None \<Rightarrow> None
                | Some cs \<Rightarrow> map_option (\<lambda>rest. cs @ rest) (parse_cores_from (off + record_size) buf)
      else Some [])"
  by pat_completeness auto
termination by (relation "measure (\<lambda>(off, buf). length buf - off)") auto

declare parse_cores_from.simps [simp del]

definition parse_processor_cores :: "bytes \<Rightarrow> CoreDescriptor list option" where
  "parse_processor_cores buf = parse_cores_from 0 buf"

datatype topology_error = SizeQueryFailed | ProcessorQueryFailed

text \<open>The outer \<open>None\<close> is a read outside the buffer.\<close>

definition detect_processor_topology ::
  "'w hardware \<Rightarrow> 'w \<Rightarrow> (topology_error, EvaluatedTopology) rust_result option" where
  "detect_processor_topology hw w =
     (let buffer_size = processor_info_size hw w
      in if buffer_size = 0 then Some (Err SizeQueryFailed)
         else case processor_info hw buffer_size w of
                None \<Rightarrow> Some (Err ProcessorQueryFailed)
              | Some buf \<Rightarrow> map_option (\<lambda>cores. Ok (evaluate_topology cores)) (parse_processor_cores buf))"

section \<open>Network adapters\<close>

record NetworkAdapterInfo =
  adapter_name :: string
  adapter_description :: string
  is_ethernet :: bool
  is_wifi :: bool
  is_active :: bool
  link_speed_mbps :: u64
  ipv4_address :: "string option"

datatype adapter_error = AdaptersQueryFailed u32 | NoActiveAdapter

definition dotted :: "u32 \<Rightarrow> string" where
  "dotted a =
     (let b = le_bytes 4 (unat a); d = (\<lambda>i. dec_string (unat (b ! i)))
      in d 0 @ ''.'' @ d 1 @ ''.'' @ d 2 @ ''.'' @ d 3)"

fun first_ipv4 :: "socket_address option list \<Rightarrow> string option" where
  "first_ipv4 [] = None"
| "first_ipv4 (Some a # as) = (if sa_family a = 2 then Some (dotted (sin_addr a)) else first_ipv4 as)"
| "first_ipv4 (None # as) = first_ipv4 as"

definition adapter_of_entry :: "adapter_entry \<Rightarrow> NetworkAdapterInfo" where
  "adapter_of_entry e =
     \<lparr>adapter_name = opt_unwrap_or (entry_friendly_name e) [],
      adapter_description = opt_unwrap_or (entry_description e) [],
      is_ethernet = (if_type e = 6), is_wifi = (if_type e = 71), is_active = (oper_status e = 1),
      link_speed_mbps = transmit_link_speed e div 1000000, ipv4_address = first_ipv4 (unicast_addresses e)\<rparr>"

definition detect_windows_adapters ::
  "'w hardware \<Rightarrow> 'w \<Rightarrow> (adapter_error, NetworkAdapterInfo list) rust_result" where
  "detect_windows_adapters hw w =
     (let (result, size, entries) = adapters_addresses hw 16384 w;
          (retry, _, entries) = (if result \<noteq> 0 then adapters_addresses hw size w else (0, size, entries))
      in if retry \<noteq> 0 then Err (AdaptersQueryFailed retry)
         else Ok (filter (\<lambda>a. is_ethernet a \<or> is_wifi a) (map adapter_of_entry entries)))"

definition detect_all :: "'w hardware \<Rightarrow> 'w \<Rightarrow> (adapter_error, NetworkAdapterInfo list) rust_result" where
  "detect_all hw w = detect_windows_adapters hw w"

text \<open>The key compares as a pair, the first component first.\<close>

definition adapter_rank :: "NetworkAdapterInfo \<Rightarrow> nat" where
  "adapter_rank a = (if is_ethernet a then 1 else 0) * 2 ^ 64 + unat (link_speed_mbps a)"

definition detect_primary :: "'w hardware \<Rightarrow> 'w \<Rightarrow> (adapter_error, NetworkAdapterInfo) rust_result" where
  "detect_primary hw w =
     (case detect_all hw w of
        Inl e \<Rightarrow> Err e
      | Inr adapters \<Rightarrow>
          (case max_by_key adapter_rank (filter is_active adapters) of
             Some a \<Rightarrow> Ok a
           | None \<Rightarrow> Err NoActiveAdapter))"
section \<open>Parsing is exact\<close>

lemma field_at_le_bytes:
  assumes "off = length pre"
  shows "field_at off n (pre @ le_bytes n v @ post) = Some (v mod 256 ^ n)"
  using assms by (simp add: field_at_def be_val_rev_le_bytes)

text \<open>The bytes of a core record, and the descriptors that have one.\<close>

definition encode_group :: "u16 \<times> u64 \<Rightarrow> bytes" where
  "encode_group = (\<lambda>(g, m). le_bytes 8 (unat m) @ le_bytes 2 (unat g) @ replicate 6 0)"

definition encode_core :: "CoreDescriptor \<Rightarrow> bytes" where
  "encode_core c =
     le_bytes 4 0 @ le_bytes 4 (32 + 16 * length (group_masks c)) @ le_bytes 1 (if core_has_smt c then 1 else 0) @
     le_bytes 1 (unat (efficiency_class c)) @ replicate 20 0 @ le_bytes 2 (length (group_masks c)) @
     concat (map encode_group (group_masks c))"

definition core_ok :: "CoreDescriptor \<Rightarrow> bool" where
  "core_ok c \<longleftrightarrow> length (group_masks c) < 65536 \<and>
     logical_core_count c = sum_list (map (\<lambda>(_, m). count_ones m) (group_masks c))"

lemma length_encode_group [simp]: "length (encode_group g) = 16"
  by (simp add: encode_group_def split: prod.split)

lemma length_encode_groups [simp]: "length (concat (map encode_group gs)) = 16 * length gs"
  by (induction gs) simp_all

lemma length_encode_core [simp]: "length (encode_core c) = 32 + 16 * length (group_masks c)"
  by (simp add: encode_core_def)

lemma read_groups_encode:
  "off = length pre \<Longrightarrow> read_groups off (length gs) (pre @ concat (map encode_group gs) @ post) = Some gs"
proof (induction gs arbitrary: off pre)
  case Nil
  then show ?case by simp
next
  case (Cons g gs)
  obtain gr m where g: "g = (gr, m)" by force
  let ?rest = "concat (map encode_group gs) @ post"
  have buf: "pre @ concat (map encode_group (g # gs)) @ post =
      pre @ le_bytes 8 (unat m) @ (le_bytes 2 (unat gr) @ replicate 6 0 @ ?rest)"
    by (simp add: encode_group_def g)
  have "field_at off 8 (pre @ concat (map encode_group (g # gs)) @ post) = Some (unat m)"
    unfolding buf using field_at_le_bytes [OF Cons.prems, of 8 "unat m"] unsigned_less [of m, where ?'a = nat] by simp
  moreover have "field_at (off + 8) 2 (pre @ concat (map encode_group (g # gs)) @ post) = Some (unat gr)"
    using field_at_le_bytes [of "off + 8" "pre @ le_bytes 8 (unat m)" 2 "unat gr" "replicate 6 0 @ ?rest"]
      Cons.prems unsigned_less [of gr, where ?'a = nat] unfolding buf by simp
  moreover have "read_groups (off + 16) (length gs) (pre @ concat (map encode_group (g # gs)) @ post) = Some gs"
    using Cons.IH [of "off + 16" "pre @ encode_group g"] Cons.prems by simp
  ultimately show ?case by (simp add: g)
qed

lemma fold_count: "fold (\<lambda>(_, m) n. n + count_ones m) gs k = k + sum_list (map (\<lambda>(_, m). count_ones m) gs)"
  by (induction gs arbitrary: k) (auto simp: add.assoc)

lemma core_fields:
  assumes "off = length pre" and "core_ok c"
  shows "field_at off 4 (pre @ encode_core c @ post) = Some 0"
    and "field_at (off + 4) 4 (pre @ encode_core c @ post) = Some (length (encode_core c))"
    and "field_at (off + 8) 1 (pre @ encode_core c @ post) = Some (if core_has_smt c then 1 else 0)"
    and "field_at (off + 9) 1 (pre @ encode_core c @ post) = Some (unat (efficiency_class c))"
    and "field_at (off + 30) 2 (pre @ encode_core c @ post) = Some (length (group_masks c))"
proof -
  let ?n = "length (group_masks c)" and ?gs = "concat (map encode_group (group_masks c))"
  let ?smt = "if core_has_smt c then 1 else 0 :: nat" and ?eff = "unat (efficiency_class c)"
  have n: "?n < 65536" using assms(2) by (simp add: core_ok_def)
  show "field_at off 4 (pre @ encode_core c @ post) = Some 0"
    using field_at_le_bytes [OF assms(1), of 4 0] by (simp add: encode_core_def)
  show "field_at (off + 4) 4 (pre @ encode_core c @ post) = Some (length (encode_core c))"
    using field_at_le_bytes [of "off + 4" "pre @ le_bytes 4 0" 4 "32 + 16 * ?n"] n assms(1)
    by (simp add: encode_core_def)
  show "field_at (off + 8) 1 (pre @ encode_core c @ post) = Some ?smt"
    using field_at_le_bytes [of "off + 8" "pre @ le_bytes 4 0 @ le_bytes 4 (32 + 16 * ?n)" 1 ?smt] assms(1)
    by (simp add: encode_core_def)
  show "field_at (off + 9) 1 (pre @ encode_core c @ post) = Some ?eff"
    using field_at_le_bytes [of "off + 9" "pre @ le_bytes 4 0 @ le_bytes 4 (32 + 16 * ?n) @ le_bytes 1 ?smt" 1 ?eff]
      assms(1) unat_byte [of "efficiency_class c"]
    by (simp add: encode_core_def)
  show "field_at (off + 30) 2 (pre @ encode_core c @ post) = Some ?n"
    using field_at_le_bytes [of "off + 30" "pre @ le_bytes 4 0 @ le_bytes 4 (32 + 16 * ?n) @ le_bytes 1 ?smt @
        le_bytes 1 ?eff @ replicate 20 0" 2 ?n] n assms(1)
    by (simp add: encode_core_def)
qed

lemma read_core_encode:
  assumes "off = length pre" and "core_ok c"
  shows "read_core off (pre @ encode_core c @ post) = Some c"
proof -
  let ?n = "length (group_masks c)"
  have eq: "pre @ encode_core c @ post = (pre @ take 32 (encode_core c)) @ concat (map encode_group (group_masks c)) @ post"
    by (simp add: encode_core_def)
  have "read_groups (off + 32) ?n (pre @ encode_core c @ post) = Some (group_masks c)"
    by (subst eq, rule read_groups_encode) (simp add: assms(1))
  then show ?thesis
    using core_fields [OF assms, of post] assms(2) by (simp add: read_core_def fold_count core_ok_def)
qed

lemma parse_cores_encode:
  assumes "\<forall>c \<in> set cores. core_ok c" and "off = length pre"
  shows "parse_cores_from off (pre @ concat (map encode_core cores)) = Some cores"
  using assms
proof (induction cores arbitrary: off pre)
  case Nil
  then show ?case by (simp add: parse_cores_from.simps)
next
  case (Cons c cores)
  let ?post = "concat (map encode_core cores)"
  have ok: "core_ok c" using Cons.prems(1) by simp
  have "parse_cores_from (off + length (encode_core c)) ((pre @ encode_core c) @ ?post) = Some cores"
    using Cons.IH [of "off + length (encode_core c)" "pre @ encode_core c"] Cons.prems by simp
  then show ?case
    using core_fields(1,2) [OF Cons.prems(2) ok, of ?post] read_core_encode [OF Cons.prems(2) ok, of ?post] Cons.prems(2)
    by (subst parse_cores_from.simps) simp
qed

section \<open>Topology\<close>

lemma fold_max_class:
  "fold (\<lambda>c v. if efficiency_class c > v then efficiency_class c else v) cores v = fold max (map efficiency_class cores) v"
  by (induction cores arbitrary: v) (auto simp: max_def)

lemma fold_min_class:
  "fold (\<lambda>c v. if efficiency_class c < v then efficiency_class c else v) cores v = fold min (map efficiency_class cores) v"
  by (induction cores arbitrary: v) (auto simp: min_def not_less)

lemma fold_extremes:
  fixes xs :: "'a::linorder list"
  assumes "xs \<noteq> []"
  shows "\<forall>x \<in> set xs. v \<le> x \<Longrightarrow> fold max xs v = Max (set xs)"
    and "\<forall>x \<in> set xs. x \<le> v \<Longrightarrow> fold min xs v = Min (set xs)"
proof -
  have M: "fold max xs v = Max (insert v (set xs))" by (simp add: Max.set_eq_fold [symmetric] insert_commute)
  have m: "fold min xs v = Min (insert v (set xs))" by (simp add: Min.set_eq_fold [symmetric] insert_commute)
  show "\<forall>x \<in> set xs. v \<le> x \<Longrightarrow> fold max xs v = Max (set xs)"
    unfolding M using assms by (intro Max_eqI) (auto intro: order.trans [OF _ Max_ge] simp: Max_in)
  show "\<forall>x \<in> set xs. x \<le> v \<Longrightarrow> fold min xs v = Min (set xs)"
    unfolding m using assms by (intro Min_eqI) (auto intro: order.trans [OF Min_le] simp: Min_in)
qed

definition best_class :: "CoreDescriptor list \<Rightarrow> u8" where
  "best_class cores = Max (efficiency_class ` set cores)"

lemma class_extremes:
  assumes "cores \<noteq> []"
  shows "fold (\<lambda>c v. if efficiency_class c > v then efficiency_class c else v) cores 0 = best_class cores"
    and "fold (\<lambda>c v. if efficiency_class c < v then efficiency_class c else v) cores (- 1) = Min (efficiency_class ` set cores)"
  using fold_extremes(1) [of "map efficiency_class cores" 0] fold_extremes(2) [of "map efficiency_class cores" "- 1"] assms
  by (simp_all add: fold_max_class fold_min_class best_class_def)

lemma bit_group0_mask: "bit (group0_mask c v) i \<longleftrightarrow> bit v i \<or> (\<exists>(g, m) \<in> set (group_masks c). g = 0 \<and> bit m i)"
proof -
  have "bit (fold (\<lambda>(g, m) bits. if g = 0 then or bits m else bits) gs v) i \<longleftrightarrow>
      bit v i \<or> (\<exists>(g, m) \<in> set gs. g = (0 :: u16) \<and> bit (m :: u64) i)" for gs
    by (induction gs arbitrary: v) (auto simp: bit_or_iff split: if_splits)
  then show ?thesis by (simp add: group0_mask_def)
qed

lemma bit_fold_mask:
  "bit (fold group0_mask cs v) i \<longleftrightarrow> bit v i \<or> (\<exists>c \<in> set cs. \<exists>(g, m) \<in> set (group_masks c). g = 0 \<and> bit m i)"
  by (induction cs arbitrary: v) (auto simp: bit_group0_mask)

lemma hybrid_iff:
  assumes "cores \<noteq> []"
  shows "best_class cores > Min (efficiency_class ` set cores) \<longleftrightarrow> \<not> (\<forall>c \<in> set cores. efficiency_class c = best_class cores)"
proof -
  let ?S = "efficiency_class ` set cores"
  have fin: "finite ?S" "?S \<noteq> {}" using assms by simp_all
  have "Min ?S \<le> best_class cores" using fin by (simp add: best_class_def Min_le)
  moreover have "Min ?S = best_class cores \<longleftrightarrow> (\<forall>c \<in> set cores. efficiency_class c = best_class cores)"
  proof
    assume eq: "Min ?S = best_class cores"
    show "\<forall>c \<in> set cores. efficiency_class c = best_class cores"
    proof
      fix c assume "c \<in> set cores"
      then have "Min ?S \<le> efficiency_class c" "efficiency_class c \<le> best_class cores"
        using fin by (simp_all add: best_class_def)
      then show "efficiency_class c = best_class cores" using eq by simp
    qed
  next
    assume "\<forall>c \<in> set cores. efficiency_class c = best_class cores"
    then have "?S = {best_class cores}" using assms by (cases cores) auto
    then show "Min ?S = best_class cores" by simp
  qed
  ultimately show ?thesis by (simp add: less_le)
qed

lemma filter_split: "length (filter P xs) + length (filter (\<lambda>x. \<not> P x) xs) = length xs"
  by (induction xs) auto

section \<open>Properties\<close>

text \<open>
  C19: parsing is exact. The buffer made of the records of any core descriptors is walked to its end
  without a read outside of it, and gives the descriptors back, in order.
\<close>

theorem parse_cores_round_trip:
  assumes "\<forall>c \<in> set cores. core_ok c"
  shows "parse_processor_cores (concat (map encode_core cores)) = Some cores"
  using parse_cores_encode [OF assms, of 0 "[]"] by (simp add: parse_processor_cores_def)

theorem parse_cores_round_trip_witness:
  "let c = \<lparr>efficiency_class = 1, core_has_smt = True, logical_core_count = 2, group_masks = [(0, 3)]\<rparr>;
       d = \<lparr>efficiency_class = 0, core_has_smt = False, logical_core_count = 1, group_masks = [(0, 4)]\<rparr>
   in parse_processor_cores (encode_core c @ encode_core d) = Some [c, d]"
proof -
  have "[0..<64] = [0, 1, 2] @ [3..<64]" using upt_add_eq_append [of 0 3 61] by (simp add: upt_rec)
  moreover have "filter (bit (3 :: u64)) [3..<64] = []" "filter (bit (4 :: u64)) [3..<64] = []"
    by (auto simp: filter_empty_conv bit_numeral_rec numeral_eq_Suc not_less_eq Suc_le_eq elim!: less_natE)
  ultimately have "count_ones 3 = 2" "count_ones 4 = 1" by (simp_all add: count_ones_def bit_numeral_rec)
  then show ?thesis
    using parse_cores_round_trip [of "[\<lparr>efficiency_class = 1, core_has_smt = True, logical_core_count = 2, group_masks = [(0, 3)]\<rparr>,
        \<lparr>efficiency_class = 0, core_has_smt = False, logical_core_count = 1, group_masks = [(0, 4)]\<rparr>]"]
    by (simp add: core_ok_def)
qed

text \<open>
  C20: the topology is what the cores say. A processor is called hybrid exactly when its cores differ
  in efficiency class; then the performance cores are those of the highest class, the others are the
  efficient ones, and a bit of the affinity mask is set exactly when a performance core has that
  logical processor in group 0. A processor with one class gets no mask, and all its cores count as
  performance cores.
\<close>

theorem topology_exact:
  assumes "cores \<noteq> []" and "t = evaluate_topology cores"
  shows "(is_hybrid t \<longleftrightarrow> (\<exists>c \<in> set cores. efficiency_class c \<noteq> best_class cores)) \<and>
    performance_cores t = of_nat (length (filter (\<lambda>c. efficiency_class c = best_class cores) cores)) \<and>
    performance_cores t + efficient_cores t = physical_cores t \<and>
    (\<forall>i. (case topology_affinity_mask t of Some v \<Rightarrow> bit v i | None \<Rightarrow> False) \<longleftrightarrow>
       is_hybrid t \<and> (\<exists>c \<in> set cores. efficiency_class c = best_class cores \<and>
         (\<exists>(g, m) \<in> set (group_masks c). g = 0 \<and> bit m i)))"
proof -
  let ?best = "\<lambda>c. efficiency_class c = best_class cores"
  let ?v = "fold group0_mask (filter ?best cores) 0"
  have le: "c \<in> set cores \<Longrightarrow> efficiency_class c \<le> best_class cores" for c by (simp add: best_class_def)
  have less: "filter (\<lambda>c. efficiency_class c < best_class cores) cores = filter (\<lambda>c. \<not> ?best c) cores"
    using le by (intro filter_cong) (auto simp: less_le)
  have h: "is_hybrid t \<longleftrightarrow> \<not> (\<forall>c \<in> set cores. ?best c)"
    using assms hybrid_iff [OF assms(1)] class_extremes [OF assms(1)]
    by (simp add: evaluate_topology_def Let_def case_prod_beta)
  have mono: "filter ?best cores = cores" if "\<not> is_hybrid t" using that h by (simp add: filter_id_conv)
  have t: "physical_cores t = of_nat (length cores)"
    "performance_cores t = (if is_hybrid t then of_nat (length (filter ?best cores)) else of_nat (length cores))"
    "efficient_cores t = (if is_hybrid t then of_nat (length (filter (\<lambda>c. \<not> ?best c) cores)) else 0)"
    "topology_affinity_mask t = (if is_hybrid t \<and> ?v \<noteq> 0 then Some ?v else None)"
    using assms class_extremes [OF assms(1)] less by (simp_all add: evaluate_topology_def Let_def)
  have "performance_cores t + efficient_cores t = physical_cores t"
    using filter_split [of ?best cores] by (simp add: t(1,2,3) flip: of_nat_add)
  moreover have "(case topology_affinity_mask t of Some v \<Rightarrow> bit v i | None \<Rightarrow> False) \<longleftrightarrow> is_hybrid t \<and> bit ?v i" for i
    by (simp add: t(4))
  ultimately show ?thesis using h mono t(2) by (auto simp: bit_fold_mask)
qed

theorem topology_exact_witness:
  "is_hybrid (evaluate_topology
     [\<lparr>efficiency_class = 1, core_has_smt = True, logical_core_count = 2, group_masks = [(0, 3)]\<rparr>,
      \<lparr>efficiency_class = 0, core_has_smt = False, logical_core_count = 1, group_masks = [(0, 4)]\<rparr>])"
  using topology_exact [of "[\<lparr>efficiency_class = 1, core_has_smt = True, logical_core_count = 2, group_masks = [(0, 3)]\<rparr>,
      \<lparr>efficiency_class = 0, core_has_smt = False, logical_core_count = 1, group_masks = [(0, 4)]\<rparr>]", OF _ refl]
  by (simp add: best_class_def)

text \<open>
  the primary adapter. The adapter chosen is an active Ethernet or wireless one; an active
  Ethernet adapter is never passed over for a wireless one, nor a faster one for a slower of the
  same kind. There is none only when no such adapter is active.
\<close>

theorem primary_adapter_exact:
  assumes "detect_all hw w = Ok adapters"
  shows "case detect_primary hw w of
       Inr a \<Rightarrow> a \<in> set adapters \<and> is_active a \<and> (is_ethernet a \<or> is_wifi a) \<and>
         (\<forall>b \<in> set adapters. is_active b \<longrightarrow>
            (is_ethernet b \<longrightarrow> is_ethernet a) \<and>
            (is_ethernet a = is_ethernet b \<longrightarrow> link_speed_mbps b \<le> link_speed_mbps a))
     | Inl e \<Rightarrow> e = NoActiveAdapter \<and> \<not> (\<exists>a \<in> set adapters. is_active a)"
proof (cases "max_by_key adapter_rank (filter is_active adapters)")
  case None
  then have "filter is_active adapters = []" by simp
  then show ?thesis using assms by (auto simp: detect_primary_def filter_empty_conv max_by_key_def)
next
  case (Some a)
  have kinds: "is_ethernet b \<or> is_wifi b" if "b \<in> set adapters" for b
    using assms that by (auto simp: detect_all_def detect_windows_adapters_def Let_def case_prod_beta split: if_splits)
  have lt: "unat (link_speed_mbps b) < 2 ^ 64" for b using unsigned_less [of "link_speed_mbps b", where ?'a = nat] by simp
  have "(is_ethernet b \<longrightarrow> is_ethernet a) \<and> (is_ethernet a = is_ethernet b \<longrightarrow> link_speed_mbps b \<le> link_speed_mbps a)"
    if "adapter_rank b \<le> adapter_rank a" for b
    using that lt [of a] lt [of b] by (auto simp: adapter_rank_def word_le_nat_alt split: if_splits)
  then show ?thesis
    using max_by_key_Some [OF Some] kinds assms Some by (auto simp: detect_primary_def)
qed

theorem primary_adapter_exact_witness:
  "case detect_primary \<lparr>processor_info_size = (\<lambda>_. 0), processor_info = (\<lambda>_ _. None), adapters_addresses = (\<lambda>_ _. (0, 0,
       [\<lparr>entry_description = None, entry_friendly_name = Some ''Wi-Fi'', if_type = 71, oper_status = 1, transmit_link_speed = 9000000000, unicast_addresses = []\<rparr>,
        \<lparr>entry_description = None, entry_friendly_name = Some ''Ethernet'', if_type = 6, oper_status = 1, transmit_link_speed = 1000000000, unicast_addresses = []\<rparr>]))\<rparr> () of
     Inr a \<Rightarrow> is_ethernet a | Inl _ \<Rightarrow> False"
  using primary_adapter_exact [of "\<lparr>processor_info_size = (\<lambda>_. 0), processor_info = (\<lambda>_ _. None), adapters_addresses = (\<lambda>_ _. (0, 0,
       [\<lparr>entry_description = None, entry_friendly_name = Some ''Wi-Fi'', if_type = 71, oper_status = 1, transmit_link_speed = 9000000000, unicast_addresses = []\<rparr>,
        \<lparr>entry_description = None, entry_friendly_name = Some ''Ethernet'', if_type = 6, oper_status = 1, transmit_link_speed = 1000000000, unicast_addresses = []\<rparr>]))\<rparr>" "()"]
  by (force simp: detect_all_def detect_windows_adapters_def adapter_of_entry_def split: sum.splits)
text \<open>
  A record whose group count is larger than its size has room for is read beyond the end of the
  buffer.
\<close>

lemma group_count_unchecked:
  "parse_processor_cores ([0, 0, 0, 0, 48, 0, 0, 0] @ replicate 22 0 @ [2, 0] @ replicate 16 0) = None"
  by code_simp

end
