(* ===== verification/Vanguard.thy ===== *)
theory Vanguard
  imports Services Game_Mode
begin

text \<open>
  \<^verbatim>\<open>safety/vanguard_check.rs\<close> and \<^verbatim>\<open>hardware/security.rs\<close>: the anti-cheat prerequisites and the
  security state shown to the user. Both only read the system. The list of loaded drivers is
  what \<open>EnumDeviceDrivers\<close> reports; the program's buffer has room for the first 1024.
\<close>

section \<open>Compliance\<close>

record VanguardComplianceReport =
  vgc_service_running :: bool
  vgk_driver_loaded :: bool
  test_signing_disabled :: bool
  secure_boot_enabled :: bool
  vbs_hvci_intact :: bool
  is_compliant :: bool
  violations :: "string list"

datatype VanguardComplianceError = IntegrityCompromised nat string VanguardComplianceReport

definition is_vgc_running :: "'w win32 \<Rightarrow> 'w machine \<Rightarrow> bool" where
  "is_vgc_running os m \<longleftrightarrow>
     scm_open os (env m) \<and> service_open os ''vgc'' QUERY_STATUS (env m) \<and>
     service_status os ''vgc'' (env m) = Some SERVICE_RUNNING"

definition is_vgk_loaded :: "'w win32 \<Rightarrow> 'w machine \<Rightarrow> bool" where
  "is_vgk_loaded os m =
     (case driver_list os (env m) of
        None \<Rightarrow> False
      | Some drivers \<Rightarrow>
          list_ex (\<lambda>(base, name). base \<noteq> 0 \<and> length name > 0 \<and> eq_ignore_ascii_case name ''vgk.sys'')
            (take 1024 drivers))"

definition CONTROL_KEY :: string where
  "CONTROL_KEY = win ''SYSTEM/CurrentControlSet/Control''"

definition is_test_signing_disabled :: "'w win32 \<Rightarrow> 'w machine \<Rightarrow> bool \<times> string option" where
  "is_test_signing_disabled os m =
     (if reg_open os HKEY_LOCAL_MACHINE CONTROL_KEY KEY_READ (env m) = 0 then
        (case reg_get_sz os HKEY_LOCAL_MACHINE CONTROL_KEY ''SystemStartOptions'' 512 (env m) of
           Some (_, buf) \<Rightarrow>
             if length buf > 0 \<and> contains (to_uppercase (trim_matches (CHR 0x00) buf)) ''TESTSIGNING''
             then (False, Some ''Windows Test Signing (TESTSIGNING) is enabled in BCD'')
             else (True, None)
         | None \<Rightarrow> (True, None))
      else (True, None))"

text \<open>A DWORD value of a key that opens for reading.\<close>

definition read_dword :: "'w win32 \<Rightarrow> hive \<Rightarrow> string \<Rightarrow> string \<Rightarrow> 'w machine \<Rightarrow> u32 option" where
  "read_dword os h k n m =
     (if reg_open os h k KEY_READ (env m) = 0 then reg_get_dword os h k n (env m) else None)"

definition SECURE_BOOT_KEY :: string where
  "SECURE_BOOT_KEY = win ''SYSTEM/CurrentControlSet/Control/SecureBoot/State''"

definition DEVICE_GUARD_KEY :: string where
  "DEVICE_GUARD_KEY = win ''SYSTEM/CurrentControlSet/Control/DeviceGuard''"

definition HVCI_KEY :: string where
  "HVCI_KEY = win ''SYSTEM/CurrentControlSet/Control/DeviceGuard/Scenarios/HypervisorEnforcedCodeIntegrity''"

definition is_secure_boot_enabled :: "'w win32 \<Rightarrow> 'w machine \<Rightarrow> bool" where
  "is_secure_boot_enabled os m \<longleftrightarrow>
     read_dword os HKEY_LOCAL_MACHINE SECURE_BOOT_KEY ''UEFISecureBootEnabled'' m = Some 1"

definition is_vbs_hvci_intact :: "'w win32 \<Rightarrow> 'w machine \<Rightarrow> bool \<times> string option" where
  "is_vbs_hvci_intact os m =
     (if read_dword os HKEY_LOCAL_MACHINE DEVICE_GUARD_KEY ''EnableVirtualizationBasedSecurity'' m = Some 0
      then (False, Some ''Virtualization-Based Security (VBS) is explicitly disabled in registry'')
      else (True, None))"

definition check_vanguard :: "'w win32 \<Rightarrow> 'w machine \<Rightarrow> VanguardComplianceReport" where
  "check_vanguard os m =
     (let vgc_running = is_vgc_running os m;
          vgk_loaded = is_vgk_loaded os m;
          (test_signing_ok, test_signing_detail) = is_test_signing_disabled os m;
          secure_boot = is_secure_boot_enabled os m;
          (vbs_ok, vbs_detail) = is_vbs_hvci_intact os m;
          vs = (if \<not> vgc_running then [''Riot Vanguard service (vgc) is not running''] else []) @
               (if \<not> vgk_loaded then [''Riot Vanguard kernel driver (vgk.sys) is not loaded''] else []) @
               (if \<not> test_signing_ok
                then [opt_unwrap_or test_signing_detail
                        ''Windows Test Signing is enabled (prohibited by Vanguard)''] else []) @
               (if \<not> secure_boot
                then [''UEFI Secure Boot is disabled (required by Vanguard on Windows 11)''] else []) @
               (if \<not> vbs_ok
                then [opt_unwrap_or vbs_detail
                        ''VBS / HVCI (Memory Integrity) is disabled or compromised''] else [])
      in \<lparr>vgc_service_running = vgc_running, vgk_driver_loaded = vgk_loaded,
          test_signing_disabled = test_signing_ok, secure_boot_enabled = secure_boot,
          vbs_hvci_intact = vbs_ok, is_compliant = (vs = []), violations = vs\<rparr>)"

text \<open>\<open>join\<close> of the lines.\<close>

fun join_lines :: "string list \<Rightarrow> string" where
  "join_lines [] = []"
| "join_lines [s] = s"
| "join_lines (s # ss) = s @ [CHR 0x0A] @ join_lines ss"

definition ensure_compliant ::
  "'w win32 \<Rightarrow> bool \<Rightarrow> 'w machine \<Rightarrow> (VanguardComplianceError, VanguardComplianceReport) rust_result" where
  "ensure_compliant os allow_dev_override m =
     (let report = check_vanguard os m;
          bypass_env = (case env_var os ''VAL_OPT_BYPASS_VANGUARD_DEV'' (env m) of
                          Some v \<Rightarrow> v = ''1'' \<or> eq_ignore_ascii_case v ''true''
                        | None \<Rightarrow> False)
      in if \<not> is_compliant report then
           if allow_dev_override \<or> bypass_env then Ok report
           else Err (IntegrityCompromised (length (violations report))
                       (join_lines (map (\<lambda>v. ''  * '' @ v) (violations report))) report)
         else Ok report)"

section \<open>Security information\<close>

record SecurityInfo =
  info_vbs_enabled :: bool
  info_hvci_enabled :: bool
  info_secure_boot_enabled :: bool
  info_game_mode_enabled :: bool
  vanguard_installed :: bool
  vanguard_service_running :: bool

definition query_vbs_and_hvci :: "'w win32 \<Rightarrow> 'w machine \<Rightarrow> bool \<times> bool" where
  "query_vbs_and_hvci os m =
     (read_dword os HKEY_LOCAL_MACHINE DEVICE_GUARD_KEY ''EnableVirtualizationBasedSecurity'' m = Some 1,
      read_dword os HKEY_LOCAL_MACHINE HVCI_KEY ''Enabled'' m = Some 1)"

definition query_secure_boot :: "'w win32 \<Rightarrow> 'w machine \<Rightarrow> bool" where
  "query_secure_boot os m \<longleftrightarrow>
     read_dword os HKEY_LOCAL_MACHINE SECURE_BOOT_KEY ''UEFISecureBootEnabled'' m = Some 1"

definition query_game_mode :: "'w win32 \<Rightarrow> 'w machine \<Rightarrow> bool" where
  "query_game_mode os m =
     (case read_dword os HKEY_CURRENT_USER GAME_BAR_SUBKEY VALUE_ALLOW_AUTO_GAME_MODE m of
        Some val \<Rightarrow> val = 1
      | None \<Rightarrow> True)"

definition query_vanguard_status :: "'w win32 \<Rightarrow> 'w machine \<Rightarrow> bool \<times> bool" where
  "query_vanguard_status os m =
     (let prog_files = opt_unwrap_or (env_var os ''ProgramFiles'' (env m)) (win ''C:/Program Files'');
          vgk_path = path_join (path_join prog_files ''Riot Vanguard'') ''vgk.sys'';
          driver_installed = fs_exists os vgk_path m;
          service_running = (scm_open os (env m) \<and> service_open os ''vgc'' QUERY_STATUS (env m) \<and>
                             service_status os ''vgc'' (env m) = Some SERVICE_RUNNING)
      in (driver_installed \<or> service_running, service_running))"

definition detect_security :: "'w win32 \<Rightarrow> 'w machine \<Rightarrow> SecurityInfo" where
  "detect_security os m =
     (let (vbs, hvci) = query_vbs_and_hvci os m;
          secure_boot = query_secure_boot os m;
          game_mode = query_game_mode os m;
          (installed, running) = query_vanguard_status os m
      in \<lparr>info_vbs_enabled = vbs, info_hvci_enabled = hvci, info_secure_boot_enabled = secure_boot,
          info_game_mode_enabled = game_mode, vanguard_installed = installed,
          vanguard_service_running = running\<rparr>)"

section \<open>Exactness of the check\<close>

text \<open>The five requirements, as they are read.\<close>

definition requirements :: "'w win32 \<Rightarrow> 'w machine \<Rightarrow> bool list" where
  "requirements os m =
     [is_vgc_running os m, is_vgk_loaded os m, fst (is_test_signing_disabled os m),
      is_secure_boot_enabled os m, fst (is_vbs_hvci_intact os m)]"

lemma compliant_iff: "is_compliant (check_vanguard os m) \<longleftrightarrow> list_all id (requirements os m)"
  by (auto simp: check_vanguard_def requirements_def Let_def case_prod_beta)

lemma violations_count:
  "length (violations (check_vanguard os m)) = length (filter Not (requirements os m))"
  by (simp add: check_vanguard_def requirements_def Let_def case_prod_beta)

lemma compliant_no_violation: "is_compliant (check_vanguard os m) \<longleftrightarrow> violations (check_vanguard os m) = []"
  by (simp add: check_vanguard_def Let_def case_prod_beta)

section \<open>Properties\<close>


text \<open>
  the security view and the checks that act on it read the same state: Secure Boot and the
  Vanguard service agree always; the Game Mode shown agrees with the one the optimizer restores
  exactly when the stored value is absent, 0 or 1.
\<close>

theorem security_views_agree:
  "info_secure_boot_enabled (detect_security os m) = is_secure_boot_enabled os m \<and>
   vanguard_service_running (detect_security os m) = is_vgc_running os m \<and>
   (get_game_mode_state os m = Ok (info_game_mode_enabled (detect_security os m)) \<longleftrightarrow>
      (case read_dword os HKEY_CURRENT_USER GAME_BAR_SUBKEY VALUE_ALLOW_AUTO_GAME_MODE m of
         None \<Rightarrow> True | Some v \<Rightarrow> v = 0 \<or> v = 1))"
  by (auto simp: detect_security_def query_vbs_and_hvci_def query_vanguard_status_def query_secure_boot_def
      query_game_mode_def is_secure_boot_enabled_def is_vgc_running_def get_game_mode_state_def
      read_dword_def Let_def split: option.splits)

end
