(* ===== verification/System_Manifest.thy ===== *)
theory System_Manifest
  imports Host_Info Vanguard
begin

text \<open>
  \<^verbatim>\<open>hardware/gpu.rs\<close>, \<^verbatim>\<open>hardware/display.rs\<close>, \<^verbatim>\<open>hardware/memory.rs\<close>, the identification part of
  \<^verbatim>\<open>hardware/cpu.rs\<close>, \<^verbatim>\<open>models/system.rs\<close> and \<^verbatim>\<open>process/memory.rs\<close>: what the inspection of the host
  reports. The graphics, display and memory queries are the record \<open>devices\<close>; the text of a fixed
  buffer is the string of all its characters, terminators included.
\<close>

section \<open>The queries\<close>

record gpu_desc =
  desc_description :: string
  desc_vendor_id :: u32
  desc_device_id :: u32
  desc_dedicated_memory :: u64
  desc_flags :: u32

record display_device =
  dev_name :: string
  dev_state_flags :: u32

record devmode =
  dm_width :: u32
  dm_height :: u32
  dm_frequency :: u32
  dm_bits :: u32

record memory_status =
  total_phys :: u64
  avail_phys :: u64
  memory_load :: u32
  total_virtual :: u64
  avail_virtual :: u64

record memory_counters =
  WorkingSetSize :: u64
  PeakWorkingSetSize :: u64
  PagefileUsage :: u64
  PeakPagefileUsage :: u64

record system_time =
  st_year :: u16
  st_month :: u16
  st_day :: u16
  st_hour :: u16
  st_minute :: u16
  st_second :: u16
  st_milliseconds :: u16

record cpuid_result =
  eax :: u32
  ebx :: u32
  ecx :: u32
  edx :: u32

text \<open>
  \<open>dxgi_adapters\<close> lists the adapters \<^verbatim>\<open>EnumAdapters1\<close> gives for 0, 1, 2, ... until it first fails,
  each with the description \<^verbatim>\<open>GetDesc1\<close> has of it; \<open>display_devices\<close> likewise.
\<close>

record 'w devices =
  dxgi_factory :: "'w \<Rightarrow> bool"
  dxgi_adapters :: "'w \<Rightarrow> gpu_desc option list"
  display_devices :: "'w \<Rightarrow> display_device list"
  display_settings :: "string \<Rightarrow> 'w \<Rightarrow> devmode option"
  memory_status_ex :: "'w \<Rightarrow> memory_status option"
  process_memory :: "pid \<Rightarrow> 'w \<Rightarrow> memory_counters option"
  system_time_of :: "'w \<Rightarrow> system_time"
  cpuid :: "u32 \<Rightarrow> u32 \<Rightarrow> cpuid_result"

section \<open>Graphics adapters\<close>

record GpuInfo =
  gpu_name :: string
  gpu_vendor :: string
  vendor_id :: u32
  device_id :: u32
  dedicated_vram_mb :: u64
  driver_version :: "string option"
  gpu_is_primary :: bool

datatype gpu_error = DxgiFactoryFailed | NoHardwareAdapters | NoDisplayAdapter

definition DISPLAY_CLASS_KEY :: string where
  "DISPLAY_CLASS_KEY = win ''SYSTEM/CurrentControlSet/Control/Class/{4d36e968-e325-11ce-bfc1-08002be10318}''"

definition vendor_name :: "u32 \<Rightarrow> string" where
  "vendor_name v =
     (if v = 0x1002 then ''AMD'' else if v = 0x10DE then ''NVIDIA'' else if v = 0x8086 then ''Intel''
      else if v = 0x1414 then ''Microsoft'' else ''Unknown'')"

text \<open>The version under one subkey, if its description matches; the buffer holds 256 characters.\<close>

definition adapter_key_version :: "'w win32 \<Rightarrow> string \<Rightarrow> string \<Rightarrow> 'w machine \<Rightarrow> string option" where
  "adapter_key_version os name subkey m =
     (let key = path_join DISPLAY_CLASS_KEY subkey
      in if reg_open os HKEY_LOCAL_MACHINE key KEY_READ (env m) \<noteq> 0 then None
         else
           let matched = (case reg_get_sz os HKEY_LOCAL_MACHINE key ''DriverDesc'' 256 (env m) of
                            Some (_, raw) \<Rightarrow>
                              let installed_name = trim_matches (CHR 0x00) raw
                              in contains installed_name name \<or> contains name installed_name
                          | None \<Rightarrow> False)
           in if matched then
                map_option (\<lambda>(_, raw). trim (trim_matches (CHR 0x00) raw))
                  (reg_get_sz os HKEY_LOCAL_MACHINE key ''DriverVersion'' 256 (env m))
              else None)"

fun first_version :: "(string \<Rightarrow> string option) \<Rightarrow> string list \<Rightarrow> string option" where
  "first_version f [] = None"
| "first_version f (k # ks) = (case f k of Some v \<Rightarrow> Some v | None \<Rightarrow> first_version f ks)"

definition query_driver_version :: "'w win32 \<Rightarrow> string \<Rightarrow> 'w machine \<Rightarrow> string option" where
  "query_driver_version os name m =
     (if reg_open os HKEY_LOCAL_MACHINE DISPLAY_CLASS_KEY KEY_READ (env m) \<noteq> 0 then None
      else first_version (\<lambda>k. adapter_key_version os name k m) (reg_subkeys os HKEY_LOCAL_MACHINE DISPLAY_CLASS_KEY (env m)))"

definition gpu_of_desc :: "'w win32 \<Rightarrow> 'w machine \<Rightarrow> nat \<Rightarrow> gpu_desc \<Rightarrow> GpuInfo" where
  "gpu_of_desc os m index desc =
     (let name = trim (trim_matches (CHR 0x00) (desc_description desc))
      in \<lparr>gpu_name = name, gpu_vendor = vendor_name (desc_vendor_id desc), vendor_id = desc_vendor_id desc,
          device_id = desc_device_id desc, dedicated_vram_mb = desc_dedicated_memory desc div (1024 * 1024),
          driver_version = query_driver_version os name m, gpu_is_primary = (index = 0)\<rparr>)"

fun enum_gpus :: "'w win32 \<Rightarrow> 'w machine \<Rightarrow> nat \<Rightarrow> gpu_desc option list \<Rightarrow> GpuInfo list" where
  "enum_gpus os m index [] = []"
| "enum_gpus os m index (None # ds) = enum_gpus os m (index + 1) ds"
| "enum_gpus os m index (Some desc # ds) =
     (if and (desc_flags desc) 2 \<noteq> 0 then enum_gpus os m (index + 1) ds
      else gpu_of_desc os m index desc # enum_gpus os m (index + 1) ds)"

definition detect_gpus :: "'w devices \<Rightarrow> 'w win32 \<Rightarrow> 'w machine \<Rightarrow> (gpu_error, GpuInfo list) rust_result" where
  "detect_gpus dv os m =
     (if \<not> dxgi_factory dv (env m) then Err DxgiFactoryFailed
      else let adapters = enum_gpus os m 0 (dxgi_adapters dv (env m))
           in if adapters = [] then Err NoHardwareAdapters else Ok adapters)"

definition detect_primary_gpu :: "'w devices \<Rightarrow> 'w win32 \<Rightarrow> 'w machine \<Rightarrow> (gpu_error, GpuInfo) rust_result" where
  "detect_primary_gpu dv os m =
     (case detect_gpus dv os m of
        Inl e \<Rightarrow> Err e
      | Inr gpus \<Rightarrow> (case max_by_key dedicated_vram_mb gpus of Some g \<Rightarrow> Ok g | None \<Rightarrow> Err NoDisplayAdapter))"

section \<open>Displays\<close>

record DisplayInfo =
  display_name :: string
  display_width :: u32
  display_height :: u32
  refresh_rate_hz :: u32
  bits_per_pixel :: u32
  display_is_primary :: bool

datatype display_error = NoAttachedDisplay | NoPrimaryDisplay

fun enum_displays :: "(string \<Rightarrow> devmode option) \<Rightarrow> display_device list \<Rightarrow> DisplayInfo list" where
  "enum_displays settings [] = []"
| "enum_displays settings (d # ds) =
     (if and (dev_state_flags d) 1 \<noteq> 0 then
        case settings (dev_name d) of
          Some dm \<Rightarrow>
            \<lparr>display_name = trim (trim_matches (CHR 0x00) (dev_name d)), display_width = dm_width dm,
             display_height = dm_height dm, refresh_rate_hz = dm_frequency dm, bits_per_pixel = dm_bits dm,
             display_is_primary = (and (dev_state_flags d) 4 \<noteq> 0)\<rparr> # enum_displays settings ds
        | None \<Rightarrow> enum_displays settings ds
      else enum_displays settings ds)"

definition detect_displays :: "'w devices \<Rightarrow> 'w \<Rightarrow> (display_error, DisplayInfo list) rust_result" where
  "detect_displays dv w =
     (let displays = enum_displays (\<lambda>n. display_settings dv n w) (display_devices dv w)
      in if displays = [] then Err NoAttachedDisplay else Ok displays)"

definition detect_primary_display :: "'w devices \<Rightarrow> 'w \<Rightarrow> (display_error, DisplayInfo) rust_result" where
  "detect_primary_display dv w =
     (case detect_displays dv w of
        Inl e \<Rightarrow> Err e
      | Inr displays \<Rightarrow>
          (case find display_is_primary displays of Some d \<Rightarrow> Ok d | None \<Rightarrow> Err NoPrimaryDisplay))"

section \<open>Memory\<close>

record MemoryInfo =
  total_physical_mb :: u64
  available_physical_mb :: u64
  memory_load_percent :: u32
  total_virtual_mb :: u64
  available_virtual_mb :: u64

definition detect_memory :: "'w devices \<Rightarrow> 'w \<Rightarrow> MemoryInfo option" where
  "detect_memory dv w =
     (case memory_status_ex dv w of
        None \<Rightarrow> None
      | Some st \<Rightarrow>
          let mb = 1024 * 1024
          in Some \<lparr>total_physical_mb = total_phys st div mb, available_physical_mb = avail_phys st div mb,
                   memory_load_percent = memory_load st, total_virtual_mb = total_virtual st div mb,
                   available_virtual_mb = avail_virtual st div mb\<rparr>)"

record ProcessMemorySnapshot =
  snapshot_pid :: pid
  working_set_bytes :: u64
  peak_working_set_bytes :: u64
  pagefile_usage_bytes :: u64
  peak_pagefile_usage_bytes :: u64

datatype memory_error = MemoryOpenFailed pid | MemoryInfoFailed pid

definition query_process_memory_info ::
  "'w devices \<Rightarrow> 'w win32 \<Rightarrow> pid \<Rightarrow> 'w machine \<Rightarrow> (memory_error, ProcessMemorySnapshot) rust_result" where
  "query_process_memory_info dv os p m =
     (if \<not> process_open os PROCESS_QUERY p (env m) then Err (MemoryOpenFailed p)
      else case process_memory dv p (env m) of
             None \<Rightarrow> Err (MemoryInfoFailed p)
           | Some c \<Rightarrow>
               Ok \<lparr>snapshot_pid = p, working_set_bytes = WorkingSetSize c,
                   peak_working_set_bytes = PeakWorkingSetSize c, pagefile_usage_bytes = PagefileUsage c,
                   peak_pagefile_usage_bytes = PeakPagefileUsage c\<rparr>)"

definition query_current_process_memory ::
  "'w devices \<Rightarrow> 'w win32 \<Rightarrow> 'w machine \<Rightarrow> (memory_error, ProcessMemorySnapshot) rust_result" where
  "query_current_process_memory dv os m = query_process_memory_info dv os (own_pid os) m"

section \<open>Processor identification\<close>

record CpuFeatures =
  sse :: bool
  sse2 :: bool
  avx :: bool
  avx2 :: bool
  fma :: bool

definition reg_bytes :: "u32 \<Rightarrow> bytes" where
  "reg_bytes r = le_bytes 4 (unat r)"

definition cpu_features :: "'w devices \<Rightarrow> CpuFeatures" where
  "cpu_features dv =
     (let id1 = cpuid dv 1 0; id7 = cpuid dv 7 0
      in \<lparr>sse = (and (edx id1) (push_bit 25 1) \<noteq> 0), sse2 = (and (edx id1) (push_bit 26 1) \<noteq> 0),
          avx = (and (ecx id1) (push_bit 28 1) \<noteq> 0), avx2 = (and (ebx id7) (push_bit 5 1) \<noteq> 0),
          fma = (and (ecx id1) (push_bit 12 1) \<noteq> 0)\<rparr>)"

definition brand_bytes :: "'w devices \<Rightarrow> bytes" where
  "brand_bytes dv =
     concat (map (\<lambda>i. let id = cpuid dv (0x80000002 + of_nat i) 0
                      in reg_bytes (eax id) @ reg_bytes (ebx id) @ reg_bytes (ecx id) @ reg_bytes (edx id)) [0..<3])"

definition detect_cpuid_info :: "'w devices \<Rightarrow> string \<times> string \<times> CpuFeatures" where
  "detect_cpuid_info dv =
     (let id0 = cpuid dv 0 0;
          vendor = ascii_string (reg_bytes (ebx id0) @ reg_bytes (edx id0) @ reg_bytes (ecx id0));
          features = cpu_features dv;
          ext_max = eax (cpuid dv 0x80000000 0);
          brand = (if 0x80000004 \<le> ext_max then trim (trim_matches (CHR 0x00) (ascii_string (brand_bytes dv)))
                   else ''Unknown x86_64 Processor'')
      in (brand, vendor, features))"

record CpuInfo =
  cpu_brand :: string
  cpu_vendor :: string
  cpu_physical_cores :: u32
  cpu_logical_cores :: u32
  cpu_has_smt :: bool
  cpu_is_hybrid :: bool
  cpu_performance_cores :: u32
  cpu_efficient_cores :: u32
  cpu_affinity_mask :: "u64 option"
  cpu_feature_flags :: CpuFeatures

text \<open>The outer \<open>None\<close> is a read outside the buffer of processor records.\<close>

definition detect_cpu :: "'w hardware \<Rightarrow> 'w devices \<Rightarrow> 'w \<Rightarrow> (topology_error, CpuInfo) rust_result option" where
  "detect_cpu hw dv w =
     (let (brand, vendor, features) = detect_cpuid_info dv
      in case detect_processor_topology hw w of
           None \<Rightarrow> None
         | Some (Inl e) \<Rightarrow> Some (Err e)
         | Some (Inr topology) \<Rightarrow>
             Some (Ok \<lparr>cpu_brand = brand, cpu_vendor = vendor, cpu_physical_cores = physical_cores topology,
                       cpu_logical_cores = logical_cores topology, cpu_has_smt = has_smt topology,
                       cpu_is_hybrid = is_hybrid topology, cpu_performance_cores = performance_cores topology,
                       cpu_efficient_cores = efficient_cores topology,
                       cpu_affinity_mask = topology_affinity_mask topology, cpu_feature_flags = features\<rparr>))"

section \<open>The manifest\<close>

text \<open>A number in at least \<open>n\<close> digits, zeros in front.\<close>

definition dec_padded :: "nat \<Rightarrow> nat \<Rightarrow> string" where
  "dec_padded n v = (let s = dec_string v in replicate (n - length s) (CHR ''0'') @ s)"

definition chrono_now_iso :: "'w devices \<Rightarrow> 'w \<Rightarrow> string" where
  "chrono_now_iso dv w =
     (let st = system_time_of dv w
      in dec_padded 4 (unat (st_year st)) @ ''-'' @ dec_padded 2 (unat (st_month st)) @ ''-'' @
         dec_padded 2 (unat (st_day st)) @ ''T'' @ dec_padded 2 (unat (st_hour st)) @ '':'' @
         dec_padded 2 (unat (st_minute st)) @ '':'' @ dec_padded 2 (unat (st_second st)) @ ''.'' @
         dec_padded 3 (unat (st_milliseconds st)) @ ''Z'')"

datatype manifest_error =
    CpuFailed topology_error | GpuFailed gpu_error | DisplayFailed display_error | MemoryFailed | NetworkFailed adapter_error

record FullSystemManifest =
  timestamp_utc :: string
  os_name :: string
  manifest_cpu :: CpuInfo
  primary_gpu :: GpuInfo
  all_gpus :: "GpuInfo list"
  primary_display :: DisplayInfo
  all_displays :: "DisplayInfo list"
  manifest_memory :: MemoryInfo
  primary_network :: NetworkAdapterInfo
  all_networks :: "NetworkAdapterInfo list"
  manifest_security :: SecurityInfo

definition inspect ::
  "'w hardware \<Rightarrow> 'w devices \<Rightarrow> 'w win32 \<Rightarrow> 'w machine \<Rightarrow> (manifest_error, FullSystemManifest) rust_result option" where
  "inspect hw dv os m =
     (case detect_cpu hw dv (env m) of
        None \<Rightarrow> None
      | Some (Inl e) \<Rightarrow> Some (Err (CpuFailed e))
      | Some (Inr cpu) \<Rightarrow>
     (case detect_gpus dv os m of
        Inl e \<Rightarrow> Some (Err (GpuFailed e))
      | Inr gpus \<Rightarrow>
     (case detect_primary_gpu dv os m of
        Inl e \<Rightarrow> Some (Err (GpuFailed e))
      | Inr gpu \<Rightarrow>
     (case detect_displays dv (env m) of
        Inl e \<Rightarrow> Some (Err (DisplayFailed e))
      | Inr displays \<Rightarrow>
     (case detect_primary_display dv (env m) of
        Inl e \<Rightarrow> Some (Err (DisplayFailed e))
      | Inr display \<Rightarrow>
     (case detect_memory dv (env m) of
        None \<Rightarrow> Some (Err MemoryFailed)
      | Some memory \<Rightarrow>
     (case detect_all hw (env m) of
        Inl e \<Rightarrow> Some (Err (NetworkFailed e))
      | Inr networks \<Rightarrow>
     (case detect_primary hw (env m) of
        Inl e \<Rightarrow> Some (Err (NetworkFailed e))
      | Inr network \<Rightarrow>
          Some (Ok \<lparr>timestamp_utc = chrono_now_iso dv (env m), os_name = ''Windows 11'', manifest_cpu = cpu,
            primary_gpu = gpu, all_gpus = gpus, primary_display = display, all_displays = displays,
            manifest_memory = memory, primary_network = network, all_networks = networks,
            manifest_security = detect_security os m\<rparr>)))))))))"

section \<open>Lemmas\<close>

lemma enum_gpus_hardware:
  "g \<in> set (enum_gpus os m i ds) \<Longrightarrow>
     \<exists>k d. Some d \<in> set ds \<and> and (desc_flags d) 2 = 0 \<and> g = gpu_of_desc os m k d"
  by (induction os m i ds rule: enum_gpus.induct) (auto split: if_splits)

lemma enum_gpus_Nil: "enum_gpus os m i ds = [] \<longleftrightarrow> (\<forall>d. Some d \<in> set ds \<longrightarrow> and (desc_flags d) 2 \<noteq> 0)"
  by (induction os m i ds rule: enum_gpus.induct) auto

lemma primary_gpu_exact:
  assumes "detect_gpus dv os m = Inr gpus"
  shows "\<exists>g. detect_primary_gpu dv os m = Inr g \<and> g \<in> set gpus \<and> (\<forall>h \<in> set gpus. dedicated_vram_mb h \<le> dedicated_vram_mb g)"
proof -
  have "gpus \<noteq> []" using assms by (auto simp: detect_gpus_def Let_def split: if_splits)
  then obtain g where g: "max_by_key dedicated_vram_mb gpus = Some g" by (metis max_by_key_None not_None_eq)
  then show ?thesis using assms max_by_key_Some [OF g] by (auto simp: detect_primary_gpu_def)
qed

lemma primary_display_exact:
  assumes "detect_displays dv w = Inr ds"
  shows "(\<exists>d \<in> set ds. display_is_primary d) \<longleftrightarrow> (\<exists>d. detect_primary_display dv w = Inr d)"
    and "detect_primary_display dv w = Inr d \<Longrightarrow> d \<in> set ds \<and> display_is_primary d"
  using assms by (auto simp: detect_primary_display_def find_None_iff find_Some_iff split: option.splits)

lemma primary_network_active:
  assumes "detect_all hw w = Inr as"
  shows "(\<exists>a \<in> set as. is_active a) \<longleftrightarrow> (\<exists>a. detect_primary hw w = Inr a)"
    and "detect_primary hw w = Inr a \<Longrightarrow> a \<in> set as \<and> is_active a"
proof -
  let ?k = "max_by_key adapter_rank (filter is_active as)"
  have some: "a \<in> set as \<and> is_active a" if "?k = Some a" for a using max_by_key_Some [OF that] by simp
  have none: "?k = None \<longleftrightarrow> \<not> (\<exists>a \<in> set as. is_active a)" by (simp add: filter_empty_conv)
  show "(\<exists>a \<in> set as. is_active a) \<longleftrightarrow> (\<exists>a. detect_primary hw w = Inr a)"
    using assms none by (cases ?k) (auto simp: detect_primary_def simp del: max_by_key_None)
  show "detect_primary hw w = Inr a \<Longrightarrow> a \<in> set as \<and> is_active a"
  proof -
    assume "detect_primary hw w = Inr a"
    then have "?k = Some a" using assms by (simp add: detect_primary_def split: option.splits)
    then show ?thesis by (rule some)
  qed
qed

lemma cpu_detected:
  "(\<exists>c. detect_cpu hw dv w = Some (Inr c)) \<longleftrightarrow> (\<exists>t. detect_processor_topology hw w = Some (Inr t))"
  by (auto simp: detect_cpu_def Let_def case_prod_beta split: option.splits sum.splits)

lemma inspect_parts:
  "inspect hw dv os m = Some (Inr M) \<longleftrightarrow>
     (\<exists>cpu gpus gpu displays display memory networks network.
        detect_cpu hw dv (env m) = Some (Inr cpu) \<and> detect_gpus dv os m = Inr gpus \<and> detect_primary_gpu dv os m = Inr gpu \<and>
        detect_displays dv (env m) = Inr displays \<and> detect_primary_display dv (env m) = Inr display \<and>
        detect_memory dv (env m) = Some memory \<and> detect_all hw (env m) = Inr networks \<and>
        detect_primary hw (env m) = Inr network \<and>
        M = \<lparr>timestamp_utc = chrono_now_iso dv (env m), os_name = ''Windows 11'', manifest_cpu = cpu,
             primary_gpu = gpu, all_gpus = gpus, primary_display = display, all_displays = displays,
             manifest_memory = memory, primary_network = network, all_networks = networks,
             manifest_security = detect_security os m\<rparr>)"
  by (auto simp: inspect_def split: option.splits sum.splits)

lemma parts_detected:
  "(\<exists>gpus. detect_gpus dv os m = Inr gpus) \<longleftrightarrow>
     dxgi_factory dv (env m) \<and> (\<exists>d. Some d \<in> set (dxgi_adapters dv (env m)) \<and> and (desc_flags d) 2 = 0)"
  "(\<exists>ds. detect_displays dv w = Inr ds \<and> (\<exists>d \<in> set ds. display_is_primary d)) \<longleftrightarrow>
     (\<exists>d \<in> set (enum_displays (\<lambda>n. display_settings dv n w) (display_devices dv w)). display_is_primary d)"
  "(\<exists>x. detect_memory dv w = Some x) \<longleftrightarrow> memory_status_ex dv w \<noteq> None"
  by (auto simp: detect_gpus_def enum_gpus_Nil detect_displays_def detect_memory_def Let_def split: option.split)

text \<open>
  A driver key with an empty description matches every graphics adapter, since every name contains
  the empty text: the version found first need not be of the adapter's driver.
\<close>

lemma empty_description_matches:
  assumes "reg_open os HKEY_LOCAL_MACHINE (path_join DISPLAY_CLASS_KEY k) KEY_READ (env m) = 0"
    and "reg_get_sz os HKEY_LOCAL_MACHINE (path_join DISPLAY_CLASS_KEY k) ''DriverDesc'' 256 (env m) = Some (1, [CHR 0x00])"
    and "reg_get_sz os HKEY_LOCAL_MACHINE (path_join DISPLAY_CLASS_KEY k) ''DriverVersion'' 256 (env m) = Some (1, v @ [CHR 0x00])"
  shows "adapter_key_version os name k m = Some (trim (trim_matches (CHR 0x00) (v @ [CHR 0x00])))"
  using assms by (simp add: adapter_key_version_def trim_both_def)

section \<open>Properties\<close>


definition demo_devices :: "world devices" where
  "demo_devices =
     \<lparr>dxgi_factory = (\<lambda>w. True),
      dxgi_adapters = (\<lambda>w.
        [Some \<lparr>desc_description = ''Basic Render'', desc_vendor_id = 0x1414, desc_device_id = 0x8c, desc_dedicated_memory = 0, desc_flags = 2\<rparr>,
         None,
         Some \<lparr>desc_description = ''GeForce'', desc_vendor_id = 0x10DE, desc_device_id = 1, desc_dedicated_memory = 0x200000000, desc_flags = 0\<rparr>]),
      display_devices = (\<lambda>w. [\<lparr>dev_name = ''D1'', dev_state_flags = 5\<rparr>]),
      display_settings = (\<lambda>n w. Some \<lparr>dm_width = 1920, dm_height = 1080, dm_frequency = 240, dm_bits = 32\<rparr>),
      memory_status_ex = (\<lambda>w. Some \<lparr>total_phys = 0x400000000, avail_phys = 0x100000000, memory_load = 75,
        total_virtual = 0x800000000, avail_virtual = 0x400000000\<rparr>),
      process_memory = (\<lambda>p w. None),
      system_time_of = (\<lambda>w. \<lparr>st_year = 2025, st_month = 1, st_day = 2, st_hour = 3, st_minute = 4, st_second = 5, st_milliseconds = 6\<rparr>),
      cpuid = (\<lambda>l s. \<lparr>eax = 0, ebx = 0, ecx = 0, edx = 0\<rparr>)\<rparr>"

definition demo_hardware :: "world hardware" where
  "demo_hardware =
     \<lparr>processor_info_size = (\<lambda>_. 48), processor_info = (\<lambda>_ _. Some []),
      adapters_addresses = (\<lambda>_ _. (0, 0,
        [\<lparr>entry_description = None, entry_friendly_name = Some ''Ethernet'', if_type = 6, oper_status = 1,
          transmit_link_speed = 1000000000, unicast_addresses = []\<rparr>]))\<rparr>"


end
