(* ===== verification/Ipc_Server.thy ===== *)
theory Ipc_Server
  imports Bufferbloat Crash_Recovery Launcher System_Manifest
begin

text \<open>
  \<^verbatim>\<open>ipc/mod.rs\<close>, \<^verbatim>\<open>ipc_server.rs\<close> and the daemon's \<^verbatim>\<open>main.rs\<close>: the requests of the named pipe, who may
  make them, what each of them does, and the server loop.

  The daemon's state is the machine, the stop signals of the supervising threads it has started and
  the one signal it holds on to. A request that panics aborts the process (the release profile sets
  \<^verbatim>\<open>panic = "abort"\<close>): the handler then gives \<open>None\<close>. The serializer, the queries of the host and the
  conversion of a floating-point duration are parameters, collected in the record \<open>ipc_env\<close>; \<open>ie_echo\<close>
  is the address of the local echo server a bufferbloat test starts, if it could be bound.
\<close>

section \<open>Messages\<close>

datatype 'f IpcRequest =
    Ping
  | GetStatus
  | InspectSystem
  | ApplyOptimizations
  | RollbackOptimizations
  | TrimWorkingSet
  | PurgeBloatware
  | GetLatencyReport 'f
  | RunBufferbloatTest
  | LaunchOptimizedGame bool
  | ShutdownDaemon

text \<open>The message of an error, by what it is formatted from.\<close>

datatype decode_error = Utf8Error | DeserializationError string

datatype ipc_cause =
    AdministratorNeeded
  | FeatureRemoved
  | InspectCause manifest_error
  | CoordinatorCause coordinator_error
  | RecoveryCause recovery_error
  | PurgeCause terminator_error
  | BufferbloatCause bufferbloat_error
  | VanguardCause VanguardComplianceError
  | LaunchCause ValorantLaunchError
  | DecodeCause decode_error

datatype rollback_message = RolledBack nat nat nat | NothingToRollBack

datatype 'f IpcResponse =
    Pong
  | Status string bool bool string
  | SystemManifest FullSystemManifest
  | OptimizationSuccess string bool string nat nat bool
  | RollbackSuccess rollback_message
  | BloatwarePurged nat
  | LatencyReportResponse "'f LatencyReport"
  | BufferbloatReportResponse "'f BufferbloatReport"
  | GameLaunchAcknowledged launch_status
  | IpcError string ipc_cause

record ('w, 'f) ipc_env =
  ie_os :: "'w win32"
  ie_db :: ProcessSafetyDb
  ie_tx :: tx_json
  ie_snap :: snap_codec
  ie_installs :: installs_json
  ie_hw :: "'w hardware"
  ie_zero :: 'f
  ie_quot :: "u64 \<Rightarrow> u64 \<Rightarrow> 'f"
  ie_values :: "(string \<rightharpoonup> 'f DriverLatencyStat) \<Rightarrow> 'f DriverLatencyStat list"
  ie_from_secs :: "'f \<Rightarrow> nat option"
  ie_events :: "'w \<Rightarrow> event_record list"
  ie_devices :: "'w devices"
  ie_f64 :: "'f f64_lib"
  ie_udp :: "'w udp"
  ie_echo :: "'w \<Rightarrow> string option"
  ie_version :: string
  ie_encode :: "'f IpcResponse \<Rightarrow> bytes option"
  ie_decode :: "string \<Rightarrow> 'f IpcRequest option"

definition encode_message :: "('a \<Rightarrow> bytes option) \<Rightarrow> 'a \<Rightarrow> bytes option" where
  "encode_message to_vec message = map_option (\<lambda>json. json @ [10]) (to_vec message)"

definition decode_message :: "(string \<Rightarrow> 'a option) \<Rightarrow> bytes \<Rightarrow> (decode_error, 'a) rust_result" where
  "decode_message from_str bs =
     (if \<not> utf8_valid bs then Err Utf8Error
      else let trimmed = trim (ascii_string bs)
           in case from_str trimmed of
                Some x \<Rightarrow> Ok x
              | None \<Rightarrow> Err (DeserializationError trimmed))"

section \<open>The handler\<close>

record 'w daemon =
  machine_of :: "'w machine"
  stop_signals :: "bool list"
  active_stop :: "nat option"
  supervisors :: "(GameSupervisorConfig \<times> TerminatedAppBackup list \<times> nat) list"

definition is_privileged :: "'f IpcRequest \<Rightarrow> bool" where
  "is_privileged r \<longleftrightarrow>
     (case r of ApplyOptimizations \<Rightarrow> True | RollbackOptimizations \<Rightarrow> True | PurgeBloatware \<Rightarrow> True
      | ShutdownDaemon \<Rightarrow> True | TrimWorkingSet \<Rightarrow> True | _ \<Rightarrow> False)"

text \<open>\<^verbatim>\<open>lock.take()\<close> and the store into the signal that was held.\<close>

definition signal_active :: "'w daemon \<Rightarrow> 'w daemon" where
  "signal_active d =
     (case active_stop d of
        None \<Rightarrow> d
      | Some i \<Rightarrow> d\<lparr>active_stop := None, stop_signals := (stop_signals d)[i := True]\<rparr>)"

text \<open>A call of one of the components on the daemon's machine.\<close>

definition on_machine :: "('w machine \<Rightarrow> 'r \<times> 'w machine) \<Rightarrow> 'w daemon \<Rightarrow> 'r \<times> 'w daemon" where
  "on_machine f d = (let (r, m) = f (machine_of d) in (r, d\<lparr>machine_of := m\<rparr>))"

definition get_status :: "('w, 'f) ipc_env \<Rightarrow> 'w machine \<Rightarrow> 'f IpcResponse" where
  "get_status E m =
     (let name = (case detect_primary (ie_hw E) (env m) of Inr a \<Rightarrow> adapter_name a | Inl _ \<Rightarrow> ''Unknown'');
          game = (find_process_with_path (ie_os E) VALORANT_BINARY_NAME m \<noteq> None)
      in Status (ie_version E) game True (''Competitive Extreme ('' @ name @ '')''))"

definition inspect_request :: "('w, 'f) ipc_env \<Rightarrow> 'w machine \<Rightarrow> 'f IpcResponse option" where
  "inspect_request E m =
     (case inspect (ie_hw E) (ie_devices E) (ie_os E) m of
        None \<Rightarrow> None
      | Some (Inr manifest) \<Rightarrow> Some (SystemManifest manifest)
      | Some (Inl e) \<Rightarrow> Some (IpcError ''INSPECT_FAILED'' (InspectCause e)))"

definition bufferbloat_request ::
  "('w, 'f::{plus,minus,uminus,times,inverse,abs,ord}) ipc_env \<Rightarrow> 'w daemon \<Rightarrow> ('f IpcResponse \<times> 'w daemon) option" where
  "bufferbloat_request E d =
     (case run_isolated_test (ie_f64 E) (ie_os E) (ie_udp E) (ie_echo E (env (machine_of d))) (machine_of d) of
        None \<Rightarrow> None
      | Some (Inr report, m) \<Rightarrow> Some (BufferbloatReportResponse report, d\<lparr>machine_of := m\<rparr>)
      | Some (Inl e, m) \<Rightarrow> Some (IpcError ''BUFFERBLOAT_FAILED'' (BufferbloatCause e), d\<lparr>machine_of := m\<rparr>))"

definition apply_request :: "('w, 'f) ipc_env \<Rightarrow> 'w daemon \<Rightarrow> 'f IpcResponse \<times> 'w daemon" where
  "apply_request E d =
     (case on_machine (apply_optimizations (ie_os E) (ie_tx E)) d of
        (Inr tx, d) \<Rightarrow>
          (OptimizationSuccess (tx_transaction_id tx) (opt_unwrap_or (tx_previous_game_mode tx) True)
             ''Gaming Optimized'' (length (tx_previous_audio_endpoints tx))
             (length (tx_previous_adapter_properties tx)) (tx_previous_qos_policy tx \<noteq> None), d)
      | (Inl e, d) \<Rightarrow> (IpcError ''OPTIMIZE_FAILED'' (CoordinatorCause e), d))"

definition rollback_request :: "('w, 'f) ipc_env \<Rightarrow> 'w daemon \<Rightarrow> 'f IpcResponse \<times> 'w daemon" where
  "rollback_request E d =
     (let d = signal_active d;
          (crash_report, d) = on_machine (check_and_recover (ie_os E) (ie_snap E) None) d;
          (coord_report, d) = on_machine (recover_orphaned_transaction (ie_os E) (ie_tx E)) d
      in case (crash_report, coord_report) of
           (Inr cr, Inr co) \<Rightarrow>
             (RollbackSuccess
                (if uncommitted_snapshot_found cr \<or> co
                 then RolledBack (services_restored cr) (audio_endpoints_restored cr) (adapter_properties_restored cr)
                 else NothingToRollBack), d)
         | (Inl e, _) \<Rightarrow> (IpcError ''ROLLBACK_FAILED'' (RecoveryCause e), d)
         | (_, Inl e) \<Rightarrow> (IpcError ''ROLLBACK_FAILED'' (CoordinatorCause e), d))"

definition purge_request :: "('w, 'f) ipc_env \<Rightarrow> 'w daemon \<Rightarrow> 'f IpcResponse \<times> 'w daemon" where
  "purge_request E d =
     (case on_machine (terminate_tier2_background_processes (ie_os E) (ie_db E)) d of
        (Inr purged, d) \<Rightarrow> (BloatwarePurged (length purged), d)
      | (Inl e, d) \<Rightarrow> (IpcError ''PURGE_FAILED'' (PurgeCause e), d))"

definition latency_request ::
  "('w, 'f) ipc_env \<Rightarrow> 'f \<Rightarrow> 'w daemon \<Rightarrow> ('f IpcResponse \<times> 'w daemon) option" where
  "latency_request E secs d =
     (let m = machine_of d; s = new_session (ie_os E) m
      in case ie_from_secs E secs of
           None \<Rightarrow> None
         | Some t \<Rightarrow>
             (case run_real_session (ie_os E) (ie_zero E) (ie_quot E) t (ie_events E (env m)) s m of
                None \<Rightarrow> None
              | Some ((_, s), m) \<Rightarrow>
                  let report = generate_report (ie_values E) s secs;
                      m = snd (stop_session (ie_os E) s m)
                  in Some (LatencyReportResponse report, d\<lparr>machine_of := m\<rparr>)))"

definition launch_request ::
  "('w, 'f) ipc_env \<Rightarrow> 'w daemon \<Rightarrow> ('f IpcResponse \<times> 'w daemon) option" where
  "launch_request E d =
     (case ensure_compliant (ie_os E) False (machine_of d) of
        Inl e \<Rightarrow> Some (IpcError ''VANGUARD_VIOLATION'' (VanguardCause e), d)
      | Inr _ \<Rightarrow>
          (case detect_processor_topology (ie_hw E) (env (machine_of d)) of
             None \<Rightarrow> None
           | Some topology \<Rightarrow>
               let affinity = (case topology of Inr t \<Rightarrow> topology_affinity_mask t | Inl _ \<Rightarrow> None);
                   (purged, d) = on_machine (terminate_tier2_background_processes (ie_os E) (ie_db E)) d;
                   backups = (case purged of Inr bs \<Rightarrow> bs | Inl _ \<Rightarrow> []);
                   (_, d) = on_machine (apply_optimizations (ie_os E) (ie_tx E)) d;
                   config = \<lparr>target_binary = VALORANT_BINARY_NAME, p_core_affinity_mask = affinity,
                             terminate_cef_ui = True, poll_interval_ms = 500\<rparr>;
                   signal = length (stop_signals d);
                   d = signal_active d;
                   d = d\<lparr>stop_signals := stop_signals d @ [False], active_stop := Some signal,
                         supervisors := supervisors d @ [(config, backups, signal)]\<rparr>
               in case on_machine (launch_game (ie_os E) (ie_installs E)) d of
                    (Inr status, d) \<Rightarrow> Some (GameLaunchAcknowledged status, d)
                  | (Inl e, d) \<Rightarrow> Some (IpcError ''LAUNCH_FAILED'' (LaunchCause e), d)))"

definition handle_request_authorized ::
  "('w, 'f::{plus,minus,uminus,times,inverse,abs,ord}) ipc_env \<Rightarrow> 'f IpcRequest \<Rightarrow> bool \<Rightarrow> 'w daemon \<Rightarrow>
     ('f IpcResponse \<times> 'w daemon) option" where
  "handle_request_authorized E request is_client_elevated d =
     (if is_privileged request \<and> \<not> is_client_elevated
      then Some (IpcError ''UNAUTHORIZED'' AdministratorNeeded, d)
      else
        case request of
          Ping \<Rightarrow> Some (Pong, d)
        | GetStatus \<Rightarrow> Some (get_status E (machine_of d), d)
        | InspectSystem \<Rightarrow> map_option (\<lambda>resp. (resp, d)) (inspect_request E (machine_of d))
        | ApplyOptimizations \<Rightarrow> Some (apply_request E d)
        | RollbackOptimizations \<Rightarrow> Some (rollback_request E d)
        | TrimWorkingSet \<Rightarrow> Some (IpcError ''FEATURE_REMOVED'' FeatureRemoved, d)
        | PurgeBloatware \<Rightarrow> Some (purge_request E d)
        | GetLatencyReport secs \<Rightarrow> latency_request E secs d
        | RunBufferbloatTest \<Rightarrow> bufferbloat_request E d
        | LaunchOptimizedGame _ \<Rightarrow> launch_request E d
        | ShutdownDaemon \<Rightarrow> Some (Pong, signal_active d))"

definition handle_request where
  "handle_request E request d = handle_request_authorized E request True d"

text \<open>The elevation of the client: of its process, or else under impersonation.\<close>

definition is_client_elevated :: "'w win32 \<Rightarrow> 'w \<Rightarrow> bool" where
  "is_client_elevated os w =
     (let by_process = (case pipe_client_pid os w of
                          Some p \<Rightarrow> if p \<noteq> 0 then process_elevation os p w else None
                        | None \<Rightarrow> None)
      in case by_process of
           Some v \<Rightarrow> v \<noteq> 0
         | None \<Rightarrow>
             (case impersonation_elevation os w of
                Some (Some v) \<Rightarrow> v \<noteq> 0
              | _ \<Rightarrow> False))"

section \<open>The server\<close>

record ('w, 'f) server =
  daemon_of :: "'w daemon"
  is_running :: bool
  listening :: bool
  sent :: "'f IpcResponse list"

text \<open>
  What one round of the loop meets: what happens in the system before the client is there, whether
  the server was told to stop meanwhile, whether a client connected, whether the pipe handle could be
  duplicated, and the bytes the client wrote before the end or an error of the stream (\<open>None\<close>).
\<close>

record 'w turn =
  meanwhile :: "'w \<Rightarrow> 'w"
  stop_called :: bool
  connected :: bool
  duplicated :: bool
  received :: "bytes option"

text \<open>\<^verbatim>\<open>BufRead::read_line\<close>: up to the first newline, which is included, or to the end; an error if it is not UTF-8.\<close>

definition read_line :: "bytes \<Rightarrow> bytes option" where
  "read_line bs =
     (let line = takeWhile (\<lambda>b. b \<noteq> 10) bs @ take 1 (dropWhile (\<lambda>b. b \<noteq> 10) bs)
      in if utf8_valid line then Some line else None)"

definition handle_line ::
  "('w, 'f::{plus,minus,uminus,times,inverse,abs,ord}) ipc_env \<Rightarrow> bool \<Rightarrow> bytes \<Rightarrow> ('w, 'f) server \<Rightarrow> ('w, 'f) server option" where
  "handle_line E is_elevated line sv =
     (let req_res = decode_message (ie_decode E) line;
          is_shutdown = (req_res = Ok ShutdownDaemon)
      in case (case req_res of
                 Inr req \<Rightarrow> handle_request_authorized E req is_elevated (daemon_of sv)
               | Inl e \<Rightarrow> Some (IpcError ''INVALID_REQUEST'' (DecodeCause e), daemon_of sv)) of
           None \<Rightarrow> None
         | Some (resp, d) \<Rightarrow>
             let sv = sv\<lparr>daemon_of := d\<rparr>;
                 sv = (case encode_message (ie_encode E) resp of
                         Some _ \<Rightarrow> sv\<lparr>sent := sent sv @ [resp]\<rparr>
                       | None \<Rightarrow> sv)
             in Some (if is_shutdown \<and> is_elevated then sv\<lparr>is_running := False\<rparr> else sv))"

definition serve_turn ::
  "('w, 'f::{plus,minus,uminus,times,inverse,abs,ord}) ipc_env \<Rightarrow> 'w turn \<Rightarrow> ('w, 'f) server \<Rightarrow> ('w, 'f) server option" where
  "serve_turn E t sv =
     (if \<not> listening sv then Some sv
      else if \<not> is_running sv then Some (sv\<lparr>listening := False\<rparr>)
      else
        let d = daemon_of sv; m = machine_of d;
            sv = sv\<lparr>daemon_of := d\<lparr>machine_of := m\<lparr>env := meanwhile t (env m)\<rparr>\<rparr>,
                    is_running := is_running sv \<and> \<not> stop_called t\<rparr>;
            d = daemon_of sv
        in if \<not> connected t then
             if \<not> is_running sv then Some (sv\<lparr>listening := False\<rparr>)
             else Some (sv\<lparr>daemon_of := d\<lparr>machine_of := sleep (ie_os E) 50 (machine_of d)\<rparr>\<rparr>)
           else if \<not> is_running sv then Some (sv\<lparr>listening := False\<rparr>)
           else
             let is_elevated = is_client_elevated (ie_os E) (env (machine_of d))
             in if \<not> duplicated t then Some sv
                else case (case received t of None \<Rightarrow> None | Some bs \<Rightarrow> read_line bs) of
                       None \<Rightarrow> Some sv
                     | Some line \<Rightarrow> if line = [] then Some sv else handle_line E is_elevated line sv)"

fun serve :: "('w, 'f::{plus,minus,uminus,times,inverse,abs,ord}) ipc_env \<Rightarrow> 'w turn list \<Rightarrow> ('w, 'f) server \<Rightarrow> ('w, 'f) server option" where
  "serve E [] sv = Some sv"
| "serve E (t # ts) sv = (case serve_turn E t sv of None \<Rightarrow> None | Some sv \<Rightarrow> serve E ts sv)"

definition new_server :: "'w machine \<Rightarrow> ('w, 'f) server" where
  "new_server m = \<lparr>daemon_of = \<lparr>machine_of = m, stop_signals = [], active_stop = None, supervisors = []\<rparr>,
     is_running = False, listening = False, sent = []\<rparr>"

text \<open>\<open>pipe_created\<close>: whether the first instance of the pipe could be created.\<close>

definition start_server ::
  "bool \<Rightarrow> ('w, 'f) server \<Rightarrow> (unit, unit) rust_result \<times> ('w, 'f) server" where
  "start_server pipe_created sv =
     (if is_running sv then (Err (), sv) else (Ok (), sv\<lparr>is_running := True, listening := pipe_created\<rparr>))"

text \<open>\<^verbatim>\<open>main\<close> up to its waiting loop: crash recovery, then the server.\<close>

definition daemon_main :: "('w, 'f) ipc_env \<Rightarrow> bool \<Rightarrow> 'w machine \<Rightarrow> ('w, 'f) server" where
  "daemon_main E pipe_created m =
     (let (_, m) = check_and_recover (ie_os E) (ie_snap E) None m
      in snd (start_server pipe_created (new_server m)))"
section \<open>Framing\<close>

text \<open>
  What the protocol relies on in the serializer: the text of a message decodes to the message, is
  ASCII without a newline (control characters are escaped), and starts and ends with a visible
  character.
\<close>

definition codec_ok :: "('a \<Rightarrow> bytes option) \<Rightarrow> (string \<Rightarrow> 'a option) \<Rightarrow> bool" where
  "codec_ok to_vec from_str \<longleftrightarrow>
     (\<forall>x json. to_vec x = Some json \<longrightarrow>
        from_str (ascii_string json) = Some x \<and> json \<noteq> [] \<and> (\<forall>b \<in> set json. 32 \<le> b \<and> b < 127) \<and>
        hd json \<noteq> 32 \<and> last json \<noteq> 32)"

lemma utf8_valid_ascii: "\<forall>b \<in> set bs. b < 128 \<Longrightarrow> utf8_valid bs"
  by (induction bs) (auto simp: in_range_def word_le_nat_alt word_less_nat_alt)

lemma not_whitespace: "32 < b \<Longrightarrow> b < (127 :: u8) \<Longrightarrow> \<not> is_whitespace (char_of (unat b))"
  by (auto simp: is_whitespace_def Let_def word_less_nat_alt)

lemma trim_framed:
  assumes "json \<noteq> []" and "\<forall>b \<in> set json. 32 \<le> b \<and> b < (127 :: u8)" and "hd json \<noteq> 32" and "last json \<noteq> 32"
  shows "trim (ascii_string (json @ [10])) = ascii_string json"
proof -
  let ?s = "ascii_string json" and ?nl = "char_of (unat (10 :: u8)) :: char"
  have ends: "\<not> is_whitespace (hd ?s)" "\<not> is_whitespace (last ?s)"
    using assms not_whitespace [of "hd json"] not_whitespace [of "last json"]
    by (auto simp: ascii_string_def hd_map last_map less_le)
  have nl: "is_whitespace ?nl" by (simp add: is_whitespace_def)
  have ne: "?s \<noteq> []" using assms(1) by (simp add: ascii_string_def)
  have "dropWhile is_whitespace (ascii_string (json @ [10])) = ?s @ [?nl]"
    using ends(1) ne by (cases ?s) (simp_all add: ascii_string_def)
  moreover have "dropWhile is_whitespace (rev (?s @ [?nl])) = rev ?s"
    using nl ends(2) ne by (cases ?s rule: rev_cases) simp_all
  ultimately show ?thesis by (simp add: trim_both_def)
qed

section \<open>Who may change what\<close>

definition trace_effect :: "effect \<Rightarrow> bool" where
  "trace_effect e \<longleftrightarrow> e = StartTrace \<or> e = StopTrace \<or> (\<exists>h. e = CloseTrace h)"

text \<open>Nothing of the daemon changes but the trace session, and the state of the system itself.\<close>

definition only_traces :: "'w daemon \<Rightarrow> 'w daemon \<Rightarrow> bool" where
  "only_traces d d' \<longleftrightarrow>
     log_grows trace_effect (machine_of d) (machine_of d') \<and> files (machine_of d') = files (machine_of d) \<and>
     stop_signals d' = stop_signals d \<and> active_stop d' = active_stop d \<and> supervisors d' = supervisors d"

lemma only_traces_refl [simp]: "only_traces d d"
  by (simp add: only_traces_def)

lemma only_traces_trans: "only_traces a b \<Longrightarrow> only_traces b c \<Longrightarrow> only_traces a c"
  by (auto simp: only_traces_def intro: log_grows_trans)

lemma start_session_traces:
  "log_grows trace_effect m (snd (start_session os cfg s m)) \<and> files (snd (start_session os cfg s m)) = files m"
  by (auto simp: start_session_def Let_def case_prod_beta trace_effect_def intro!: log_grows_step)

lemma stop_session_traces:
  "log_grows trace_effect m (snd (stop_session os s m)) \<and> files (snd (stop_session os s m)) = files m"
  by (auto simp: stop_session_def Let_def case_prod_beta trace_effect_def intro!: log_grows_step split: option.split)

lemma run_real_session_traces:
  fixes s :: "'f KernelLatencySessionManager"
  assumes "run_real_session os zero quot t events s m = Some ((r, s'), m')"
  shows "log_grows trace_effect m m' \<and> files m' = files m"
proof -
  obtain r1 s1 m1 where start: "start_session os default_session_config s m = ((r1, s1), m1)" by (metis prod.exhaust)
  have one: "log_grows trace_effect m m1" "files m1 = files m"
    using start_session_traces [of m os default_session_config s] start by simp_all
  then have slept: "log_grows trace_effect m (sleep os t m1)" "files (sleep os t m1) = files m"
    by (simp_all add: sleep_def log_grows_def)
  show ?thesis
  proof (cases r1)
    case (Inl e)
    then show ?thesis using assms start one by (simp add: run_real_session_def)
  next
    case (Inr u)
    then have "\<exists>s2 :: 'f KernelLatencySessionManager. m' = snd (stop_session os s2 (sleep os t m1))"
      using assms start by (auto simp: run_real_session_def Let_def case_prod_beta split: option.splits)
    then obtain s2 :: "'f KernelLatencySessionManager" where "m' = snd (stop_session os s2 (sleep os t m1))" by blast
    then show ?thesis
      using stop_session_traces [of "sleep os t m1" os s2] slept log_grows_trans by metis
  qed
qed

lemma latency_request_traces:
  assumes "latency_request E secs d = Some (resp, d')"
  shows "only_traces d d'"
proof -
  obtain r s m1 t where run: "run_real_session (ie_os E) (ie_zero E) (ie_quot E) t (ie_events E (env (machine_of d)))
      (new_session (ie_os E) (machine_of d)) (machine_of d) = Some ((r, s), m1)"
    and d': "d' = d\<lparr>machine_of := snd (stop_session (ie_os E) s m1)\<rparr>"
    using assms by (auto simp: latency_request_def Let_def split: option.splits)
  show ?thesis
    using run_real_session_traces [OF run] stop_session_traces [of m1 "ie_os E" s] log_grows_trans
    by (auto simp: only_traces_def d')
qed

lemma bufferbloat_request_traces:
  assumes "bufferbloat_request E d = Some (resp, d')"
  shows "only_traces d d'"
proof -
  obtain r m where "run_isolated_test (ie_f64 E) (ie_os E) (ie_udp E) (ie_echo E (env (machine_of d))) (machine_of d) = Some (r, m)"
    and "d' = d\<lparr>machine_of := m\<rparr>"
    using assms by (auto simp: bufferbloat_request_def split: option.splits sum.splits prod.splits)
  then show ?thesis using run_isolated_test_machine by (fastforce simp: only_traces_def log_grows_same)
qed

lemma unprivileged_traces:
  assumes "handle_request_authorized E req False d = Some (resp, d')" and "\<forall>b. req \<noteq> LaunchOptimizedGame b"
  shows "only_traces d d'"
proof (cases req)
  case (GetLatencyReport secs)
  then show ?thesis using assms(1) latency_request_traces [of E secs d]
    by (simp add: handle_request_authorized_def is_privileged_def)
next
  case RunBufferbloatTest
  then show ?thesis using assms(1) bufferbloat_request_traces
    by (simp add: handle_request_authorized_def is_privileged_def)
qed (use assms in \<open>auto simp: handle_request_authorized_def is_privileged_def split: sum.splits\<close>)

text \<open>The request a client sends in a turn.\<close>

definition turn_request :: "('w, 'f) ipc_env \<Rightarrow> 'w turn \<Rightarrow> 'f IpcRequest option" where
  "turn_request E t =
     (case (case received t of None \<Rightarrow> None | Some bs \<Rightarrow> read_line bs) of
        None \<Rightarrow> None
      | Some line \<Rightarrow> (case decode_message (ie_decode E) line of Inr r \<Rightarrow> Some r | Inl _ \<Rightarrow> None))"

text \<open>The daemon and the server when the client of the turn is there.\<close>

definition at_client :: "'w turn \<Rightarrow> 'w daemon \<Rightarrow> 'w daemon" where
  "at_client t d = d\<lparr>machine_of := (machine_of d)\<lparr>env := meanwhile t (env (machine_of d))\<rparr>\<rparr>"

definition turn_elevated :: "('w, 'f) ipc_env \<Rightarrow> 'w turn \<Rightarrow> 'w daemon \<Rightarrow> bool" where
  "turn_elevated E t d = is_client_elevated (ie_os E) (env (machine_of (at_client t d)))"

lemma env_at_client [simp]: "env (machine_of (at_client t d)) = meanwhile t (env (machine_of d))"
  by (simp add: at_client_def)

lemma at_client_traces [simp]: "only_traces d (at_client t d)"
  by (simp add: at_client_def only_traces_def log_grows_same)

lemma serve_turn_cases:
  assumes "serve_turn E t sv = Some sv'"
  obtains (idle) "only_traces (daemon_of sv) (daemon_of sv')" "sent sv' = sent sv"
      "is_running sv' \<longleftrightarrow> is_running sv \<and> \<not> (listening sv \<and> stop_called t)"
      "listening sv' \<longrightarrow> listening sv" "\<not> (listening sv \<and> is_running sv) \<longrightarrow> daemon_of sv' = daemon_of sv"
  | (request) line where "listening sv" "is_running sv" "\<not> stop_called t" "read_line (the (received t)) = Some line"
      "turn_request E t = (case decode_message (ie_decode E) line of Inr r \<Rightarrow> Some r | Inl _ \<Rightarrow> None)"
      "handle_line E (turn_elevated E t (daemon_of sv)) line (sv\<lparr>daemon_of := at_client t (daemon_of sv)\<rparr>) = Some sv'"
proof -
  let ?sv = "sv\<lparr>daemon_of := at_client t (daemon_of sv)\<rparr>"
  have slept: "only_traces d (d\<lparr>machine_of := sleep (ie_os E) 50 (machine_of d)\<rparr>)" for d :: "'a daemon"
    by (simp add: only_traces_def sleep_def log_grows_same)
  have "daemon_of sv\<lparr>machine_of := machine_of (daemon_of sv)\<lparr>env := meanwhile t (env (machine_of (daemon_of sv)))\<rparr>\<rparr> = at_client t (daemon_of sv)"
    by (simp add: at_client_def)
  note turn = assms [unfolded serve_turn_def Let_def, simplified, unfolded this]
  consider (gone) "\<not> (listening sv \<and> is_running sv \<and> \<not> stop_called t \<and> connected t)"
    | (client) "listening sv" "is_running sv" "\<not> stop_called t" "connected t" by blast
  then show thesis
  proof cases
    case gone
    then show thesis
      using turn idle only_traces_trans [OF at_client_traces [of "daemon_of sv" t] slept] by (auto split: if_splits)
  next
    case client
    show thesis
    proof (cases "duplicated t \<and> (\<exists>bs line. received t = Some bs \<and> read_line bs = Some line \<and> line \<noteq> [])")
      case True
      then obtain bs line where l: "duplicated t" "received t = Some bs" "read_line bs = Some line" "line \<noteq> []" by blast
      have upd: "sv\<lparr>daemon_of := d, is_running := True\<rparr> = sv\<lparr>daemon_of := d\<rparr>" for d using client(2) by simp
      show thesis using request client turn l by (simp add: turn_elevated_def turn_request_def upd)
    next
      case False
      then show thesis using idle client turn by (auto split: if_splits option.splits)
    qed
  qed
qed
lemma handle_line_result:
  assumes "handle_line E el line sv = Some sv'"
  shows "listening sv' = listening sv"
    and "decode_message (ie_decode E) line = Inl e \<Longrightarrow> daemon_of sv' = daemon_of sv \<and> is_running sv' = is_running sv"
    and "decode_message (ie_decode E) line = Inr req \<Longrightarrow>
      (\<exists>resp. handle_request_authorized E req el (daemon_of sv) = Some (resp, daemon_of sv')) \<and>
      is_running sv' = (is_running sv \<and> \<not> (req = ShutdownDaemon \<and> el))"
  using assms by (auto simp: handle_line_def Let_def split: sum.splits option.splits if_splits)

lemma unelevated_turn:
  assumes "serve_turn E t sv = Some sv'" and "\<And>w. \<not> is_client_elevated (ie_os E) w"
    and "\<not> stop_called t" and "\<forall>b. turn_request E t \<noteq> Some (LaunchOptimizedGame b)"
  shows "only_traces (daemon_of sv) (daemon_of sv') \<and> is_running sv' = is_running sv"
  using assms(1)
proof (cases rule: serve_turn_cases)
  case idle
  then show ?thesis using assms(3) by simp
next
  case (request line)
  let ?sv = "sv\<lparr>daemon_of := at_client t (daemon_of sv)\<rparr>"
  have "\<not> turn_elevated E t (daemon_of sv)" using assms(2) by (simp add: turn_elevated_def)
  note h = handle_line_result(2,3) [OF request(6) [simplified this if_False]]
  show ?thesis
  proof (cases "decode_message (ie_decode E) line")
    case (Inl e)
    then show ?thesis using h(1) [OF Inl] by simp
  next
    case (Inr r)
    obtain resp where "handle_request_authorized E r False (at_client t (daemon_of sv)) = Some (resp, daemon_of sv')"
      "is_running sv' = is_running sv"
      using h(2) [OF Inr] \<open>\<not> turn_elevated E t (daemon_of sv)\<close> by auto
    moreover have "\<forall>b. r \<noteq> LaunchOptimizedGame b" using assms(4) request(5) Inr by simp
    ultimately show ?thesis
      using unprivileged_traces only_traces_trans [OF at_client_traces] by blast
  qed
qed

section \<open>Supervisors\<close>

definition signals_inv :: "'w daemon \<Rightarrow> bool" where
  "signals_inv d \<longleftrightarrow>
     map (\<lambda>(_, _, i). i) (supervisors d) = [0..<length (stop_signals d)] \<and>
     (\<forall>i<length (stop_signals d). \<not> stop_signals d ! i \<longrightarrow> active_stop d = Some i) \<and>
     (\<forall>i. active_stop d = Some i \<longrightarrow> Suc i = length (stop_signals d))"

lemma signals_inv_machine [simp]: "signals_inv (d\<lparr>machine_of := m\<rparr>) = signals_inv d"
  by (simp add: signals_inv_def)

lemma signal_active_result:
  assumes "signals_inv d"
  shows "signals_inv (signal_active d)" and "\<forall>i<length (stop_signals (signal_active d)). stop_signals (signal_active d) ! i"
    and "length (stop_signals (signal_active d)) = length (stop_signals d)" and "active_stop (signal_active d) = None"
  using assms by (auto simp: signals_inv_def signal_active_def nth_list_update split: option.splits)

lemma on_machine_inv [simp]:
  "signals_inv (snd (on_machine f d)) = signals_inv d" "stop_signals (snd (on_machine f d)) = stop_signals d"
  "active_stop (snd (on_machine f d)) = active_stop d" "supervisors (snd (on_machine f d)) = supervisors d"
  by (simp_all add: on_machine_def case_prod_beta)

lemma new_supervisor_inv:
  assumes "signals_inv d" and "n = length (stop_signals d)"
  shows "signals_inv ((signal_active d)\<lparr>stop_signals := stop_signals (signal_active d) @ [False], active_stop := Some n,
     supervisors := supervisors (signal_active d) @ [(c, b, n)]\<rparr>)"
  using signal_active_result [OF assms(1)] assms(2)
  by (auto simp: signals_inv_def nth_append less_Suc_eq)

lemma launch_request_inv:
  assumes "signals_inv d" and "launch_request E d = Some (resp, d')"
  shows "signals_inv d'"
proof -
  obtain purged d1 where p: "on_machine (terminate_tier2_background_processes (ie_os E) (ie_db E)) d = (purged, d1)" by fastforce
  obtain a d2 where a: "on_machine (apply_optimizations (ie_os E) (ie_tx E)) d1 = (a, d2)" by fastforce
  have "signals_inv d2"
    using assms(1) p a on_machine_inv(1) by (metis snd_conv)
  from new_supervisor_inv [OF this refl] show ?thesis
    using assms p a
    by (auto simp: launch_request_def Let_def on_machine_def [where f = "launch_game os js" for os js] case_prod_beta
        split: sum.splits option.splits)
qed

lemma handle_request_inv:
  assumes "signals_inv d" and "handle_request_authorized E req el d = Some (resp, d')"
  shows "signals_inv d'"
proof (cases "is_privileged req \<and> \<not> el")
  case True
  then show ?thesis using assms by (simp add: handle_request_authorized_def)
next
  case False
  show ?thesis
  proof (cases req)
    case ApplyOptimizations
    then show ?thesis using assms False
      by (auto simp: handle_request_authorized_def apply_request_def on_machine_def case_prod_beta split: sum.splits)
  next
    case RollbackOptimizations
    then show ?thesis using assms False signal_active_result(1) [OF assms(1)]
      by (auto simp: handle_request_authorized_def rollback_request_def on_machine_def Let_def case_prod_beta split: sum.splits)
  next
    case PurgeBloatware
    then show ?thesis using assms False
      by (auto simp: handle_request_authorized_def purge_request_def on_machine_def case_prod_beta split: sum.splits)
  next
    case (GetLatencyReport secs)
    then show ?thesis using assms False latency_request_traces [of E secs d]
      by (auto simp: handle_request_authorized_def only_traces_def signals_inv_def)
  next
    case RunBufferbloatTest
    then show ?thesis using assms False bufferbloat_request_traces [of E d]
      by (auto simp: handle_request_authorized_def only_traces_def signals_inv_def)
  next
    case (LaunchOptimizedGame b)
    then show ?thesis using assms False launch_request_inv [OF assms(1)] by (simp add: handle_request_authorized_def is_privileged_def)
  qed (use assms False signal_active_result(1) [OF assms(1)] in \<open>auto simp: handle_request_authorized_def split: sum.splits\<close>)
qed

lemma serve_turn_inv:
  assumes "signals_inv (daemon_of sv)" and "serve_turn E t sv = Some sv'"
  shows "signals_inv (daemon_of sv')"
  using assms(2)
proof (cases rule: serve_turn_cases)
  case idle
  then show ?thesis using assms(1) by (simp add: only_traces_def signals_inv_def)
next
  case (request line)
  have "signals_inv (at_client t (daemon_of sv))" using assms(1) by (simp add: at_client_def)
  then show ?thesis
    using handle_line_result(2,3) [OF request(6)] handle_request_inv
    by (cases "decode_message (ie_decode E) line") fastforce+
qed

lemma serve_inv: "signals_inv (daemon_of sv) \<Longrightarrow> serve E ts sv = Some sv' \<Longrightarrow> signals_inv (daemon_of sv')"
  by (induction ts arbitrary: sv) (auto split: option.splits dest: serve_turn_inv)

lemma daemon_main_inv: "signals_inv (daemon_of (daemon_main E pipe m))"
  by (simp add: daemon_main_def start_server_def new_server_def signals_inv_def case_prod_beta)

lemma stopped_serve:
  "\<not> is_running sv \<Longrightarrow> \<exists>sv'. serve E ts sv = Some sv' \<and> daemon_of sv' = daemon_of sv \<and> sent sv' = sent sv \<and> \<not> is_running sv'"
proof (induction ts arbitrary: sv)
  case (Cons t ts)
  let ?sv = "if listening sv then sv\<lparr>listening := False\<rparr> else sv"
  have "serve_turn E t sv = Some ?sv" using Cons.prems by (simp add: serve_turn_def)
  with Cons.IH [of ?sv] Cons.prems show ?case by auto
qed simp

lemma purge_log:
  "log_grows (kill_effect (\<lambda>p. p \<noteq> own_pid os \<and> p > 4)) m (snd (terminate_tier2_background_processes os db m))"
proof (cases "process_list os (env m)")
  case None
  then show ?thesis by (simp add: terminate_tier2_background_processes_def)
next
  case (Some entries)
  have "log_grows (kill_effect (\<lambda>p. p \<noteq> own_pid os \<and> p > 4)) m (snd (purge_entries os db entries [] m))"
    by (rule log_grows_mono [OF conjunct1 [OF purge_entries_grows]])
      (erule kill_effect_mono [rotated], simp add: purgeable_def)
  then show ?thesis using Some by (simp add: terminate_tier2_background_processes_def case_prod_beta)
qed

lemma signal_active_machine [simp]: "machine_of (signal_active d) = machine_of d"
  by (simp add: signal_active_def split: option.split)

section \<open>Properties\<close>



text \<open>
  C11: at most one supervisor is left running. Whatever is requested of a daemon since its start, every
  supervising thread but the one of the latest launch has been told to stop, and after a handled
  rollback or shutdown that one has been told too.
\<close>

theorem one_supervisor_running:
  assumes "serve E ts (daemon_main E pipe m) = Some sv"
  shows "(\<forall>(_, _, i) \<in> set (butlast (supervisors (daemon_of sv))). stop_signals (daemon_of sv) ! i) \<and>
    (\<forall>req resp d. req \<in> {RollbackOptimizations, ShutdownDaemon} \<longrightarrow>
       handle_request_authorized E req True (daemon_of sv) = Some (resp, d) \<longrightarrow>
       (\<forall>(_, _, i) \<in> set (supervisors d). stop_signals d ! i))"
proof -
  let ?d = "daemon_of sv"
  have inv: "signals_inv ?d" by (rule serve_inv [OF daemon_main_inv assms])
  have index: "i < length (stop_signals d)" if "signals_inv d" "(c, b, i) \<in> set (supervisors d)" for c b i and d :: "'a daemon"
  proof -
    have "i \<in> set (map (\<lambda>(_, _, i). i) (supervisors d))" using that(2) by force
    also have "\<dots> = {0..<length (stop_signals d)}" using that(1) by (simp add: signals_inv_def del: set_map)
    finally show ?thesis by simp
  qed
  have "stop_signals ?d ! i" if "(c, b, i) \<in> set (butlast (supervisors ?d))" for c b i
  proof -
    have "i \<in> set (map (\<lambda>(_, _, i). i) (butlast (supervisors ?d)))" using that by force
    then have "i \<in> set (butlast (map (\<lambda>(_, _, i). i) (supervisors ?d)))" by (simp add: map_butlast)
    also have "map (\<lambda>(_, _, i). i) (supervisors ?d) = [0..<length (stop_signals ?d)]" using inv by (simp add: signals_inv_def)
    finally have "Suc i < length (stop_signals ?d)" by (cases "length (stop_signals ?d)") simp_all
    then have "active_stop ?d \<noteq> Some i" "i < length (stop_signals ?d)" using inv by (auto simp: signals_inv_def)
    then show ?thesis using inv unfolding signals_inv_def by blast
  qed
  moreover have "\<forall>(_, _, i) \<in> set (supervisors d). stop_signals d ! i"
    if "req \<in> {RollbackOptimizations, ShutdownDaemon}" "handle_request_authorized E req True ?d = Some (resp, d)" for req resp d
  proof -
    have "stop_signals d = stop_signals (signal_active ?d)" "supervisors d = supervisors (signal_active ?d)"
      using that by (auto simp: handle_request_authorized_def rollback_request_def on_machine_def Let_def case_prod_beta
          split: sum.splits)
    then show ?thesis using signal_active_result(1,2) [OF inv] index by fastforce
  qed
  ultimately show ?thesis by (auto split: prod.splits)
qed
text \<open>A daemon on the small system, with a serializer for the requests without arguments.\<close>

definition demo_to_vec :: "xreal IpcRequest \<Rightarrow> bytes option" where
  "demo_to_vec r = (case r of Ping \<Rightarrow> Some [0x70] | ShutdownDaemon \<Rightarrow> Some [0x73]
     | LaunchOptimizedGame True \<Rightarrow> Some [0x6C] | GetLatencyReport n \<Rightarrow> if n = Fin 0 then Some [0x6D] else None | _ \<Rightarrow> None)"

definition demo_from_str :: "string \<Rightarrow> xreal IpcRequest option" where
  "demo_from_str s =
     (if s = ''p'' then Some Ping else if s = ''s'' then Some ShutdownDaemon
      else if s = ''l'' then Some (LaunchOptimizedGame True)
      else if s = ''m'' then Some (GetLatencyReport (Fin 0)) else None)"

definition demo_ipc :: "world win32 \<Rightarrow> (world, xreal) ipc_env" where
  "demo_ipc os =
     \<lparr>ie_os = os, ie_db = new_db, ie_tx = \<lparr>tx_encode = (\<lambda>_. None), tx_decode = (\<lambda>_. None)\<rparr>, ie_snap = demo_codec,
      ie_installs = (\<lambda>_. None),
      ie_hw = \<lparr>processor_info_size = (\<lambda>_. 0), processor_info = (\<lambda>_ _. None), adapters_addresses = (\<lambda>_ _. (1, 0, []))\<rparr>,
      ie_zero = Fin 0, ie_quot = (\<lambda>a b. Fin (real (unat a) / real (unat b))), ie_values = sorted_values, ie_from_secs = (\<lambda>n. None),
      ie_events = (\<lambda>_. []), ie_devices = demo_devices, ie_f64 = exact, ie_udp = demo_udp, ie_echo = (\<lambda>w. Some ''127.0.0.1:50000''),
      ie_version = ''0.1.0'', ie_encode = (\<lambda>_. Some [0x70]), ie_decode = demo_from_str\<rparr>"

definition demo_turn :: "u8 \<Rightarrow> world turn" where
  "demo_turn b = \<lparr>meanwhile = id, stop_called = False, connected = True, duplicated = True, received = Some [b, 10]\<rparr>"

definition demo_server :: "(world, xreal) server" where
  "demo_server = \<lparr>daemon_of = \<lparr>machine_of = demo_machine, stop_signals = [], active_stop = None, supervisors = []\<rparr>,
     is_running = True, listening = True, sent = []\<rparr>"

definition demo_elevated_client :: "world win32" where
  "demo_elevated_client = demo_os\<lparr>process_elevation := (\<lambda>_ _. Some 1)\<rparr>"

lemma demo_ipc_simps [simp]:
  "ie_os (demo_ipc os) = os" "ie_decode (demo_ipc os) = demo_from_str" "ie_encode (demo_ipc os) = (\<lambda>_. Some [0x70])"
  "ie_from_secs (demo_ipc os) = (\<lambda>n. None)"
  by (simp_all add: demo_ipc_def)

lemma demo_unelevated: "\<not> is_client_elevated demo_os w"
  by (simp add: is_client_elevated_def demo_os_def)

lemma demo_lines [simp]: "b < 128 \<Longrightarrow> b \<noteq> 10 \<Longrightarrow> read_line [b, 10] = Some [b, 10]"
  using utf8_valid_ascii [of "[b, 10]"] by (simp add: read_line_def del: utf8_valid.simps)

lemma demo_decode [simp]:
  "decode_message demo_from_str [0x70, 10] = Ok Ping" "decode_message demo_from_str [0x73, 10] = Ok ShutdownDaemon"
  "decode_message demo_from_str [0x6C, 10] = Ok (LaunchOptimizedGame True)"
  "decode_message demo_from_str [0x6D, 10] = Ok (GetLatencyReport (Fin 0))"
  by code_simp+

lemma demo_serve_turn:
  assumes "b < 128" and "b \<noteq> 10" and "listening sv" and "is_running sv"
  shows "serve_turn (demo_ipc os) (demo_turn b) sv =
    handle_line (demo_ipc os) (is_client_elevated os (env (machine_of (daemon_of sv)))) [b, 10] sv"
proof -
  have running: "sv\<lparr>is_running := True\<rparr> = sv" using assms(4) by simp
  show ?thesis using assms by (simp add: serve_turn_def demo_turn_def Let_def running)
qed

lemma demo_requests:
  "turn_request (demo_ipc os) (demo_turn 0x70) = Some Ping"
  "turn_request (demo_ipc os) (demo_turn 0x73) = Some ShutdownDaemon"
  by (simp_all add: turn_request_def demo_turn_def)

lemmas demo_handle = handle_line_def handle_request_authorized_def is_privileged_def encode_message_def



theorem one_supervisor_running_witness:
  "\<exists>sv. serve (demo_ipc demo_os) [] (daemon_main (demo_ipc demo_os) True demo_machine) = Some sv \<and>
     (\<forall>(_, _, i) \<in> set (butlast (supervisors (daemon_of sv))). stop_signals (daemon_of sv) ! i)"
  using one_supervisor_running [of "demo_ipc demo_os" "[]" True demo_machine] by simp
lemma signal_active_supervisors [simp]: "supervisors (signal_active d) = supervisors d"
  by (simp add: signal_active_def split: option.split)

lemma log_grows_seq:
  assumes "log_grows P a b" and "log_grows Q b c" and "log_grows R c d"
  shows "\<exists>es fs gs. log d = log a @ es @ fs @ gs \<and> list_all P es \<and> list_all Q fs \<and> list_all R gs"
proof -
  obtain es fs gs where "log b = log a @ es" "list_all P es" "log c = log b @ fs" "list_all Q fs" "log d = log c @ gs" "list_all R gs"
    using assms by (auto simp: log_grows_def)
  then show ?thesis by (intro exI [of _ es] exI [of _ fs] exI [of _ gs]) simp
qed

lemma launch_steps:
  assumes "launch_request E d = Some (resp, d')" and "ensure_compliant (ie_os E) False (machine_of d) = Inr rep"
    and "m1 = snd (terminate_tier2_background_processes (ie_os E) (ie_db E) (machine_of d))"
    and "m2 = snd (apply_optimizations (ie_os E) (ie_tx E) m1)" and "r = launch_game (ie_os E) (ie_installs E) m2"
  shows "machine_of d' = snd r" and "active_stop d' = Some (length (stop_signals d))"
    and "length (supervisors d') = Suc (length (supervisors d))"
    and "target_binary (fst (last (supervisors d'))) = VALORANT_BINARY_NAME"
    and "(\<exists>st. resp = GameLaunchAcknowledged st) \<or> (\<exists>e. resp = IpcError ''LAUNCH_FAILED'' (LaunchCause e))"
proof -
  note defs = launch_request_def on_machine_def Let_def case_prod_beta
  show "machine_of d' = snd r" using assms by (auto simp: defs split: option.splits sum.splits)
  show "active_stop d' = Some (length (stop_signals d))" using assms by (auto simp: defs split: option.splits sum.splits)
  show "length (supervisors d') = Suc (length (supervisors d))" using assms by (auto simp: defs split: option.splits sum.splits)
  show "target_binary (fst (last (supervisors d'))) = VALORANT_BINARY_NAME" using assms by (auto simp: defs split: option.splits sum.splits)
  show "(\<exists>st. resp = GameLaunchAcknowledged st) \<or> (\<exists>e. resp = IpcError ''LAUNCH_FAILED'' (LaunchCause e))"
    using assms by (auto simp: defs split: option.splits sum.splits)
qed



lemma framed_message:
  assumes "codec_ok to_vec from_str" and "encode_message to_vec x = Some bs"
  shows "read_line (bs @ rest) = Some bs \<and> decode_message from_str bs = Ok x"
proof -
  obtain json where json: "to_vec x = Some json" "bs = json @ [10]"
    using assms(2) by (auto simp: encode_message_def)
  have c: "from_str (ascii_string json) = Some x" "json \<noteq> []" "\<forall>b \<in> set json. 32 \<le> b \<and> b < 127"
    "hd json \<noteq> 32" "last json \<noteq> 32"
    using assms(1) json(1) by (auto simp: codec_ok_def)
  have no_nl: "\<forall>b \<in> set json. b \<noteq> 10" using c(3) by (auto simp: word_le_nat_alt)
  have "\<forall>b \<in> set bs. b < 128" using c(3) json(2) by (auto simp: word_less_nat_alt)
  then have utf: "utf8_valid bs" by (rule utf8_valid_ascii)
  have "takeWhile (\<lambda>b. b \<noteq> 10) (bs @ rest) = json" "dropWhile (\<lambda>b. b \<noteq> 10) (bs @ rest) = 10 # rest"
    using no_nl json(2) by (simp_all add: takeWhile_append2 dropWhile_append2)
  then have "read_line (bs @ rest) = Some bs" using utf json(2) by (simp add: read_line_def)
  moreover have "trim (ascii_string bs) = ascii_string json"
    unfolding json(2) by (rule trim_framed [OF c(2-5)])
  then have "decode_message from_str bs = Ok x" using utf c(1) by (simp add: decode_message_def)
  ultimately show ?thesis ..
qed


lemma demo_codec_ok: "codec_ok demo_to_vec demo_from_str"
proof -
  have "demo_from_str (ascii_string [0x70]) = Some Ping" "demo_from_str (ascii_string [0x73]) = Some ShutdownDaemon"
    "demo_from_str (ascii_string [0x6C]) = Some (LaunchOptimizedGame True)"
    "demo_from_str (ascii_string [0x6D]) = Some (GetLatencyReport (Fin 0))"
    by code_simp+
  then show ?thesis
    by (auto simp: codec_ok_def demo_to_vec_def split: IpcRequest.splits bool.splits if_splits)
qed


text \<open>
  A client without elevation ends the daemon: the report is asked for with a duration that
  \<^verbatim>\<open>Duration::from_secs_f64\<close> rejects, such as a negative one, and the panic aborts the process.
\<close>

lemma rejected_duration_aborts:
  "ie_from_secs E secs = None \<Longrightarrow> handle_request_authorized E (GetLatencyReport secs) False d = None"
  by (simp add: handle_request_authorized_def is_privileged_def latency_request_def)

text \<open>
  When the pipe cannot be created, the listener ends but the server still counts as running, so that
  the waiting loop of \<^verbatim>\<open>main\<close> never ends, and no client is ever served.
\<close>

lemma unserved_daemon_keeps_running:
  "serve E ts (daemon_main E False m) = Some (daemon_main E False m) \<and> is_running (daemon_main E False m)"
proof -
  have "\<not> listening (daemon_main E False m)" "is_running (daemon_main E False m)"
    by (simp_all add: daemon_main_def start_server_def new_server_def case_prod_beta)
  then show ?thesis by (induction ts) (simp_all add: serve_turn_def)
qed

end
