(* ===== verification/Gui_Client.thy ===== *)
theory Gui_Client
  imports Ipc_Server
begin

text \<open>
  The graphical client of \<^verbatim>\<open>src/crates/val-opt-gui/src\<close>: the client end of the named pipe with its
  fallback (\<^verbatim>\<open>ipc_client.rs\<close>), the hand-over of a launch (\<^verbatim>\<open>lifecycle.rs\<close>), the telemetry shown at the
  start (\<^verbatim>\<open>lib.rs\<close>) and the handlers of the buttons (\<^verbatim>\<open>main.rs\<close>).

  The client and the daemon act on one machine. The state has the client's own handler state, which
  the fallback uses, and the server of the daemon process when one runs; a request over the pipe is
  one turn of that server. The two processes have their own environments \<open>E\<close> (client) and \<open>K\<close>
  (daemon), since they may run with different privileges. The calls of the pipe, the texts of
  floating-point numbers and the serializer are the record \<open>client\<close>.
\<close>

section \<open>The state\<close>

record ('w, 'f) client =
  pipe_waits :: "'w \<Rightarrow> bool"
  pipe_busy :: "'w \<Rightarrow> bool"
  pipe_opens :: "'w \<Rightarrow> bool"
  pipe_writes :: "bytes \<Rightarrow> 'w \<Rightarrow> bool"
  pipe_duplicated :: "'w \<Rightarrow> bool"
  pipe_reads :: "bytes \<Rightarrow> 'w \<Rightarrow> bytes option"
  current_exe :: "'w \<Rightarrow> path option"
  core_boots :: "'w \<Rightarrow> bool"
  request_to_vec :: "'f IpcRequest \<Rightarrow> bytes option"
  response_from_str :: "string \<Rightarrow> 'f IpcResponse option"
  fixed1 :: "'f \<Rightarrow> string"

text \<open>
  \<open>pipe_reads\<close> is what the client can read of the bytes the daemon wrote before it closed the pipe,
  \<open>None\<close> for an error; \<open>core_boots\<close> says whether a spawned daemon listens after the 200 ms the client
  waits for it.
\<close>

record ('w, 'f) host =
  own :: "'w daemon"
  core :: "('w, 'f) server option"
  gui_alive :: bool

abbreviation host_machine :: "('w, 'f) host \<Rightarrow> 'w machine" where
  "host_machine h \<equiv> machine_of (own h)"

definition set_machine :: "'w machine \<Rightarrow> ('w, 'f) host \<Rightarrow> ('w, 'f) host" where
  "set_machine m h = h\<lparr>own := (own h)\<lparr>machine_of := m\<rparr>\<rparr>"

section \<open>The client end of the pipe\<close>

definition is_daemon_running :: "('w, 'f) client \<Rightarrow> ('w, 'f) host \<Rightarrow> bool" where
  "is_daemon_running cl h \<longleftrightarrow> pipe_waits cl (env (host_machine h)) \<or> pipe_busy cl (env (host_machine h))"

definition daemon_candidates :: "'w win32 \<Rightarrow> ('w, 'f) client \<Rightarrow> 'w \<Rightarrow> path list" where
  "daemon_candidates os cl w =
     (case current_exe cl w of
        None \<Rightarrow> []
      | Some exe \<Rightarrow> (case parent exe of None \<Rightarrow> [] | Some p \<Rightarrow> [path_join p ''val-opt-core.exe''])) @
     [''target/release/val-opt-core.exe'', ''target/debug/val-opt-core.exe'',
      path_join (path_join (opt_unwrap_or (env_var os ''ProgramFiles'' w) (win ''C:/Program Files''))
        ''ValorantOptimizer'') ''val-opt-core.exe'']"

text \<open>
  A spawned daemon runs its \<^verbatim>\<open>main\<close>: crash recovery first, then the server, which only the first
  process to create the pipe can be.
\<close>

definition boot_core :: "('w, 'f) ipc_env \<Rightarrow> ('w, 'f) client \<Rightarrow> ('w, 'f) host \<Rightarrow> ('w, 'f) host" where
  "boot_core K cl h =
     (if core_boots cl (env (host_machine h)) then
        let sv = daemon_main K (core h = None) (host_machine h);
            h' = set_machine (machine_of (daemon_of sv)) h
        in if core h = None then h'\<lparr>core := Some sv\<rparr> else h'
      else h)"

fun spawn_first ::
  "('w, 'f) ipc_env \<Rightarrow> ('w, 'f) ipc_env \<Rightarrow> ('w, 'f) client \<Rightarrow> path list \<Rightarrow> ('w, 'f) host \<Rightarrow> bool \<times> ('w, 'f) host" where
  "spawn_first E K cl [] h = (False, h)"
| "spawn_first E K cl (p # ps) h =
     (if fs_exists (ie_os E) p (host_machine h) then
        case call (Spawn p []) (process_spawn (ie_os E) p [] None) (host_machine h) of
          (Some _, m) \<Rightarrow>
            let h = boot_core K cl (set_machine m h)
            in (True, set_machine (sleep (ie_os E) 200 (host_machine h)) h)
        | (None, m) \<Rightarrow> spawn_first E K cl ps (set_machine m h)
      else spawn_first E K cl ps h)"

definition spawn_daemon ::
  "('w, 'f) ipc_env \<Rightarrow> ('w, 'f) ipc_env \<Rightarrow> ('w, 'f) client \<Rightarrow> ('w, 'f) host \<Rightarrow> bool \<times> ('w, 'f) host" where
  "spawn_daemon E K cl h = spawn_first E K cl (daemon_candidates (ie_os E) cl (env (host_machine h))) h"

definition pipe_open :: "('w, 'f) client \<Rightarrow> ('w, 'f) host \<Rightarrow> bool" where
  "pipe_open cl h \<longleftrightarrow>
     (case core h of None \<Rightarrow> False | Some sv \<Rightarrow> is_running sv \<and> listening sv) \<and> pipe_opens cl (env (host_machine h))"

text \<open>
  One turn of the daemon for the bytes of this client, and the bytes it wrote before it closed the
  pipe. A panic ends the daemon, and the pipe closes without an answer.
\<close>

definition client_turn :: "('w, 'f) client \<Rightarrow> bytes \<Rightarrow> 'w \<Rightarrow> 'w turn" where
  "client_turn cl bs w =
     \<lparr>meanwhile = id, stop_called = False, connected = True, duplicated = pipe_duplicated cl w, received = Some bs\<rparr>"

definition exchange ::
  "('w, 'f::{plus,minus,uminus,times,inverse,abs,ord}) ipc_env \<Rightarrow> ('w, 'f) client \<Rightarrow> bytes \<Rightarrow> ('w, 'f) host \<Rightarrow>
     bytes option \<times> ('w, 'f) host" where
  "exchange K cl bs h =
     (case core h of
        None \<Rightarrow> (None, h)
      | Some sv \<Rightarrow>
          let m = host_machine h;
              sv = sv\<lparr>daemon_of := (daemon_of sv)\<lparr>machine_of := m\<rparr>\<rparr>
          in case serve_turn K (client_turn cl bs (env m)) sv of
               None \<Rightarrow> (pipe_reads cl [] (env m), h\<lparr>core := None\<rparr>)
             | Some sv' \<Rightarrow>
                 let answer = (if length (sent sv') > length (sent sv)
                               then opt_unwrap_or (encode_message (ie_encode K) (last (sent sv'))) [] else [])
                 in (pipe_reads cl answer (env (machine_of (daemon_of sv'))),
                     (set_machine (machine_of (daemon_of sv')) h)\<lparr>core := Some sv'\<rparr>))"

definition pipe_request ::
  "('w, 'f::{plus,minus,uminus,times,inverse,abs,ord}) ipc_env \<Rightarrow> ('w, 'f) client \<Rightarrow> 'f IpcRequest \<Rightarrow> ('w, 'f) host \<Rightarrow>
     'f IpcResponse option \<times> ('w, 'f) host" where
  "pipe_request K cl request h =
     (case encode_message (request_to_vec cl) request of
        None \<Rightarrow> (None, h)
      | Some encoded \<Rightarrow>
          if \<not> pipe_writes cl encoded (env (host_machine h)) then (None, h)
          else case exchange K cl encoded h of
                 (None, h) \<Rightarrow> (None, h)
               | (Some bs, h) \<Rightarrow>
                   (case read_line bs of
                      None \<Rightarrow> (None, h)
                    | Some line \<Rightarrow>
                        (case decode_message (response_from_str cl) line of
                           Inr resp \<Rightarrow> (Some resp, h)
                         | Inl _ \<Rightarrow> (None, h))))"

text \<open>The request, with the fallback to the client's own handler. It never is an error.\<close>

definition send_request ::
  "('w, 'f::{plus,minus,uminus,times,inverse,abs,ord}) ipc_env \<Rightarrow> ('w, 'f) ipc_env \<Rightarrow> ('w, 'f) client \<Rightarrow>
     'f IpcRequest \<Rightarrow> ('w, 'f) host \<Rightarrow> ('f IpcResponse \<times> ('w, 'f) host) option" where
  "send_request E K cl request h =
     (let (opened, h) =
            (if pipe_open cl h then (True, h)
             else case spawn_daemon E K cl h of (spawned, h) \<Rightarrow> (spawned \<and> pipe_open cl h, h));
          (answer, h) = (if opened then pipe_request K cl request h else (None, h))
      in case answer of
           Some resp \<Rightarrow> Some (resp, h)
         | None \<Rightarrow>
             map_option (\<lambda>(resp, d). (resp, h\<lparr>own := d\<rparr>)) (handle_request E request (own h)))"

definition ping where
  "ping E K cl h = map_option (\<lambda>(resp, h). (resp = Pong, h)) (send_request E K cl Ping h)"

section \<open>Handing a launch over\<close>

datatype 'f launch_failure = LaunchRefused string ipc_cause | UnexpectedResponse "'f IpcResponse"

text \<open>The outcome of an acknowledged launch is \<open>None\<close> when the process has exited.\<close>

definition trigger_launch_and_unload ::
  "('w, 'f::{plus,minus,uminus,times,inverse,abs,ord}) ipc_env \<Rightarrow> ('w, 'f) ipc_env \<Rightarrow> ('w, 'f) client \<Rightarrow> bool \<Rightarrow> bool \<Rightarrow>
     ('w, 'f) host \<Rightarrow> (('f launch_failure, launch_status option) rust_result \<times> ('w, 'f) host) option" where
  "trigger_launch_and_unload E K cl auto_relaunch terminate_now h =
     (let h = (if \<not> is_daemon_running cl h then snd (spawn_daemon E K cl h) else h)
      in case send_request E K cl (LaunchOptimizedGame auto_relaunch) h of
           None \<Rightarrow> None
         | Some (GameLaunchAcknowledged message, h) \<Rightarrow>
             Some (if terminate_now then (Ok None, h\<lparr>gui_alive := False\<rparr>) else (Ok (Some message), h))
         | Some (IpcError code cause, h) \<Rightarrow> Some (Err (LaunchRefused code cause), h)
         | Some (other, h) \<Rightarrow> Some (Err (UnexpectedResponse other), h))"

section \<open>The window\<close>

datatype 'f status_text =
    StatusText string
  | GameLaunched launch_status
  | LaunchFailedText "'f launch_failure"
  | CommitFailed ipc_cause
  | RollbackFailed ipc_cause
  | BufferbloatFailed ipc_cause
  | LatencyFailed ipc_cause

record 'f AppWindow =
  cpu_name :: string
  win_gpu_name :: string
  win_adapter_name :: string
  dpc_status :: string
  bufferbloat_grade :: string
  unloaded_ping :: string
  loaded_ping :: string
  bufferbloat_delta :: string
  shown_dpc_driver :: string
  shown_isr_driver :: string
  test_status_msg :: "'f status_text"
  unload_gui_on_launch :: bool

text \<open>The micro sign in UTF-8.\<close>

definition micro :: string where
  "micro = [CHR 0xC2, CHR 0xB5]"

definition OPTIMAL_DPC :: string where
  "OPTIMAL_DPC = ''OPTIMAL (< 80'' @ micro @ ''s)''"

text \<open>The derived debug text of a grade, which is the name of its constructor.\<close>

fun grade_debug :: "BufferbloatGrade \<Rightarrow> string" where
  "grade_debug APlus = ''APlus''"
| "grade_debug A = ''A''"
| "grade_debug B = ''B''"
| "grade_debug C = ''C''"
| "grade_debug D = ''D''"
| "grade_debug F = ''F''"

definition show_manifest :: "FullSystemManifest \<Rightarrow> 'f AppWindow \<Rightarrow> 'f AppWindow" where
  "show_manifest M app =
     app\<lparr>cpu_name := cpu_brand (manifest_cpu M) @ '' / '' @ dec_string (unat (cpu_physical_cores (manifest_cpu M))) @ '' Cores'',
         win_gpu_name := gpu_name (primary_gpu M) @ '' ('' @ dec_string (unat (dedicated_vram_mb (primary_gpu M))) @ '' MB)'',
         win_adapter_name := adapter_name (primary_network M) @ '' ('' @ dec_string (unat (link_speed_mbps (primary_network M))) @ '' Mbps)''\<rparr>"

definition initialize_telemetry ::
  "('w, 'f::{plus,minus,uminus,times,inverse,abs,ord}) ipc_env \<Rightarrow> ('w, 'f) ipc_env \<Rightarrow> ('w, 'f) client \<Rightarrow>
     'f AppWindow \<times> ('w, 'f) host \<Rightarrow> ('f AppWindow \<times> ('w, 'f) host) option" where
  "initialize_telemetry E K cl s =
     (case s of (app, h) \<Rightarrow>
        (case inspect (ie_hw E) (ie_devices E) (ie_os E) (host_machine h) of
           None \<Rightarrow> None
         | Some r \<Rightarrow>
             let app = (case r of Inr M \<Rightarrow> show_manifest M app | Inl _ \<Rightarrow> app)
             in case send_request E K cl GetStatus h of
                  None \<Rightarrow> None
                | Some (Status _ _ _ _, h) \<Rightarrow> Some (app\<lparr>dpc_status := OPTIMAL_DPC, bufferbloat_grade := ''A+''\<rparr>, h)
                | Some (_, h) \<Rightarrow> Some (app, h)))"

section \<open>The buttons\<close>

definition on_launch_clicked ::
  "('w, 'f::{plus,minus,uminus,times,inverse,abs,ord}) ipc_env \<Rightarrow> ('w, 'f) ipc_env \<Rightarrow> ('w, 'f) client \<Rightarrow>
     'f AppWindow \<times> ('w, 'f) host \<Rightarrow> ('f AppWindow \<times> ('w, 'f) host) option" where
  "on_launch_clicked E K cl s =
     (case s of (app, h) \<Rightarrow>
        map_option (\<lambda>(r, h).
            (case r of
               Inr None \<Rightarrow> app
             | Inr (Some msg) \<Rightarrow> app\<lparr>test_status_msg := GameLaunched msg\<rparr>
             | Inl e \<Rightarrow> app\<lparr>test_status_msg := LaunchFailedText e\<rparr>, h))
          (trigger_launch_and_unload E K cl True (unload_gui_on_launch app) h))"

definition after_apply :: "'f IpcResponse \<Rightarrow> 'f AppWindow \<Rightarrow> 'f AppWindow" where
  "after_apply resp app =
     (case resp of
        OptimizationSuccess _ _ _ _ _ _ \<Rightarrow>
          app\<lparr>dpc_status := OPTIMAL_DPC, test_status_msg := StatusText ''Profile successfully committed to system.''\<rparr>
      | IpcError code cause \<Rightarrow> app\<lparr>test_status_msg := CommitFailed cause\<rparr>
      | _ \<Rightarrow> app)"

definition after_rollback :: "'f IpcResponse \<Rightarrow> 'f AppWindow \<Rightarrow> 'f AppWindow" where
  "after_rollback resp app =
     (case resp of
        RollbackSuccess _ \<Rightarrow>
          app\<lparr>dpc_status := ''DEFAULT (Unoptimized)'',
              test_status_msg := StatusText ''System successfully rolled back to baseline configuration.''\<rparr>
      | IpcError code cause \<Rightarrow> app\<lparr>test_status_msg := RollbackFailed cause\<rparr>
      | _ \<Rightarrow> app)"

definition after_bufferbloat :: "('w, 'f) client \<Rightarrow> 'f IpcResponse \<Rightarrow> 'f AppWindow \<Rightarrow> 'f AppWindow" where
  "after_bufferbloat cl resp app =
     (case resp of
        BufferbloatReportResponse report \<Rightarrow>
          app\<lparr>unloaded_ping := fixed1 cl (unloaded_ping_ms report) @ '' ms'',
              loaded_ping := fixed1 cl (loaded_ping_ms report) @ '' ms'',
              bufferbloat_delta := ''+'' @ fixed1 cl (bufferbloat_delta_ms report) @ '' ms'',
              bufferbloat_grade := grade_debug (grade report),
              test_status_msg := StatusText ''Bufferbloat analysis completed successfully.''\<rparr>
      | IpcError code cause \<Rightarrow> app\<lparr>test_status_msg := BufferbloatFailed cause\<rparr>
      | _ \<Rightarrow> app)"

definition driver_text :: "string \<Rightarrow> u64 \<Rightarrow> string" where
  "driver_text name us = name @ '' ('' @ dec_string (unat us) @ micro @ ''s)''"

definition after_latency :: "'f IpcResponse \<Rightarrow> 'f AppWindow \<Rightarrow> 'f AppWindow" where
  "after_latency resp app =
     (case resp of
        LatencyReportResponse report \<Rightarrow>
          let app = (case highest_dpc_driver report of
                       Some d \<Rightarrow> app\<lparr>shown_dpc_driver := driver_text d (highest_dpc_us report)\<rparr> | None \<Rightarrow> app);
              app = (case highest_isr_driver report of
                       Some d \<Rightarrow> app\<lparr>shown_isr_driver := driver_text d (highest_isr_us report)\<rparr> | None \<Rightarrow> app)
          in app\<lparr>test_status_msg := StatusText
                (''ETW profile complete. '' @ dec_string (unat (total_dpcs_captured report)) @
                 '' total DPCs captured. System is '' @
                 (if system_suitable_for_competitive report then ''COMPETITIVE READY'' else ''DEGRADED'') @ ''.'')\<rparr>
      | IpcError code cause \<Rightarrow> app\<lparr>test_status_msg := LatencyFailed cause\<rparr>
      | _ \<Rightarrow> app)"

text \<open>
  The two tests run in a thread of their own: the text shown first, then the request, then what the
  event loop does with the answer.
\<close>

definition clicked ::
  "('w, 'f::{plus,minus,uminus,times,inverse,abs,ord}) ipc_env \<Rightarrow> ('w, 'f) ipc_env \<Rightarrow> ('w, 'f) client \<Rightarrow> 'f IpcRequest \<Rightarrow>
     ('f IpcResponse \<Rightarrow> 'f AppWindow \<Rightarrow> 'f AppWindow) \<Rightarrow> 'f AppWindow \<times> ('w, 'f) host \<Rightarrow>
     ('f AppWindow \<times> ('w, 'f) host) option" where
  "clicked E K cl request show_answer s =
     (case s of (app, h) \<Rightarrow> map_option (\<lambda>(resp, h). (show_answer resp app, h)) (send_request E K cl request h))"

definition on_apply_all_clicked where
  "on_apply_all_clicked E K cl = clicked E K cl ApplyOptimizations after_apply"

definition on_rollback_all_clicked where
  "on_rollback_all_clicked E K cl = clicked E K cl RollbackOptimizations after_rollback"

definition on_run_bufferbloat_clicked where
  "on_run_bufferbloat_clicked E K cl s =
     (case s of (app, h) \<Rightarrow>
        clicked E K cl RunBufferbloatTest (after_bufferbloat cl)
          (app\<lparr>test_status_msg := StatusText ''Executing saturating UDP/TCP bufferbloat diagnostics...''\<rparr>, h))"

definition on_run_latency_profile_clicked where
  "on_run_latency_profile_clicked E K cl s =
     (case s of (app, h) \<Rightarrow>
        clicked E K cl (GetLatencyReport (lit (ie_f64 E) 1)) after_latency
          (app\<lparr>test_status_msg := StatusText ''Capturing ETW kernel DPC/ISR events for 1.0s...''\<rparr>, h))"

text \<open>\<^verbatim>\<open>main\<close> up to the event loop; \<open>False\<close> when the headless mode returns at once.\<close>

definition gui_main ::
  "('w, 'f::{plus,minus,uminus,times,inverse,abs,ord}) ipc_env \<Rightarrow> ('w, 'f) ipc_env \<Rightarrow> ('w, 'f) client \<Rightarrow> string list \<Rightarrow>
     'f AppWindow \<times> ('w, 'f) host \<Rightarrow> (bool \<times> 'f AppWindow \<times> ('w, 'f) host) option" where
  "gui_main E K cl args s =
     map_option (\<lambda>s. (\<not> (\<exists>a \<in> set args. a = ''--test-render'' \<or> a = ''--headless''), s)) (initialize_telemetry E K cl s)"

section \<open>Lemmas\<close>

lemma set_machine_simps [simp]:
  "own (set_machine m h) = (own h)\<lparr>machine_of := m\<rparr>" "core (set_machine m h) = core h"
  "gui_alive (set_machine m h) = gui_alive h"
  by (simp_all add: set_machine_def)

subsection \<open>A request over the pipe\<close>

text \<open>A daemon that listens on a pipe that works, with serializers that agree.\<close>

definition daemon_ready ::
  "('w, 'f) ipc_env \<Rightarrow> ('w, 'f) client \<Rightarrow> ('w, 'f) server \<Rightarrow> 'f IpcRequest \<Rightarrow> ('w, 'f) host \<Rightarrow> bool" where
  "daemon_ready K cl sv request h \<longleftrightarrow>
     core h = Some sv \<and> is_running sv \<and> listening sv \<and> pipe_opens cl (env (host_machine h)) \<and>
     pipe_duplicated cl (env (host_machine h)) \<and> (\<forall>bs. pipe_writes cl bs (env (host_machine h))) \<and>
     codec_ok (request_to_vec cl) (ie_decode K) \<and> codec_ok (ie_encode K) (response_from_str cl) \<and>
     request_to_vec cl request \<noteq> None"

lemma encoded_nonempty: "encode_message to_vec x = Some bs \<Longrightarrow> bs \<noteq> []"
  by (auto simp: encode_message_def)

lemma exchange_served:
  assumes ready: "daemon_ready K cl sv request h"
    and bs: "encode_message (request_to_vec cl) request = Some bs"
    and handled: "handle_request_authorized K request (is_client_elevated (ie_os K) (env (host_machine h)))
      ((daemon_of sv)\<lparr>machine_of := host_machine h\<rparr>) = Some (resp, d')"
    and answer: "encode_message (ie_encode K) resp = Some rbs"
  shows "\<exists>sv'. exchange K cl bs h = (pipe_reads cl rbs (env (machine_of d')), (set_machine (machine_of d') h)\<lparr>core := Some sv'\<rparr>) \<and>
    daemon_of sv' = d'"
proof -
  have r: "core h = Some sv" "is_running sv" "listening sv" "pipe_duplicated cl (env (host_machine h))"
    "codec_ok (request_to_vec cl) (ie_decode K)" using ready by (simp_all add: daemon_ready_def)
  have framed: "read_line bs = Some bs" "decode_message (ie_decode K) bs = Ok request"
    using framed_message [OF r(5) bs, of "[]"] by simp_all
  have "bs \<noteq> []" using encoded_nonempty [OF bs] .
  let ?sv = "sv\<lparr>daemon_of := (daemon_of sv)\<lparr>machine_of := host_machine h\<rparr>\<rparr>"
  have upd: "sv\<lparr>daemon_of := d, is_running := True\<rparr> = sv\<lparr>daemon_of := d\<rparr>" for d using r(2) by simp
  have "serve_turn K (client_turn cl bs (env (host_machine h))) ?sv =
      handle_line K (is_client_elevated (ie_os K) (env (host_machine h))) bs ?sv"
    using r framed \<open>bs \<noteq> []\<close> by (simp add: serve_turn_def client_turn_def upd)
  moreover obtain sv' where "handle_line K (is_client_elevated (ie_os K) (env (host_machine h))) bs ?sv = Some sv'"
    "daemon_of sv' = d'" "sent sv' = sent sv @ [resp]"
    using framed handled answer by (auto simp: handle_line_def Let_def)
  ultimately show ?thesis using r(1) answer by (intro exI [of _ sv']) (simp add: exchange_def Let_def)
qed

lemma pipe_request_served:
  assumes ready: "daemon_ready K cl sv request h"
    and handled: "handle_request_authorized K request (is_client_elevated (ie_os K) (env (host_machine h)))
      ((daemon_of sv)\<lparr>machine_of := host_machine h\<rparr>) = Some (resp, d')"
    and answer: "encode_message (ie_encode K) resp = Some rbs"
  shows "\<exists>sv'. daemon_of sv' = d' \<and> pipe_request K cl request h =
    ((case pipe_reads cl rbs (env (machine_of d')) of
        None \<Rightarrow> None
      | Some got \<Rightarrow> (case read_line got of None \<Rightarrow> None | Some line \<Rightarrow>
          (case decode_message (response_from_str cl) line of Inr x \<Rightarrow> Some x | Inl _ \<Rightarrow> None))),
     (set_machine (machine_of d') h)\<lparr>core := Some sv'\<rparr>)"
proof -
  obtain bs where bs: "encode_message (request_to_vec cl) request = Some bs"
    using ready by (auto simp: daemon_ready_def encode_message_def)
  from exchange_served [OF ready bs handled answer] ready show ?thesis
    by (auto simp: pipe_request_def bs daemon_ready_def split: option.split sum.split)
qed

lemma send_over_pipe:
  assumes "daemon_ready K cl sv request h"
  shows "send_request E K cl request h =
    (case pipe_request K cl request h of
       (Some resp, h') \<Rightarrow> Some (resp, h')
     | (None, h') \<Rightarrow> map_option (\<lambda>(resp, d). (resp, h'\<lparr>own := d\<rparr>)) (handle_request E request (own h')))"
proof -
  have "pipe_open cl h" using assms by (auto simp: daemon_ready_def pipe_open_def)
  then show ?thesis by (simp add: send_request_def Let_def case_prod_beta split: option.split)
qed

subsection \<open>Exits\<close>

lemma spawn_first_alive: "gui_alive (snd (spawn_first E K cl ps h)) = gui_alive h"
  by (induction E K cl ps h rule: spawn_first.induct)
     (auto simp: Let_def boot_core_def split: option.split prod.split)

lemma spawn_daemon_alive [simp]: "gui_alive (snd (spawn_daemon E K cl h)) = gui_alive h"
  by (simp add: spawn_daemon_def spawn_first_alive)

lemma exchange_alive: "gui_alive (snd (exchange K cl bs h)) = gui_alive h"
  by (auto simp: exchange_def Let_def split: option.split)

lemma pipe_request_alive: "gui_alive (snd (pipe_request K cl request h)) = gui_alive h"
  using exchange_alive [of K cl _ h]
  by (auto simp: pipe_request_def split: option.split prod.split sum.split) (metis snd_conv)+

lemma send_request_alive:
  assumes "send_request E K cl request h = Some (resp, h')"
  shows "gui_alive h' = gui_alive h"
proof -
  obtain b h1 where h1: "(if pipe_open cl h then (True, h)
      else case spawn_daemon E K cl h of (spawned, h) \<Rightarrow> (spawned \<and> pipe_open cl h, h)) = (b, h1)" by fastforce
  then have "gui_alive h1 = gui_alive h"
    by (metis (no_types, lifting) case_prod_beta snd_conv spawn_daemon_alive)
  moreover obtain a h2 where h2: "(if b then pipe_request K cl request h1 else (None, h1)) = (a, h2)" by fastforce
  then have "gui_alive h2 = gui_alive h1" using pipe_request_alive by (metis snd_conv)
  moreover have "gui_alive h' = gui_alive h2"
    using assms by (auto simp: send_request_def h1 h2 split: option.splits)
  ultimately show ?thesis by simp
qed

subsection \<open>Without a daemon\<close>

lemma nothing_to_spawn:
  assumes "\<forall>p \<in> set ps. \<not> fs_exists (ie_os E) p (host_machine h)"
  shows "spawn_first E K cl ps h = (False, h)"
  using assms by (induction ps) simp_all

lemma standalone_request:
  assumes "core h = None"
    and "\<forall>p \<in> set (daemon_candidates (ie_os E) cl (env (host_machine h))). \<not> fs_exists (ie_os E) p (host_machine h)"
  shows "spawn_daemon E K cl h = (False, h)"
    and "send_request E K cl request h = map_option (\<lambda>(resp, d). (resp, h\<lparr>own := d\<rparr>)) (handle_request E request (own h))"
  using assms by (simp_all add: spawn_daemon_def nothing_to_spawn send_request_def pipe_open_def)

lemma signal_active_length [simp]: "length (stop_signals (signal_active d)) = length (stop_signals d)"
  by (simp add: signal_active_def split: option.split)

lemma acknowledged_launch:
  assumes "launch_request E d = Some (GameLaunchAcknowledged st, d')"
  shows "active_stop d' = Some (length (stop_signals d)) \<and> \<not> stop_signals d' ! length (stop_signals d) \<and>
    length (supervisors d') = Suc (length (supervisors d))"
  using assms
  by (auto simp: launch_request_def on_machine_def Let_def case_prod_beta nth_append split: option.splits sum.splits)

section \<open>Properties\<close>


definition demo_answering :: "(world, xreal) ipc_env" where
  "demo_answering = (demo_ipc demo_os)\<lparr>ie_encode := (\<lambda>r. case r of Pong \<Rightarrow> Some [0x70] | _ \<Rightarrow> None)\<rparr>"

definition demo_gui :: "bool \<Rightarrow> (world, xreal) client" where
  "demo_gui lost =
     \<lparr>pipe_waits = (\<lambda>w. False), pipe_busy = (\<lambda>w. False), pipe_opens = (\<lambda>w. True), pipe_writes = (\<lambda>bs w. True),
      pipe_duplicated = (\<lambda>w. True), pipe_reads = (\<lambda>bs w. if lost then None else Some bs),
      current_exe = (\<lambda>w. None), core_boots = (\<lambda>w. False), request_to_vec = demo_to_vec,
      response_from_str = (\<lambda>s. if s = ''p'' then Some Pong else None), fixed1 = (\<lambda>x. [])\<rparr>"

definition demo_host :: "(world, xreal) server option \<Rightarrow> (world, xreal) host" where
  "demo_host c = \<lparr>own = daemon_of demo_server, core = c, gui_alive = True\<rparr>"

lemma demo_ready: "daemon_ready demo_answering (demo_gui lost) demo_server Ping (demo_host (Some demo_server))"
proof -
  have p: "ascii_string [0x70] = ''p''" by code_simp
  have "codec_ok (ie_encode demo_answering) (response_from_str (demo_gui lost))"
    using p by (auto simp: codec_ok_def demo_answering_def demo_gui_def split: IpcResponse.splits)
  moreover have "codec_ok (request_to_vec (demo_gui lost)) (ie_decode demo_answering)"
    using demo_codec_ok by (simp add: demo_gui_def demo_answering_def)
  ultimately show ?thesis
    by (simp add: daemon_ready_def) (simp add: demo_host_def demo_server_def demo_gui_def demo_to_vec_def)
qed


text \<open>
  C39: The client unloads only after an acknowledged launch. The hand-over ends the
  process exactly when it was asked to and the answer to the launch is an acknowledgement; on a
  refusal or any other answer it returns that as an error and the client stays.
\<close>

theorem unloads_only_when_acknowledged:
  assumes "gui_alive h" and "trigger_launch_and_unload E K cl auto_relaunch terminate_now h = Some (r, h')"
  shows "\<exists>resp h1. send_request E K cl (LaunchOptimizedGame auto_relaunch)
      (if \<not> is_daemon_running cl h then snd (spawn_daemon E K cl h) else h) = Some (resp, h1) \<and>
    (gui_alive h' \<longleftrightarrow> \<not> (terminate_now \<and> (\<exists>msg. resp = GameLaunchAcknowledged msg))) \<and>
    (case resp of
       GameLaunchAcknowledged msg \<Rightarrow> r = Ok (if terminate_now then None else Some msg)
     | IpcError code cause \<Rightarrow> r = Err (LaunchRefused code cause) \<and> h' = h1
     | _ \<Rightarrow> r = Err (UnexpectedResponse resp) \<and> h' = h1)"
proof -
  define h0 where "h0 = (if \<not> is_daemon_running cl h then snd (spawn_daemon E K cl h) else h)"
  obtain resp h1 where sent: "send_request E K cl (LaunchOptimizedGame auto_relaunch) h0 = Some (resp, h1)"
    using assms(2) by (auto simp: trigger_launch_and_unload_def Let_def h0_def [symmetric] split: option.splits)
  have "gui_alive h1" using send_request_alive [OF sent] assms(1) by (simp add: h0_def)
  then show ?thesis using assms(2) sent unfolding h0_def [symmetric]
    by (intro exI [of _ resp] exI [of _ h1])
       (cases resp; auto simp: trigger_launch_and_unload_def Let_def h0_def [symmetric])
qed


definition demo_game_os :: "world win32" where
  "demo_game_os = demo_os\<lparr>process_list := (\<lambda>w. Some [(7, VALORANT_BINARY_NAME)]),
     process_image := (\<lambda>p w. Some (win ''C:/Riot Games/VALORANT/live/ShooterGame/Binaries/Win64/VALORANT-Win64-Shipping.exe'')),
     process_open := (\<lambda>a p w. True), env_var := (\<lambda>n w. Some ''1''), fs_is_dir := (\<lambda>p w. False)\<rparr>"

lemma demo_game_running: "find_process_with_path demo_game_os VALORANT_BINARY_NAME m \<noteq> None"
proof -
  have "exe_of VALORANT_BINARY_NAME = to_lowercase VALORANT_BINARY_NAME"
    "is_legitimate_game_path VALORANT_BINARY_NAME (win ''C:/Riot Games/VALORANT/live/ShooterGame/Binaries/Win64/VALORANT-Win64-Shipping.exe'')"
    "win ''C:/Riot Games/VALORANT/live/ShooterGame/Binaries/Win64/VALORANT-Win64-Shipping.exe'' \<noteq> []"
    by code_simp+
  then show ?thesis
    by (simp add: find_process_with_path_def demo_game_os_def get_process_image_path_def Let_def)
qed

lemma launch_always_acknowledged:
  assumes "ensure_compliant (ie_os E) False (machine_of d) = Inr rep"
    and "detect_processor_topology (ie_hw E) (env (machine_of d)) = Some topology"
    and "\<And>js m e. fst (launch_game (ie_os E) js m) \<noteq> Inl e"
  shows "\<exists>msg d'. launch_request E d = Some (GameLaunchAcknowledged msg, d')"
  using assms by (auto simp: launch_request_def on_machine_def Let_def case_prod_beta split: sum.split)

lemma demo_launch: "\<exists>msg d'. launch_request (demo_ipc demo_game_os) d = Some (GameLaunchAcknowledged msg, d')"
proof -
  have "\<exists>rep. ensure_compliant demo_game_os False m = Inr rep" for m
    by (simp add: ensure_compliant_def Let_def demo_game_os_def)
  then obtain rep where "ensure_compliant demo_game_os False (machine_of d) = Inr rep" by blast
  moreover have "fst (launch_game demo_game_os js m) \<noteq> Inl e" for js m e
    using demo_game_running [of m] by (cases "find_process_with_path demo_game_os VALORANT_BINARY_NAME m") (auto simp: launch_game_def)
  moreover have "detect_processor_topology (ie_hw (demo_ipc demo_game_os)) w = Some (Err SizeQueryFailed)" for w
    by (simp add: detect_processor_topology_def demo_ipc_def)
  ultimately show ?thesis by (intro launch_always_acknowledged [where E = "demo_ipc demo_game_os"]) simp_all
qed


theorem unloads_only_when_acknowledged_witness:
  "\<exists>r h'. trigger_launch_and_unload (demo_ipc demo_game_os) (demo_ipc demo_game_os) (demo_gui False) True False (demo_host None) = Some (r, h') \<and>
     gui_alive h'"
proof -
  have none: "\<forall>p \<in> set ps. \<not> fs_exists (ie_os (demo_ipc demo_game_os)) p (host_machine (demo_host None))" for ps
    by (simp add: fs_exists_def demo_game_os_def demo_machine_def demo_host_def demo_server_def)
  obtain msg d' where l: "launch_request (demo_ipc demo_game_os) (own (demo_host None)) = Some (GameLaunchAcknowledged msg, d')"
    using demo_launch by blast
  then have "\<exists>r h'. trigger_launch_and_unload (demo_ipc demo_game_os) (demo_ipc demo_game_os) (demo_gui False) True False (demo_host None) = Some (r, h')"
    using standalone_request [OF _ none, where cl = "demo_gui False"]
    by (simp add: trigger_launch_and_unload_def demo_host_def Let_def handle_request_def handle_request_authorized_def is_privileged_def)
  then obtain r h' where t: "trigger_launch_and_unload (demo_ipc demo_game_os) (demo_ipc demo_game_os) (demo_gui False) True False (demo_host None) = Some (r, h')"
    by blast
  have "gui_alive (demo_host None)" by (simp add: demo_host_def)
  from unloads_only_when_acknowledged [OF this t] t show ?thesis by blast
qed

text \<open>
  What is shown at the start is not measured: as soon as the status request is answered, whatever it
  says, the window claims the best grade and an optimal latency.
\<close>

lemma shown_without_measuring:
  assumes "initialize_telemetry E K cl (app, h) = Some (app', h')"
    and "send_request E K cl GetStatus h = Some (Status v g optimized profile, h')"
  shows "bufferbloat_grade app' = grade_as_str APlus \<and> dpc_status app' = OPTIMAL_DPC"
  using assms by (auto simp: initialize_telemetry_def Let_def split: option.splits)

text \<open>The grade of a test is shown by its constructor, which for the best one is not its text.\<close>

lemma grade_shown_differs: "grade_debug g = grade_as_str g \<longleftrightarrow> g \<noteq> APlus"
  by (cases g) simp_all

end
