(* ===== verification/Frame_Capture.thy ===== *)
theory Frame_Capture
  imports Bench_Stats
begin

text \<open>
  \<^verbatim>\<open>benchmarking/frametimes.rs\<close>, \<^verbatim>\<open>etw_capture.rs\<close> and \<^verbatim>\<open>synthetic.rs\<close>: the collector of frame samples,
  the trace session that feeds it from the presentation events of the graphics stack, and the
  generator of synthetic frames.

  The calls that control a named trace session are the record \<open>etw\<close>. The events that the trace
  delivers between its opening and its closing are a list. Time stamps are performance-counter
  values, 64-bit signed in the code; differences are taken of two positive ones only.
\<close>

section \<open>The collector\<close>

record 'f FrameCollector =
  frames :: "'f FrameSample list"
  is_recording :: bool
  total_frames_captured :: u64

definition new_collector :: "'f FrameCollector" where
  "new_collector = \<lparr>frames = [], is_recording = False, total_frames_captured = 0\<rparr>"

definition start_collector :: "'f FrameCollector \<Rightarrow> 'f FrameCollector" where
  "start_collector c = c\<lparr>is_recording := True\<rparr>"

definition stop_collector :: "'f FrameCollector \<Rightarrow> 'f FrameCollector" where
  "stop_collector c = c\<lparr>is_recording := False\<rparr>"

definition record_sample :: "'f FrameSample \<Rightarrow> 'f FrameCollector \<Rightarrow> 'f FrameCollector" where
  "record_sample s c =
     (if \<not> is_recording c then c
      else c\<lparr>frames := frames c @ [s], total_frames_captured := total_frames_captured c + 1\<rparr>)"

definition collector_count :: "'f FrameCollector \<Rightarrow> nat" where
  "collector_count c = unat (total_frames_captured c)"

definition clear_collector :: "'f FrameCollector \<Rightarrow> 'f FrameCollector" where
  "clear_collector c = c\<lparr>frames := [], total_frames_captured := 0\<rparr>"

definition collector_metrics ::
  "'f::{plus,minus,times,inverse,ord} f64_lib \<Rightarrow> nat \<Rightarrow> 'f FrameCollector \<Rightarrow>
     (stats_error, 'f BenchmarkMetrics) rust_result option" where
  "collector_metrics F warmup_frames c = compute_metrics F (frames c) warmup_frames"

text \<open>In microseconds.\<close>

definition elapsed_duration :: "'f FrameCollector \<Rightarrow> u64" where
  "elapsed_duration c =
     (if length (frames c) < 2 then 0
      else
        let first_ts = frame_timestamp_us (hd (frames c)); last_ts = frame_timestamp_us (last (frames c))
        in if first_ts < last_ts then last_ts - first_ts else 0)"

section \<open>The trace session\<close>

definition DXGI_PROVIDER_GUID :: guid where
  "DXGI_PROVIDER_GUID = \<lparr>data1 = 0xCA11C036, data2 = 0x0102, data3 = 0x4A2D,
     data4 = [0xA6, 0xAD, 0xF0, 0x3C, 0xFE, 0xD5, 0xD3, 0xC9]\<rparr>"

definition D3D9_PROVIDER_GUID :: guid where
  "D3D9_PROVIDER_GUID = \<lparr>data1 = 0x783ACA0A, data2 = 0x790E, data3 = 0x4D7F,
     data4 = [0x84, 0x51, 0xAA, 0x85, 0x05, 0x11, 0xC6, 0xB9]\<rparr>"

definition DXGI_PRESENT_START_EVENT_ID :: u16 where "DXGI_PRESENT_START_EVENT_ID = 42"
definition D3D9_PRESENT_START_EVENT_ID :: u16 where "D3D9_PRESENT_START_EVENT_ID = 1"

text \<open>The name buffer of the session properties: at most 127 characters and a terminator.\<close>

definition session_name_buf :: "string \<Rightarrow> string" where
  "session_name_buf name = take 127 name"

record 'w etw =
  session_stop :: "string \<Rightarrow> 'w \<Rightarrow> 'w"
  session_start :: "string \<Rightarrow> 'w \<Rightarrow> (u32 \<times> u64) \<times> 'w"
  provider_control :: "u64 \<Rightarrow> guid \<Rightarrow> bool \<Rightarrow> 'w \<Rightarrow> 'w"
  session_trace :: "string \<Rightarrow> 'w \<Rightarrow> u64"

record present_event =
  present_provider :: guid
  present_id :: u16
  present_pid :: pid
  present_time :: int

record EtwCaptureContext =
  context_target_pid :: "pid option"
  last_present_qpc :: int
  present_frequency :: int

record FrameCaptureConfig =
  config_session_name :: string
  config_target_pid :: "pid option"

definition default_capture_config :: FrameCaptureConfig where
  "default_capture_config = \<lparr>config_session_name = ''ValOptFrameCaptureSession'', config_target_pid = None\<rparr>"

record 'f EtwFrameCaptureEngine =
  collector :: "'f FrameCollector"
  capture_active :: bool
  capture_session :: "u64 option"
  capture_trace :: "u64 option"
  capture_worker :: bool
  capture_session_name :: string
  capture_target_pid :: "pid option"
  events_captured :: u64
  events_dropped :: u64

definition new_engine :: "'f EtwFrameCaptureEngine" where
  "new_engine =
     \<lparr>collector = new_collector, capture_active = False, capture_session = None, capture_trace = None,
      capture_worker = False, capture_session_name = [], capture_target_pid = None,
      events_captured = 0, events_dropped = 0\<rparr>"

definition is_present_start :: "present_event \<Rightarrow> bool" where
  "is_present_start ev \<longleftrightarrow>
     present_provider ev = DXGI_PROVIDER_GUID \<and> present_id ev = DXGI_PRESENT_START_EVENT_ID \<or>
     present_provider ev = D3D9_PROVIDER_GUID \<and> present_id ev = D3D9_PRESENT_START_EVENT_ID"

definition ticks_to_ms :: "'f::{times,inverse} f64_lib \<Rightarrow> int \<Rightarrow> int \<Rightarrow> 'f" where
  "ticks_to_ms F freq ticks = (int_f64 F ticks * lit F 1000) / int_f64 F freq"

definition plausible_ms :: "'f::ord f64_lib \<Rightarrow> 'f \<Rightarrow> bool" where
  "plausible_ms F t \<longleftrightarrow> lit F 0.05 < t \<and> t < lit F 5000"

definition event_record_callback ::
  "'f::{times,inverse,ord} f64_lib \<Rightarrow> present_event \<Rightarrow> EtwCaptureContext \<times> 'f EtwFrameCaptureEngine \<Rightarrow>
     EtwCaptureContext \<times> 'f EtwFrameCaptureEngine" where
  "event_record_callback F ev s =
     (case s of (ctx, eng) \<Rightarrow>
        if (case context_target_pid ctx of Some target \<Rightarrow> present_pid ev \<noteq> target | None \<Rightarrow> False) then (ctx, eng)
        else if is_present_start ev then
          let qpc_now = present_time ev;
              last_qpc = last_present_qpc ctx;
              ctx = ctx\<lparr>last_present_qpc := qpc_now\<rparr>
          in if last_qpc > 0 \<and> qpc_now > last_qpc then
               let ms = ticks_to_ms F (present_frequency ctx) (qpc_now - last_qpc)
               in if plausible_ms F ms then
                    let frame_idx = events_captured eng + 1;
                        ts_us = f64_u64 F (int_f64 F qpc_now * lit F 1000000 / int_f64 F (present_frequency ctx))
                    in (ctx, eng\<lparr>events_captured := frame_idx,
                           collector := record_sample
                             \<lparr>frame_index = frame_idx, frame_timestamp_us = ts_us, ms_between_presents = ms,
                              ms_until_displayed = None, frame_time_ms = ms\<rparr> (collector eng)\<rparr>)
                  else (ctx, eng\<lparr>events_dropped := events_dropped eng + 1\<rparr>)
             else (ctx, eng)
        else (ctx, eng))"

datatype capture_error =
    CaptureActive
  | CaptureElevationRequired
  | NoPerformanceCounter
  | SessionStartFailed string u32
  | MetricsFailed stats_error

definition start_real_capture ::
  "'w win32 \<Rightarrow> 'w etw \<Rightarrow> FrameCaptureConfig \<Rightarrow> 'f EtwFrameCaptureEngine \<Rightarrow> 'w machine \<Rightarrow>
     (capture_error, EtwCaptureContext) rust_result \<times> 'f EtwFrameCaptureEngine \<times> 'w machine" where
  "start_real_capture os etw config eng m =
     (if capture_active eng then (Err CaptureActive, eng, m)
      else if \<not> is_elevation_available os m then (Err CaptureElevationRequired, eng, m)
      else
        let qpc_freq = opt_unwrap_or (qpc_frequency os (env m)) 0
        in if qpc_freq \<le> 0 then (Err NoPerformanceCounter, eng, m)
           else
             let name = session_name_buf (config_session_name config);
                 m = call_unit (StopSession name) (session_stop etw name) m;
                 ((start_err, handle), m) = call (StartSession name) (session_start etw name) m
             in if start_err \<noteq> 0 then (Err (SessionStartFailed (config_session_name config) start_err), eng, m)
                else
                  let m = call_unit (EnableProvider DXGI_PROVIDER_GUID True) (provider_control etw handle DXGI_PROVIDER_GUID True) m;
                      m = call_unit (EnableProvider D3D9_PROVIDER_GUID True) (provider_control etw handle D3D9_PROVIDER_GUID True) m
                  in (Ok \<lparr>context_target_pid = config_target_pid config, last_present_qpc = 0,
                          present_frequency = qpc_freq\<rparr>,
                      eng\<lparr>collector := start_collector (clear_collector (collector eng)), capture_active := True,
                          capture_session := Some handle, capture_session_name := config_session_name config,
                          capture_target_pid := config_target_pid config, capture_worker := True\<rparr>, m))"

text \<open>
  The worker thread: it opens the trace under the full name, lets the events call back until the
  trace is closed, and marks the capture inactive when it ends. The first component tells whether
  the trace is open.
\<close>

definition capture_worker_open :: "'w etw \<Rightarrow> 'w machine \<Rightarrow> 'f EtwFrameCaptureEngine \<Rightarrow> bool \<times> 'f EtwFrameCaptureEngine" where
  "capture_worker_open etw m eng =
     (let h = session_trace etw (capture_session_name eng) (env m)
      in if h \<noteq> 0 \<and> h \<noteq> 0xFFFFFFFFFFFFFFFF then (True, eng\<lparr>capture_trace := Some h\<rparr>)
         else (False, eng\<lparr>capture_active := False\<rparr>))"

definition capture_process_trace ::
  "'f::{times,inverse,ord} f64_lib \<Rightarrow> present_event list \<Rightarrow> EtwCaptureContext \<Rightarrow> 'f EtwFrameCaptureEngine \<Rightarrow>
     'f EtwFrameCaptureEngine" where
  "capture_process_trace F events ctx eng = snd (fold (event_record_callback F) events (ctx, eng))"

definition stop_capture ::
  "'w win32 \<Rightarrow> 'w etw \<Rightarrow> 'f EtwFrameCaptureEngine \<Rightarrow> 'w machine \<Rightarrow> 'f EtwFrameCaptureEngine \<times> 'w machine" where
  "stop_capture os etw eng m =
     (if \<not> capture_active eng then (eng, m)
      else
        let eng = eng\<lparr>capture_active := False, collector := stop_collector (collector eng)\<rparr>;
            (eng, m) = (case capture_trace eng of
                          Some h \<Rightarrow> (eng\<lparr>capture_trace := None\<rparr>, call_unit (CloseTrace h) (trace_close os h) m)
                        | None \<Rightarrow> (eng, m));
            (eng, m) = (case capture_session eng of
                          Some handle \<Rightarrow>
                            let name = session_name_buf (capture_session_name eng);
                                m = call_unit (EnableProvider DXGI_PROVIDER_GUID False) (provider_control etw handle DXGI_PROVIDER_GUID False) m;
                                m = call_unit (EnableProvider D3D9_PROVIDER_GUID False) (provider_control etw handle D3D9_PROVIDER_GUID False) m;
                                m = call_unit (StopSession name) (session_stop etw name) m
                            in (eng\<lparr>capture_session := None\<rparr>, m)
                        | None \<Rightarrow> (eng, m))
        in (eng\<lparr>capture_worker := False\<rparr>, m))"

definition calculate_metrics_with_env ::
  "'f::{plus,minus,times,inverse,ord} f64_lib \<Rightarrow> nat \<Rightarrow> 'f EnvironmentalTelemetry option \<Rightarrow>
     'f EtwFrameCaptureEngine \<Rightarrow> (stats_error, 'f BenchmarkMetrics) rust_result option" where
  "calculate_metrics_with_env F warmup_frames environment eng =
     (let snap = frames (collector eng);
          prov = \<lparr>telemetry_source = RealEtwPresentation, collection_mechanism = DxgiAndD3d9PresentStart,
                  is_directly_measured = True, sample_count = length snap, dropped_events = events_dropped eng\<rparr>
      in compute_metrics_with_provenance F snap warmup_frames prov environment)"

definition capture_duration_blocking ::
  "'f::{plus,minus,times,inverse,ord} f64_lib \<Rightarrow> 'w win32 \<Rightarrow> 'w etw \<Rightarrow> FrameCaptureConfig \<Rightarrow> nat \<Rightarrow> nat \<Rightarrow>
     'f EnvironmentalTelemetry option \<Rightarrow> present_event list \<Rightarrow> 'f EtwFrameCaptureEngine \<Rightarrow> 'w machine \<Rightarrow>
     ((capture_error, 'f BenchmarkMetrics) rust_result \<times> 'f EtwFrameCaptureEngine \<times> 'w machine) option" where
  "capture_duration_blocking F os etw config duration_ms warmup_frames environment events eng m =
     (case start_real_capture os etw config eng m of
        (Inl e, eng, m) \<Rightarrow> Some (Err e, eng, m)
      | (Inr ctx, eng, m) \<Rightarrow>
          let (opened, eng) = capture_worker_open etw m eng;
              eng = (if opened then capture_process_trace F events ctx eng else eng);
              m = sleep os duration_ms m;
              (eng, m) = stop_capture os etw eng m
          in do {
               metrics \<leftarrow> calculate_metrics_with_env F warmup_frames environment eng;
               Some (case metrics of Inl e \<Rightarrow> Err (MetricsFailed e) | Inr v \<Rightarrow> Ok v, eng, m)
             })"

section \<open>Synthetic frames\<close>

record 'f MockDirectXApp =
  target_fps :: 'f
  stutter_interval :: nat
  stutter_duration_ms :: 'f

definition mock_frame_time :: "'f::inverse f64_lib \<Rightarrow> 'f MockDirectXApp \<Rightarrow> nat \<Rightarrow> 'f" where
  "mock_frame_time F app frame_idx =
     (if stutter_interval app > 0 \<and> frame_idx mod stutter_interval app = 0 then stutter_duration_ms app
      else lit F 1000 / target_fps app)"

text \<open>The frames of virtual time, one after the other.\<close>

fun run_frames_from ::
  "'f::{times,inverse} f64_lib \<Rightarrow> 'f MockDirectXApp \<Rightarrow> nat \<Rightarrow> nat \<Rightarrow> u64 \<Rightarrow> ('f FrameSample \<Rightarrow> 's \<Rightarrow> 's) \<Rightarrow> 's \<Rightarrow> 's" where
  "run_frames_from F app frame_idx 0 cumulative_us on_frame s = s"
| "run_frames_from F app frame_idx (Suc left) cumulative_us on_frame s =
     (let t = mock_frame_time F app frame_idx;
          cumulative_us = cumulative_us + f64_u64 F (t * lit F 1000)
      in run_frames_from F app (frame_idx + 1) left cumulative_us on_frame
           (on_frame \<lparr>frame_index = of_nat frame_idx, frame_timestamp_us = cumulative_us, ms_between_presents = t,
                      ms_until_displayed = None, frame_time_ms = t\<rparr> s))"

definition run_frames ::
  "'f::{times,inverse} f64_lib \<Rightarrow> 'f MockDirectXApp \<Rightarrow> nat \<Rightarrow> ('f FrameSample \<Rightarrow> 's \<Rightarrow> 's) \<Rightarrow> 's \<Rightarrow> 's" where
  "run_frames F app n on_frame s = run_frames_from F app 1 n 0 on_frame s"

section \<open>The collector counts what it keeps\<close>

definition collector_ok :: "'f FrameCollector \<Rightarrow> bool" where
  "collector_ok c \<longleftrightarrow> total_frames_captured c = of_nat (length (frames c))"

lemma collector_ok_ops [simp]:
  "collector_ok new_collector" "collector_ok (clear_collector c)"
  "collector_ok c \<Longrightarrow> collector_ok (start_collector c)" "collector_ok c \<Longrightarrow> collector_ok (stop_collector c)"
  "collector_ok c \<Longrightarrow> collector_ok (record_sample s c)"
  by (simp_all add: collector_ok_def new_collector_def clear_collector_def start_collector_def stop_collector_def record_sample_def)

datatype 'f collector_op = StartOp | StopOp | RecordOp "'f FrameSample" | ClearOp

fun collector_apply :: "'f collector_op \<Rightarrow> 'f FrameCollector \<Rightarrow> 'f FrameCollector" where
  "collector_apply StartOp = start_collector"
| "collector_apply StopOp = stop_collector"
| "collector_apply (RecordOp s) = record_sample s"
| "collector_apply ClearOp = clear_collector"

text \<open>The samples kept by a sequence of operations: those recorded while active since the last clear.\<close>

fun kept :: "bool \<Rightarrow> 'f collector_op list \<Rightarrow> 'f FrameSample list" where
  "kept active [] = []"
| "kept active (StartOp # ops) = kept True ops"
| "kept active (StopOp # ops) = kept False ops"
| "kept active (RecordOp s # ops) = (if active \<and> ClearOp \<notin> set ops then s # kept active ops else kept active ops)"
| "kept active (ClearOp # ops) = kept active ops"

lemma collector_run:
  "frames (fold collector_apply ops c) = (if ClearOp \<in> set ops then [] else frames c) @ kept (is_recording c) ops"
proof (induction ops arbitrary: c)
  case (Cons op ops)
  then show ?case
    by (cases op) (auto simp: start_collector_def stop_collector_def record_sample_def clear_collector_def)
qed simp

lemma collector_run_ok: "collector_ok c \<Longrightarrow> collector_ok (fold collector_apply ops c)"
proof (induction ops arbitrary: c)
  case (Cons op ops)
  then show ?case by (cases op) simp_all
qed simp

text \<open>
  \<^verbatim>\<open>clear\<close> is not one step: it empties the list under the lock and resets the counter after
  releasing it. A sample recorded between the two is kept and not counted.
\<close>

definition clear_frames :: "'f FrameCollector \<Rightarrow> 'f FrameCollector" where
  "clear_frames c = c\<lparr>frames := []\<rparr>"

definition reset_count :: "'f FrameCollector \<Rightarrow> 'f FrameCollector" where
  "reset_count c = c\<lparr>total_frames_captured := 0\<rparr>"

lemma clear_in_steps: "clear_collector c = reset_count (clear_frames c)"
  by (simp add: clear_collector_def reset_count_def clear_frames_def)

lemma clear_races_with_record:
  "is_recording c \<Longrightarrow> frames (reset_count (record_sample s (clear_frames c))) = [s] \<and>
     collector_count (reset_count (record_sample s (clear_frames c))) = 0"
  by (simp add: clear_frames_def reset_count_def record_sample_def collector_count_def)

section \<open>What a capture records\<close>

definition target_present :: "pid option \<Rightarrow> present_event \<Rightarrow> bool" where
  "target_present target ev \<longleftrightarrow> is_present_start ev \<and> (case target of Some p \<Rightarrow> present_pid ev = p | None \<Rightarrow> True)"

definition start_times :: "pid option \<Rightarrow> present_event list \<Rightarrow> int list" where
  "start_times target events = map present_time (filter (target_present target) events)"

text \<open>The pairs of successive presents with a positive distance, from a first time on.\<close>

definition intervals :: "int \<Rightarrow> int list \<Rightarrow> (int \<times> int) list" where
  "intervals first ts = filter (\<lambda>(a, b). 0 < a \<and> a < b) (zip (first # ts) ts)"

definition plausible_interval :: "'f::{times,inverse,ord} f64_lib \<Rightarrow> int \<Rightarrow> int \<times> int \<Rightarrow> bool" where
  "plausible_interval F freq p = plausible_ms F (ticks_to_ms F freq (snd p - fst p))"

fun samples_of :: "'f::{times,inverse} f64_lib \<Rightarrow> int \<Rightarrow> u64 \<Rightarrow> (int \<times> int) list \<Rightarrow> 'f FrameSample list" where
  "samples_of F freq n [] = []"
| "samples_of F freq n ((a, b) # ps) =
     (let ms = ticks_to_ms F freq (b - a)
      in \<lparr>frame_index = n + 1, frame_timestamp_us = f64_u64 F (int_f64 F b * lit F 1000000 / int_f64 F freq),
          ms_between_presents = ms, ms_until_displayed = None, frame_time_ms = ms\<rparr> # samples_of F freq (n + 1) ps)"

lemma samples_of_simps [simp]:
  "length (samples_of F freq n ps) = length ps"
  "map frame_time_ms (samples_of F freq n ps) = map (\<lambda>(a, b). ticks_to_ms F freq (b - a)) ps"
  "map frame_index (samples_of F freq n ps) = map (\<lambda>k. n + of_nat (Suc k)) [0..<length ps]"
proof -
  show "length (samples_of F freq n ps) = length ps" by (induction ps arbitrary: n) (auto simp: Let_def)
  show "map frame_time_ms (samples_of F freq n ps) = map (\<lambda>(a, b). ticks_to_ms F freq (b - a)) ps"
    by (induction ps arbitrary: n) (auto simp: Let_def)
  show "map frame_index (samples_of F freq n ps) = map (\<lambda>k. n + of_nat (Suc k)) [0..<length ps]"
  proof (induction ps arbitrary: n)
    case (Cons p ps)
    have "[0..<length (p # ps)] = 0 # map Suc [0..<length ps]" by (simp add: map_Suc_upt upt_conv_Cons del: upt_Suc)
    then show ?case using Cons [of "n + 1"] by (cases p) (simp add: Let_def comp_def add.assoc)
  qed simp
qed

lemma intervals_Cons: "intervals first (t # ts) = (if 0 < first \<and> first < t then [(first, t)] else []) @ intervals t ts"
  by (simp add: intervals_def)

lemma callback_cases:
  "event_record_callback F ev (ctx, eng) =
     (if \<not> target_present (context_target_pid ctx) ev then (ctx, eng)
      else (ctx\<lparr>last_present_qpc := present_time ev\<rparr>,
        if intervals (last_present_qpc ctx) [present_time ev] = [] then eng
        else if plausible_interval F (present_frequency ctx) (last_present_qpc ctx, present_time ev)
        then eng\<lparr>events_captured := events_captured eng + 1,
          collector := record_sample (hd (samples_of F (present_frequency ctx) (events_captured eng)
            [(last_present_qpc ctx, present_time ev)])) (collector eng)\<rparr>
        else eng\<lparr>events_dropped := events_dropped eng + 1\<rparr>))"
  by (auto simp: event_record_callback_def target_present_def intervals_def plausible_interval_def Let_def split: option.splits)

definition present_intervals :: "EtwCaptureContext \<Rightarrow> present_event list \<Rightarrow> (int \<times> int) list" where
  "present_intervals ctx events = intervals (last_present_qpc ctx) (start_times (context_target_pid ctx) events)"

definition frame_intervals :: "'f::{times,inverse,ord} f64_lib \<Rightarrow> EtwCaptureContext \<Rightarrow> present_event list \<Rightarrow> (int \<times> int) list" where
  "frame_intervals F ctx events = filter (plausible_interval F (present_frequency ctx)) (present_intervals ctx events)"

lemma capture_run:
  assumes "is_recording (collector eng)"
  shows "capture_process_trace F events ctx eng =
    eng\<lparr>collector := (collector eng)\<lparr>frames := frames (collector eng) @ samples_of F (present_frequency ctx) (events_captured eng) (frame_intervals F ctx events),
          total_frames_captured := total_frames_captured (collector eng) + of_nat (length (frame_intervals F ctx events))\<rparr>,
        events_captured := events_captured eng + of_nat (length (frame_intervals F ctx events)),
        events_dropped := events_dropped eng + of_nat (length (present_intervals ctx events) - length (frame_intervals F ctx events))\<rparr>"
  using assms(1)
proof (induction events arbitrary: ctx eng)
  case Nil
  then show ?case by (simp add: capture_process_trace_def present_intervals_def frame_intervals_def start_times_def intervals_def)
next
  case (Cons ev events)
  have le: "length (frame_intervals F ctx events) \<le> length (present_intervals ctx events)" for ctx events by (simp add: frame_intervals_def)
  show ?case
  proof (cases "target_present (context_target_pid ctx) ev")
    case False
    then show ?thesis using Cons
      by (simp add: capture_process_trace_def callback_cases present_intervals_def frame_intervals_def start_times_def)
  next
    case True
    define ctx' where "ctx' = ctx\<lparr>last_present_qpc := present_time ev\<rparr>"
    have split: "present_intervals ctx (ev # events) = intervals (last_present_qpc ctx) [present_time ev] @ present_intervals ctx' events"
      "frame_intervals F ctx (ev # events) = filter (plausible_interval F (present_frequency ctx)) (intervals (last_present_qpc ctx) [present_time ev]) @ frame_intervals F ctx' events"
      using True by (simp_all add: present_intervals_def frame_intervals_def ctx'_def start_times_def intervals_Cons intervals_def)
    show ?thesis
    proof (cases "intervals (last_present_qpc ctx) [present_time ev] = []")
      case none: True
      then show ?thesis using True Cons.IH [OF Cons.prems, of ctx'] split
        by (simp add: capture_process_trace_def callback_cases ctx'_def)
    next
      case some: False
      then have p: "intervals (last_present_qpc ctx) [present_time ev] = [(last_present_qpc ctx, present_time ev)]"
        by (auto simp: intervals_def split: if_splits)
      show ?thesis
      proof (cases "plausible_interval F (present_frequency ctx) (last_present_qpc ctx, present_time ev)")
        case ok: True
        let ?e = "eng\<lparr>events_captured := events_captured eng + 1,
          collector := record_sample (hd (samples_of F (present_frequency ctx) (events_captured eng)
            [(last_present_qpc ctx, present_time ev)])) (collector eng)\<rparr>"
        have "is_recording (collector ?e)" using Cons.prems by (simp add: record_sample_def)
        then show ?thesis using True some ok p Cons.IH [of ?e ctx'] Cons.prems split
          by (simp add: capture_process_trace_def callback_cases ctx'_def record_sample_def Let_def add.assoc)
      next
        case bad: False
        let ?e = "eng\<lparr>events_dropped := events_dropped eng + 1\<rparr>"
        have "is_recording (collector ?e)" using Cons.prems by simp
        then show ?thesis using True some bad p Cons.IH [of ?e ctx'] split le [of ctx' events]
          by (simp add: capture_process_trace_def callback_cases ctx'_def Suc_diff_le add.assoc)
      qed
    qed
  qed
qed

section \<open>The life of a capture session\<close>

definition valid_trace :: "u64 \<Rightarrow> bool" where
  "valid_trace h \<longleftrightarrow> h \<noteq> 0 \<and> h \<noteq> 0xFFFFFFFFFFFFFFFF"

definition session_begun :: "string \<Rightarrow> effect list" where
  "session_begun name =
     [StopSession name, StartSession name, EnableProvider DXGI_PROVIDER_GUID True, EnableProvider D3D9_PROVIDER_GUID True]"

definition session_ended :: "u64 \<Rightarrow> string \<Rightarrow> effect list" where
  "session_ended h name =
     [CloseTrace h, EnableProvider DXGI_PROVIDER_GUID False, EnableProvider D3D9_PROVIDER_GUID False, StopSession name]"

lemma start_capture_ok:
  assumes "start_real_capture os etw config eng m = (Ok ctx, eng1, m1)"
  shows "\<not> capture_active eng" "is_elevation_available os m" "is_recording (collector eng1)" "frames (collector eng1) = []"
    "capture_active eng1" "capture_session_name eng1 = config_session_name config" "\<exists>h. capture_session eng1 = Some h"
    "events_captured eng1 = events_captured eng" "events_dropped eng1 = events_dropped eng"
    "capture_trace eng1 = capture_trace eng" "total_frames_captured (collector eng1) = 0"
    "ctx = \<lparr>context_target_pid = config_target_pid config, last_present_qpc = 0, present_frequency = present_frequency ctx\<rparr>"
    "0 < present_frequency ctx" "log m1 = log m @ session_begun (session_name_buf (config_session_name config))"
  using assms
  by (auto simp: start_real_capture_def Let_def start_collector_def clear_collector_def session_begun_def call_def
      split: if_splits prod.splits)

lemma start_capture_failed:
  assumes "start_real_capture os etw config eng m = (Err e, eng1, m1)"
  shows "eng1 = eng" and
    "log m1 = log m @ (case e of SessionStartFailed _ _ \<Rightarrow>
       [StopSession (session_name_buf (config_session_name config)), StartSession (session_name_buf (config_session_name config))]
       | _ \<Rightarrow> [])"
  using assms by (auto simp: start_real_capture_def Let_def call_def split: if_splits prod.splits)

lemma capture_process_trace_keeps [simp]:
  assumes "is_recording (collector eng)"
  shows "capture_active (capture_process_trace F events ctx eng) = capture_active eng"
    "capture_trace (capture_process_trace F events ctx eng) = capture_trace eng"
    "capture_session (capture_process_trace F events ctx eng) = capture_session eng"
    "capture_session_name (capture_process_trace F events ctx eng) = capture_session_name eng"
  using capture_run [OF assms, of F events ctx] by simp_all

lemma stop_capture_log:
  assumes "capture_active eng" and "capture_trace eng = Some h" and "capture_session eng = Some s"
  shows "log (snd (stop_capture os etw eng m)) = log m @ session_ended h (session_name_buf (capture_session_name eng))"
    and "\<not> capture_active (fst (stop_capture os etw eng m))" "\<not> is_recording (collector (fst (stop_capture os etw eng m)))"
  using assms by (simp_all add: stop_capture_def session_ended_def Let_def stop_collector_def)

lemma capture_lifecycle:
  assumes run: "capture_duration_blocking F os etw config d w e events eng m = Some (r, eng', m')"
    and idle: "capture_trace eng = None"
  shows "case start_real_capture os etw config eng m of
      (Inl err, _, m1) \<Rightarrow> r = Err err \<and> eng' = eng \<and> m' = m1
    | (Inr ctx, eng1, m1) \<Rightarrow>
        let h = session_trace etw (config_session_name config) (env m1);
            name = session_name_buf (config_session_name config)
        in if valid_trace h
           then log m' = log m @ session_begun name @ session_ended h name \<and>
                \<not> capture_active eng' \<and> \<not> is_recording (collector eng')
           else log m' = log m @ session_begun name \<and> \<not> capture_active eng' \<and> is_recording (collector eng')"
proof (cases "start_real_capture os etw config eng m")
  case (fields res eng1 m1)
  show ?thesis
  proof (cases res)
    case (Inl err)
    then show ?thesis using run fields start_capture_failed(1) [of os etw config eng m err eng1 m1]
      by (simp add: capture_duration_blocking_def)
  next
    case (Inr ctx)
    note s = start_capture_ok [OF fields [unfolded Inr]]
    let ?h = "session_trace etw (config_session_name config) (env m1)"
    obtain sh where sh: "capture_session eng1 = Some sh" using s(7) by blast
    show ?thesis
    proof (cases "valid_trace ?h")
      case True
      let ?e = "eng1\<lparr>capture_trace := Some ?h\<rparr>"
      have "is_recording (collector ?e)" using s(3) by simp
      note keeps = capture_process_trace_keeps [OF this, of F events ctx]
      note st = stop_capture_log [of "capture_process_trace F events ctx ?e" ?h sh os etw "sleep os d m1"]
      from run fields Inr True s(6) have "eng' = fst (stop_capture os etw (capture_process_trace F events ctx ?e) (sleep os d m1))"
        "m' = snd (stop_capture os etw (capture_process_trace F events ctx ?e) (sleep os d m1))"
        by (auto simp: capture_duration_blocking_def capture_worker_open_def valid_trace_def Let_def bind_eq_Some_conv
            split: prod.splits)
      then show ?thesis using True fields Inr st keeps s(5,6,14) sh by (simp add: Let_def)
    next
      case False
      then have "eng' = eng1\<lparr>capture_active := False\<rparr>" "m' = sleep os d m1"
        using run fields Inr s(6) by (auto simp: capture_duration_blocking_def capture_worker_open_def stop_capture_def
            valid_trace_def Let_def bind_eq_Some_conv split: prod.splits)
      then show ?thesis using False fields Inr s(3,14) by (simp add: Let_def)
    qed
  qed
qed

section \<open>Properties\<close>

text \<open>
  Whatever the sequence of operations on a new collector, it holds the samples
  recorded while it was active since the last clear, in their order, and its counter is their number
  (modulo the width of the counter).
\<close>

theorem collector_keeps_recorded:
  "frames (fold collector_apply ops new_collector) = kept False ops \<and>
   total_frames_captured (fold collector_apply ops new_collector) = of_nat (length (kept False ops))"
proof -
  have "frames (fold collector_apply ops new_collector) = kept False ops"
    using collector_run [of ops new_collector] by (simp add: new_collector_def)
  moreover have "collector_ok (fold collector_apply ops new_collector)" by (simp add: collector_run_ok)
  ultimately show ?thesis by (simp add: collector_ok_def)
qed

text \<open>
  C29: A capture records one frame per pair of successive present-start events of the
  target process that are a positive and plausible time apart, for any arithmetic: nothing of other
  processes, of other providers or of present-stop events; the frame times are the distances, the
  frame numbers continue from the engine's counter, and the implausible pairs are counted as dropped.
\<close>

theorem capture_frames_exact:
  assumes start: "start_real_capture os etw config eng m = (Ok ctx, eng1, m1)"
    and opened: "capture_worker_open etw m1 eng1 = (True, eng2)"
  shows "\<exists>freq ps qs. freq = present_frequency ctx \<and> 0 < freq \<and> ps = intervals 0 (start_times (config_target_pid config) events) \<and>
    qs = filter (plausible_interval F freq) ps \<and>
    map frame_time_ms (frames (collector (capture_process_trace F events ctx eng2))) =
      map (\<lambda>(a, b). ticks_to_ms F freq (b - a)) qs \<and>
    map frame_index (frames (collector (capture_process_trace F events ctx eng2))) =
      map (\<lambda>k. events_captured eng + of_nat (Suc k)) [0..<length qs] \<and>
    events_dropped (capture_process_trace F events ctx eng2) = events_dropped eng + of_nat (length ps - length qs)"
proof -
  note s = start_capture_ok [OF start]
  have eng2: "collector eng2 = collector eng1" "events_captured eng2 = events_captured eng1" "events_dropped eng2 = events_dropped eng1"
    using opened by (auto simp: capture_worker_open_def Let_def split: if_splits)
  have ctx: "context_target_pid ctx = config_target_pid config" "last_present_qpc ctx = 0" using s(12) by (metis EtwCaptureContext.select_convs(1,2))+
  have "is_recording (collector eng2)" using s(3) eng2 by simp
  note run = capture_run [OF this, of F events ctx]
  have ps: "present_intervals ctx events = intervals 0 (start_times (config_target_pid config) events)"
    using ctx by (simp add: present_intervals_def)
  show ?thesis
    by (rule exI [of _ "present_frequency ctx"], rule exI [of _ "present_intervals ctx events"],
        rule exI [of _ "frame_intervals F ctx events"])
      (use s(4,8,9,13) eng2 ps in \<open>simp add: run frame_intervals_def del: of_nat_diff\<close>)
qed

definition demo_capture_os :: "world win32" where
  "demo_capture_os = demo_os\<lparr>token_elevation := (\<lambda>_. Some 1), qpc_frequency := (\<lambda>_. Some 1000)\<rparr>"

definition demo_etw :: "u64 \<Rightarrow> world etw" where
  "demo_etw h = \<lparr>session_stop = (\<lambda>_ w. w), session_start = (\<lambda>_ w. ((0, 7), w)), provider_control = (\<lambda>_ _ _ w. w),
     session_trace = (\<lambda>_ _. h)\<rparr>"

definition demo_present :: "pid \<Rightarrow> u16 \<Rightarrow> int \<Rightarrow> present_event" where
  "demo_present p i t = \<lparr>present_provider = DXGI_PROVIDER_GUID, present_id = i, present_pid = p, present_time = t\<rparr>"

definition demo_capture_config :: FrameCaptureConfig where
  "demo_capture_config = \<lparr>config_session_name = ''bench'', config_target_pid = Some 9\<rparr>"

lemma demo_start:
  "\<exists>ctx eng1 m1. start_real_capture demo_capture_os (demo_etw h) demo_capture_config (new_engine :: xreal EtwFrameCaptureEngine) demo_machine = (Ok ctx, eng1, m1)"
  by (simp add: start_real_capture_def demo_capture_os_def demo_etw_def is_elevation_available_def new_engine_def call_def
      opt_unwrap_or_def Let_def)

theorem capture_frames_exact_witness:
  "\<exists>ctx eng1 m1 eng2. start_real_capture demo_capture_os (demo_etw 5) demo_capture_config (new_engine :: xreal EtwFrameCaptureEngine) demo_machine = (Ok ctx, eng1, m1) \<and>
     capture_worker_open (demo_etw 5) m1 eng1 = (True, eng2) \<and>
     map frame_time_ms (frames (collector (capture_process_trace exact
       [demo_present 9 42 100, demo_present 9 43 101, demo_present 8 42 103, demo_present 9 42 104] ctx eng2))) = [Fin 4]"
proof -
  obtain ctx eng1 m1 where s: "start_real_capture demo_capture_os (demo_etw 5) demo_capture_config
      (new_engine :: xreal EtwFrameCaptureEngine) demo_machine = (Ok ctx, eng1, m1)" using demo_start by blast
  obtain eng2 where o: "capture_worker_open (demo_etw 5) m1 eng1 = (True, eng2)"
    by (simp add: capture_worker_open_def demo_etw_def)
  have "start_times (Some 9) [demo_present 9 42 100, demo_present 9 43 101, demo_present 8 42 103, demo_present 9 42 104] = [100, 104]"
    by (simp add: start_times_def demo_present_def target_present_def is_present_start_def
        DXGI_PROVIDER_GUID_def D3D9_PROVIDER_GUID_def DXGI_PRESENT_START_EVENT_ID_def D3D9_PRESENT_START_EVENT_ID_def)
  moreover have "present_frequency ctx = 1000"
    using s by (auto simp: start_real_capture_def demo_capture_os_def demo_etw_def is_elevation_available_def new_engine_def
        call_def opt_unwrap_or_def Let_def)
  ultimately show ?thesis
    using s o capture_frames_exact [OF s o, of "[demo_present 9 42 100, demo_present 9 43 101, demo_present 8 42 103, demo_present 9 42 104]" exact]
    by (auto simp: demo_capture_config_def intervals_def plausible_interval_def plausible_ms_def ticks_to_ms_def)
qed



end
