(* ===== verification/Ab_Runner.thy ===== *)
theory Ab_Runner
  imports Frame_Capture
begin

text \<open>
  \<^verbatim>\<open>benchmarking/ab_runner.rs\<close>: the telemetry of the host, and the benchmark that alternates baseline
  and optimized trials, live or synthetic, and compares them.

  The system status calls are the record \<open>host_status\<close>; a file time is its high and low half. The
  callback that switches the profile is an argument, as in the code, and so are the events that the
  trace delivers in each trial. Leaving the scope of a capture engine stops it again, which does
  nothing to an engine that a timed capture has been through.
\<close>

section \<open>Host telemetry\<close>

type_synonym filetime = "u32 \<times> u32"

record 'w host_status =
  memory_load :: "'w \<Rightarrow> u32 option"
  ac_line_status :: "'w \<Rightarrow> u8 option"
  system_times :: "'w \<Rightarrow> (filetime \<times> filetime \<times> filetime) option"

definition filetime_to_u64 :: "filetime \<Rightarrow> u64" where
  "filetime_to_u64 ft = push_bit 32 (ucast (fst ft)) OR ucast (snd ft)"

definition saturating_sub :: "u64 \<Rightarrow> u64 \<Rightarrow> u64" where
  "saturating_sub a b = (if b \<le> a then a - b else 0)"

text \<open>The share of the time between two readings that was not idle, in percent.\<close>

definition cpu_share ::
  "'f::{times,inverse} f64_lib \<Rightarrow> filetime \<times> filetime \<times> filetime \<Rightarrow> filetime \<times> filetime \<times> filetime \<Rightarrow> 'f" where
  "cpu_share F before after =
     (case (before, after) of ((idle1, kernel1, user1), (idle2, kernel2, user2)) \<Rightarrow>
        let idle = saturating_sub (filetime_to_u64 idle2) (filetime_to_u64 idle1);
            kernel = saturating_sub (filetime_to_u64 kernel2) (filetime_to_u64 kernel1);
            user = saturating_sub (filetime_to_u64 user2) (filetime_to_u64 user1);
            total = kernel + user
        in if total > 0 \<and> total \<ge> idle
           then (nat_f64 F (unat (total - idle)) / nat_f64 F (unat total)) * lit F 100
           else lit F 0)"

definition THERMAL_NOTE :: string where
  "THERMAL_NOTE = ''WMI / ACPI thermal zones unqueried (hardware-specific kernel driver required)''"

definition sample_environmental_telemetry ::
  "'f::{times,inverse} f64_lib \<Rightarrow> 'w win32 \<Rightarrow> 'w host_status \<Rightarrow> 'w machine \<Rightarrow>
     'f EnvironmentalTelemetry \<times> 'w machine" where
  "sample_environmental_telemetry F os st m =
     (let mem_load = opt_unwrap_or (memory_load st (env m)) 0;
          ac_online = map_option (\<lambda>v. v = 1) (ac_line_status st (env m));
          (cpu_util, m) =
            (case system_times st (env m) of
               None \<Rightarrow> (lit F 0, m)
             | Some before \<Rightarrow>
                 let m = sleep os 30 m
                 in (case system_times st (env m) of
                       None \<Rightarrow> lit F 0
                     | Some after \<Rightarrow> cpu_share F before after, m));
          process_count = of_nat (case process_list os (env m) of None \<Rightarrow> 0 | Some ps \<Rightarrow> length ps)
      in (\<lparr>cpu_utilization_percent = round_f64 F (cpu_util * lit F 10) / lit F 10,
           env_memory_load_percent = mem_load, thermal_status = THERMAL_NOTE,
           ac_power_online = ac_online, active_processes_count = process_count\<rparr>, m))"

section \<open>The runner\<close>

record 'f ABBenchmarkConfig =
  trials :: nat
  frames_per_trial :: nat
  trial_duration_ms :: nat
  warmup_frames :: nat
  baseline_fps :: 'f
  optimized_fps :: 'f
  benchmark_target_pid :: "pid option"

definition default_benchmark_config :: "'f f64_lib \<Rightarrow> 'f ABBenchmarkConfig" where
  "default_benchmark_config F =
     \<lparr>trials = 10, frames_per_trial = 1000, trial_duration_ms = 5000, warmup_frames = 50,
      baseline_fps = lit F 230, optimized_fps = lit F 255, benchmark_target_pid = None\<rparr>"

datatype runner_error =
    BenchmarkElevationRequired
  | StateSwitchFailed string
  | TrialCaptureFailed capture_error
  | TrialMetricsFailed stats_error
  | ComparisonFailed stats_error

definition trial_session_name :: "bool \<Rightarrow> nat \<Rightarrow> string" where
  "trial_session_name optimized i = (if optimized then ''ValOptAB_B_'' else ''ValOptAB_A_'') @ dec_string i"

text \<open>One trial: switch the profile, let it settle, sample the host, capture.\<close>

definition live_trial ::
  "'f::{plus,minus,times,inverse,ord} f64_lib \<Rightarrow> 'w win32 \<Rightarrow> 'w etw \<Rightarrow> 'w host_status \<Rightarrow> 'f ABBenchmarkConfig \<Rightarrow>
     (bool \<Rightarrow> 'w machine \<Rightarrow> (string, unit) rust_result \<times> 'w machine) \<Rightarrow> (bool \<Rightarrow> nat \<Rightarrow> present_event list) \<Rightarrow>
     bool \<Rightarrow> nat \<Rightarrow> 'w machine \<Rightarrow> ((runner_error, 'f BenchmarkMetrics) rust_result \<times> 'w machine) option" where
  "live_trial F os etw st cfg apply_state events optimized i m =
     (case apply_state optimized m of
        (Inl e, m) \<Rightarrow> Some (Err (StateSwitchFailed e), m)
      | (Inr _, m) \<Rightarrow>
          let m = sleep os 500 m;
              (telemetry, m) = sample_environmental_telemetry F os st m;
              config = \<lparr>config_session_name = trial_session_name optimized i, config_target_pid = benchmark_target_pid cfg\<rparr>
          in do {
               (r, _, m) \<leftarrow> capture_duration_blocking F os etw config (trial_duration_ms cfg) (warmup_frames cfg)
                 (Some telemetry) (events optimized i) new_engine m;
               Some (case r of Inl e \<Rightarrow> Err (TrialCaptureFailed e) | Inr v \<Rightarrow> Ok v, m)
             })"

fun interleaved_trials ::
  "(bool \<Rightarrow> nat \<Rightarrow> 'w machine \<Rightarrow> ((runner_error, 'f BenchmarkMetrics) rust_result \<times> 'w machine) option) \<Rightarrow>
     nat list \<Rightarrow> 'f BenchmarkMetrics list \<Rightarrow> 'f BenchmarkMetrics list \<Rightarrow> 'w machine \<Rightarrow>
     ((runner_error, 'f BenchmarkMetrics list \<times> 'f BenchmarkMetrics list) rust_result \<times> 'w machine) option" where
  "interleaved_trials trial [] baseline_runs optimized_runs m = Some (Ok (baseline_runs, optimized_runs), m)"
| "interleaved_trials trial (i # is) baseline_runs optimized_runs m =
     do {
       (ra, m) \<leftarrow> trial False i m;
       (case ra of
          Inl e \<Rightarrow> Some (Err e, m)
        | Inr metrics_a \<Rightarrow> do {
            (rb, m) \<leftarrow> trial True i m;
            (case rb of
               Inl e \<Rightarrow> Some (Err e, m)
             | Inr metrics_b \<Rightarrow>
                 interleaved_trials trial is (baseline_runs @ [metrics_a]) (optimized_runs @ [metrics_b]) m)
          })
     }"

definition compare_runs ::
  "'f::{plus,minus,uminus,times,inverse,abs,ord} f64_lib \<Rightarrow>
     ((runner_error, 'f BenchmarkMetrics list \<times> 'f BenchmarkMetrics list) rust_result \<times> 'w machine) option \<Rightarrow>
     ((runner_error, 'f ABComparisonReport) rust_result \<times> 'w machine) option" where
  "compare_runs F res =
     do {
       (r, m) \<leftarrow> res;
       (case r of
          Inl e \<Rightarrow> Some (Err e, m)
        | Inr (baseline_runs, optimized_runs) \<Rightarrow> do {
            c \<leftarrow> compare_ab_trials F baseline_runs optimized_runs;
            Some (case c of Inl e \<Rightarrow> Err (ComparisonFailed e) | Inr report \<Rightarrow> Ok report, m)
          })
     }"

definition run_live_etw_benchmark ::
  "'f::{plus,minus,uminus,times,inverse,abs,ord} f64_lib \<Rightarrow> 'w win32 \<Rightarrow> 'w etw \<Rightarrow> 'w host_status \<Rightarrow> 'f ABBenchmarkConfig \<Rightarrow>
     (bool \<Rightarrow> 'w machine \<Rightarrow> (string, unit) rust_result \<times> 'w machine) \<Rightarrow> (bool \<Rightarrow> nat \<Rightarrow> present_event list) \<Rightarrow>
     'w machine \<Rightarrow> ((runner_error, 'f ABComparisonReport) rust_result \<times> 'w machine) option" where
  "run_live_etw_benchmark F os etw st cfg apply_state events m =
     (if \<not> is_elevation_available os m then Some (Err BenchmarkElevationRequired, m)
      else compare_runs F
             (interleaved_trials (live_trial F os etw st cfg apply_state events) [1..<Suc (trials cfg)] [] [] m))"

text \<open>A synthetic trial: the generated frames of a rate with periodic stutters.\<close>

definition synthetic_trial ::
  "'f::{plus,minus,times,inverse,ord} f64_lib \<Rightarrow> 'w win32 \<Rightarrow> 'w host_status \<Rightarrow> 'f ABBenchmarkConfig \<Rightarrow>
     bool \<Rightarrow> nat \<Rightarrow> 'w machine \<Rightarrow> ((runner_error, 'f BenchmarkMetrics) rust_result \<times> 'w machine) option" where
  "synthetic_trial F os st cfg optimized i m =
     (let app = (if optimized
                 then \<lparr>target_fps = optimized_fps cfg, stutter_interval = 400, stutter_duration_ms = lit F 8.33\<rparr>
                 else \<lparr>target_fps = baseline_fps cfg, stutter_interval = 150, stutter_duration_ms = lit F 16.66\<rparr>);
          c = stop_collector (run_frames F app (frames_per_trial cfg) record_sample (start_collector new_collector));
          snap = frames c;
          prov = \<lparr>telemetry_source = SyntheticFixture, collection_mechanism = MockDirectXGenerator,
                  is_directly_measured = False, sample_count = length snap, dropped_events = 0\<rparr>;
          (telemetry, m) = sample_environmental_telemetry F os st m
      in do {
           r \<leftarrow> compute_metrics_with_provenance F snap (warmup_frames cfg) prov (Some telemetry);
           Some (case r of Inl e \<Rightarrow> Err (TrialMetricsFailed e) | Inr v \<Rightarrow> Ok v, m)
         })"

definition run_synthetic_benchmark ::
  "'f::{plus,minus,uminus,times,inverse,abs,ord} f64_lib \<Rightarrow> 'w win32 \<Rightarrow> 'w host_status \<Rightarrow> 'f ABBenchmarkConfig \<Rightarrow>
     'w machine \<Rightarrow> ((runner_error, 'f ABComparisonReport) rust_result \<times> 'w machine) option" where
  "run_synthetic_benchmark F os st cfg m =
     compare_runs F (interleaved_trials (synthetic_trial F os st cfg) [1..<Suc (trials cfg)] [] [] m)"

section \<open>The order of the trials\<close>

definition started_sessions :: "'w machine \<Rightarrow> string list" where
  "started_sessions m = concat (map (\<lambda>e. case e of StartSession n \<Rightarrow> [n] | _ \<Rightarrow> []) (log m))"

lemma started_sessions_log: "log m' = log m @ es \<Longrightarrow>
    started_sessions m' = started_sessions m @ concat (map (\<lambda>e. case e of StartSession n \<Rightarrow> [n] | _ \<Rightarrow> []) es)"
  by (simp add: started_sessions_def)

lemma session_effects [simp]:
  "concat (map (\<lambda>e. case e of StartSession n \<Rightarrow> [n] | _ \<Rightarrow> []) (session_begun name)) = [name]"
  "concat (map (\<lambda>e. case e of StartSession n \<Rightarrow> [n] | _ \<Rightarrow> []) (session_ended h name)) = []"
  by (simp_all add: session_begun_def session_ended_def)

lemma interleaved_Cons_cases:
  assumes "interleaved_trials trial (i # js) A B m = Some (r, m')"
  obtains (first) e where "trial False i m = Some (Err e, m')" "r = Err e"
  | (second) a m1 e where "trial False i m = Some (Ok a, m1)" "trial True i m1 = Some (Err e, m')" "r = Err e"
  | (both) a m1 b m2 where "trial False i m = Some (Ok a, m1)" "trial True i m1 = Some (Ok b, m2)"
      "interleaved_trials trial js (A @ [a]) (B @ [b]) m2 = Some (r, m')"
proof -
  obtain ra m1 where a: "trial False i m = Some (ra, m1)" using assms by (cases "trial False i m") auto
  show ?thesis
  proof (cases ra)
    case (Inl e)
    then show ?thesis using a assms first by simp
  next
    case (Inr x)
    then obtain rb m2 where b: "trial True i m1 = Some (rb, m2)" using a assms by (cases "trial True i m1") auto
    show ?thesis
    proof (cases rb)
      case (Inl e)
      then show ?thesis using a b \<open>ra = Ok x\<close> assms second by simp
    next
      case (Inr y)
      then show ?thesis using a b \<open>ra = Ok x\<close> assms both by simp
    qed
  qed
qed

lemma compare_runs_cases:
  assumes "compare_runs F res = Some (r, m)"
  obtains (failed) e where "res = Some (Err e, m)" "r = Err e"
  | (compared) A B c where "res = Some (Ok (A, B), m)" "compare_ab_trials F A B = Some c"
      "r = (case c of Inl e \<Rightarrow> Err (ComparisonFailed e) | Inr report \<Rightarrow> Ok report)"
proof -
  obtain x m1 where x: "res = Some (x, m1)" using assms by (cases res) (auto simp: compare_runs_def)
  show ?thesis
  proof (cases x)
    case (Inl e)
    then show ?thesis using x assms failed by (simp add: compare_runs_def)
  next
    case (Inr p)
    obtain A B where "p = (A, B)" by (cases p)
    then show ?thesis using x Inr assms compared by (cases "compare_ab_trials F A B") (auto simp: compare_runs_def)
  qed
qed

text \<open>What the runner needs of a trial: the trace sessions it starts, and a property of its metrics.\<close>

locale trial_contract =
  fixes trial :: "bool \<Rightarrow> nat \<Rightarrow> 'w machine \<Rightarrow> ((runner_error, 'f::{plus,minus,uminus,times,inverse,abs,ord} BenchmarkMetrics) rust_result \<times> 'w machine) option"
    and sessions :: "bool \<Rightarrow> nat \<Rightarrow> string list" and good :: "'f BenchmarkMetrics \<Rightarrow> bool"
  assumes trial_ok: "trial b i m = Some (Ok v, m') \<Longrightarrow> started_sessions m' = started_sessions m @ sessions b i \<and> good v"
    and trial_err: "trial b i m = Some (Err e, m') \<Longrightarrow> \<exists>ys zs. sessions b i = ys @ zs \<and> started_sessions m' = started_sessions m @ ys"
begin

lemma trials_ok:
  assumes "interleaved_trials trial is A B m = Some (Ok (A', B'), m')"
  shows "\<exists>as bs. A' = A @ as \<and> B' = B @ bs \<and> length as = length is \<and> length bs = length is \<and> list_all good (as @ bs) \<and>
    started_sessions m' = started_sessions m @ concat (map (\<lambda>i. sessions False i @ sessions True i) is)"
  using assms
proof (induction "is" arbitrary: A B m)
  case (Cons i js)
  from Cons.prems show ?case
  proof (cases rule: interleaved_Cons_cases)
    case (both a m1 b m2)
    from Cons.IH [OF both(3)] obtain as bs where "A' = A @ a # as" "B' = B @ b # bs" "length as = length js"
      "length bs = length js" "list_all good (as @ bs)"
      "started_sessions m' = started_sessions m2 @ concat (map (\<lambda>i. sessions False i @ sessions True i) js)" by auto
    then show ?thesis using trial_ok [OF both(1)] trial_ok [OF both(2)] by (intro exI [of _ "a # as"] exI [of _ "b # bs"]) simp
  qed simp_all
qed simp

lemma trials_err:
  assumes "interleaved_trials trial is A B m = Some (Err e, m')"
  shows "\<exists>ys zs. concat (map (\<lambda>i. sessions False i @ sessions True i) is) = ys @ zs \<and>
    started_sessions m' = started_sessions m @ ys"
  using assms
proof (induction "is" arbitrary: A B m)
  case (Cons i js)
  from Cons.prems show ?case
  proof (cases rule: interleaved_Cons_cases)
    case (first e1)
    obtain ys zs where "sessions False i = ys @ zs" "started_sessions m' = started_sessions m @ ys"
      using trial_err [OF first(1)] by blast
    then show ?thesis by - (rule exI [of _ ys], simp)
  next
    case (second a m1 e1)
    obtain ys zs where "sessions True i = ys @ zs" "started_sessions m' = started_sessions m1 @ ys"
      using trial_err [OF second(2)] by blast
    then show ?thesis using trial_ok [OF second(1)] by - (rule exI [of _ "sessions False i @ ys"], simp)
  next
    case (both a m1 b m2)
    from Cons.IH [OF both(3)] obtain ys zs where "concat (map (\<lambda>i. sessions False i @ sessions True i) js) = ys @ zs"
      "started_sessions m' = started_sessions m2 @ ys" by blast
    then show ?thesis using trial_ok [OF both(1)] trial_ok [OF both(2)]
      by - (rule exI [of _ "sessions False i @ sessions True i @ ys"], simp)
  qed
qed simp

lemma trials_order:
  assumes "compare_runs F (interleaved_trials trial is [] [] m) = Some (r, m')"
  shows "\<exists>ys zs. concat (map (\<lambda>i. sessions False i @ sessions True i) is) = ys @ zs \<and>
      started_sessions m' = started_sessions m @ ys \<and> ((\<exists>R. r = Ok R) \<longrightarrow> zs = [])"
  using assms
proof (cases rule: compare_runs_cases)
  case (failed e)
  then show ?thesis using trials_err [OF failed(1)] by auto
next
  case (compared A B c)
  then show ?thesis using trials_ok [OF compared(1)] by auto
qed

lemma trials_compared:
  assumes "compare_runs F (interleaved_trials trial is [] [] m) = Some (Ok R, m')"
  shows "\<exists>A B. compare_ab_trials F A B = Some (Ok R) \<and> length A = length is \<and> length B = length is \<and>
      list_all good (A @ B)"
  using assms
proof (cases rule: compare_runs_cases)
  case (compared A B c)
  then have "compare_ab_trials F A B = Some (Ok R)" by (auto split: sum.splits)
  then show ?thesis using trials_ok [OF compared(1)] by auto
qed simp

end

section \<open>The two kinds of trials\<close>

lemma telemetry_log [simp]:
  "log (snd (sample_environmental_telemetry F os st m)) = log m"
  by (auto simp: sample_environmental_telemetry_def Let_def split: option.splits)

lemma started_sessions_cong: "log m' = log m \<Longrightarrow> started_sessions m' = started_sessions m"
  by (simp add: started_sessions_def)

lemma metrics_keep_provenance:
  "compute_metrics_with_provenance F ss w prov e = Some (Ok v) \<Longrightarrow> metrics_provenance v = prov"
  by (auto simp: compute_metrics_with_provenance_def Let_def bind_eq_Some_conv split: if_splits)

definition synthetic_metrics :: "'f BenchmarkMetrics \<Rightarrow> bool" where
  "synthetic_metrics v \<longleftrightarrow> telemetry_source (metrics_provenance v) = SyntheticFixture \<and>
     \<not> is_directly_measured (metrics_provenance v)"

definition measured_metrics :: "'f BenchmarkMetrics \<Rightarrow> bool" where
  "measured_metrics v \<longleftrightarrow> telemetry_source (metrics_provenance v) = RealEtwPresentation \<and>
     is_directly_measured (metrics_provenance v)"

lemma synthetic_trial_result:
  assumes "synthetic_trial F os st cfg b i m = Some (r, m')"
  shows "log m' = log m" and "r = Ok v \<Longrightarrow> synthetic_metrics v"
proof -
  obtain ss e c where c: "compute_metrics_with_provenance F ss (warmup_frames cfg) \<lparr>telemetry_source = SyntheticFixture,
      collection_mechanism = MockDirectXGenerator, is_directly_measured = False, sample_count = length ss, dropped_events = 0\<rparr> e = Some c"
    and r: "r = (case c of Inl e \<Rightarrow> Err (TrialMetricsFailed e) | Inr v \<Rightarrow> Ok v)"
    and m: "m' = snd (sample_environmental_telemetry F os st m)"
    using assms by (auto simp: synthetic_trial_def Let_def bind_eq_Some_conv case_prod_beta)
  show "log m' = log m" using m by simp
  show "synthetic_metrics v" if "r = Ok v"
  proof (cases c)
    case (Inr x)
    then show ?thesis using metrics_keep_provenance [OF c [unfolded Inr]] r that by (simp add: synthetic_metrics_def)
  qed (use r that in simp)
qed

interpretation synthetic: trial_contract "synthetic_trial F os st cfg" "\<lambda>_ _. []" synthetic_metrics
  by unfold_locales (auto dest: synthetic_trial_result started_sessions_cong)

text \<open>A capture starts its session once, unless it fails before that.\<close>

lemma capture_sessions:
  assumes "capture_duration_blocking F os etw config d w e events eng m = Some (r, eng', m')" and "capture_trace eng = None"
  shows "started_sessions m' = started_sessions m @ [session_name_buf (config_session_name config)] \<or>
    (\<exists>x. r = Err x) \<and> started_sessions m' = started_sessions m"
proof (cases "start_real_capture os etw config eng m")
  case (fields res eng1 m1)
  note l = capture_lifecycle [OF assms]
  show ?thesis
  proof (cases res)
    case (Inl err)
    then show ?thesis using l fields start_capture_failed(2) [of os etw config eng m err eng1 m1]
      by (auto simp: started_sessions_def split: capture_error.splits)
  next
    case (Inr ctx)
    then show ?thesis using l fields by (auto simp: Let_def started_sessions_def session_begun_def session_ended_def split: if_splits)
  qed
qed

definition quiet_switch :: "(bool \<Rightarrow> 'w machine \<Rightarrow> (string, unit) rust_result \<times> 'w machine) \<Rightarrow> bool" where
  "quiet_switch apply_state \<longleftrightarrow> (\<forall>b m. started_sessions (snd (apply_state b m)) = started_sessions m)"

lemma capture_measured:
  assumes "capture_duration_blocking F os etw config d w e events eng m = Some (Ok v, eng', m')"
  shows "measured_metrics v"
proof (cases "start_real_capture os etw config eng m")
  case (fields res eng1 m1)
  then obtain ctx where "res = Ok ctx" using assms by (cases res) (auto simp: capture_duration_blocking_def)
  then obtain eng2 c where c: "calculate_metrics_with_env F w e eng2 = Some c"
    and v: "(case c of Inl e \<Rightarrow> Err (MetricsFailed e) | Inr v \<Rightarrow> Ok v) = Ok v"
    using assms fields by (auto simp: capture_duration_blocking_def Let_def bind_eq_Some_conv case_prod_beta)
  then have "c = Ok v" by (cases c) auto
  then show ?thesis using c by (auto simp: calculate_metrics_with_env_def Let_def measured_metrics_def dest!: metrics_keep_provenance)
qed

lemma live_trial_result:
  assumes run: "live_trial F os etw st cfg apply_state events b i m = Some (r, m')" and quiet: "quiet_switch apply_state"
  shows "started_sessions m' = started_sessions m @ [session_name_buf (trial_session_name b i)] \<or>
      (\<exists>x. r = Err x) \<and> started_sessions m' = started_sessions m"
    and "r = Ok v \<Longrightarrow> measured_metrics v"
proof -
  obtain s m1 where s: "apply_state b m = (s, m1)" by (cases "apply_state b m")
  have q: "started_sessions m1 = started_sessions m" using quiet s unfolding quiet_switch_def by (metis snd_conv)
  have "(\<exists>e. r = Err e \<and> m' = m1) \<or> (\<exists>r1 eng'. capture_duration_blocking F os etw
      \<lparr>config_session_name = trial_session_name b i, config_target_pid = benchmark_target_pid cfg\<rparr>
      (trial_duration_ms cfg) (warmup_frames cfg) (Some (fst (sample_environmental_telemetry F os st (sleep os 500 m1))))
      (events b i) new_engine (snd (sample_environmental_telemetry F os st (sleep os 500 m1))) = Some (r1, eng', m') \<and>
      r = (case r1 of Inl e \<Rightarrow> Err (TrialCaptureFailed e) | Inr v \<Rightarrow> Ok v))" (is "?failed \<or> ?captured")
    using run s by (cases s) (auto simp: live_trial_def Let_def bind_eq_Some_conv case_prod_beta)
  moreover have "(started_sessions m' = started_sessions m @ [session_name_buf (trial_session_name b i)] \<or>
      (\<exists>x. r = Err x) \<and> started_sessions m' = started_sessions m) \<and> (r = Ok v \<longrightarrow> measured_metrics v)" if cap: ?captured
  proof -
    obtain r1 eng' where c: "capture_duration_blocking F os etw
      \<lparr>config_session_name = trial_session_name b i, config_target_pid = benchmark_target_pid cfg\<rparr>
      (trial_duration_ms cfg) (warmup_frames cfg) (Some (fst (sample_environmental_telemetry F os st (sleep os 500 m1))))
      (events b i) new_engine (snd (sample_environmental_telemetry F os st (sleep os 500 m1))) = Some (r1, eng', m')"
      and r: "r = (case r1 of Inl e \<Rightarrow> Err (TrialCaptureFailed e) | Inr v \<Rightarrow> Ok v)" using cap by blast
    have "started_sessions (snd (sample_environmental_telemetry F os st (sleep os 500 m1))) = started_sessions m"
      using q by (simp add: started_sessions_def)
    then show ?thesis using capture_sessions [OF c] capture_measured [of F os etw _ _ _ _ _ new_engine _ v eng' m'] c r
      by (cases r1) (auto simp: new_engine_def)
  qed
  ultimately show "started_sessions m' = started_sessions m @ [session_name_buf (trial_session_name b i)] \<or>
      (\<exists>x. r = Err x) \<and> started_sessions m' = started_sessions m" "r = Ok v \<Longrightarrow> measured_metrics v"
    using q by auto
qed

lemma live_trial_contract:
  assumes "quiet_switch apply_state"
  shows "trial_contract (live_trial F os etw st cfg apply_state events) (\<lambda>b i. [session_name_buf (trial_session_name b i)]) measured_metrics"
proof
  fix b i m v m' e
  let ?t = "live_trial F os etw st cfg apply_state events b i m" and ?n = "session_name_buf (trial_session_name b i)"
  show "started_sessions m' = started_sessions m @ [?n] \<and> measured_metrics v" if "?t = Some (Ok v, m')"
    using live_trial_result [OF that assms] by auto
  show "\<exists>ys zs. [?n] = ys @ zs \<and> started_sessions m' = started_sessions m @ ys" if "?t = Some (Err e, m')"
    using live_trial_result(1) [OF that assms] by (auto intro: exI [of _ "[]"] exI [of _ "[?n]"])
qed

section \<open>Synthetic trials complete\<close>

lemma run_frames_times:
  assumes "is_recording c"
  shows "map frame_time_ms (frames (run_frames_from F app k n us record_sample c)) =
    map frame_time_ms (frames c) @ map (mock_frame_time F app) [k..<k + n]"
  using assms
proof (induction n arbitrary: k us c)
  case (Suc n)
  have "[k..<k + Suc n] = k # [Suc k..<Suc k + n]" by (simp add: upt_conv_Cons)
  then show ?case using Suc by (simp add: Let_def record_sample_def)
qed simp

lemma mock_time_positive:
  assumes "0 < f" and "0 < d"
  shows "\<exists>t > 0. mock_frame_time exact \<lparr>target_fps = Fin f, stutter_interval = k, stutter_duration_ms = Fin d\<rparr> i = Fin t"
  using assms by (auto simp: mock_frame_time_def)

lemma mock_times:
  assumes "0 < f" and "0 < d"
  obtains ts where "map (mock_frame_time exact \<lparr>target_fps = Fin f, stutter_interval = k, stutter_duration_ms = Fin d\<rparr>) is = map Fin ts"
    and "list_all (\<lambda>t. 0 < t) ts"
proof -
  obtain g where "\<forall>i. 0 < g i \<and> mock_frame_time exact \<lparr>target_fps = Fin f, stutter_interval = k, stutter_duration_ms = Fin d\<rparr> i = Fin (g i)"
    using mock_time_positive [OF assms] by metis
  then show ?thesis using that [of "map g is"] by (simp add: list_all_iff)
qed

definition finite_metrics :: "xreal BenchmarkMetrics \<Rightarrow> bool" where
  "finite_metrics v \<longleftrightarrow> finite_f64 (one_percent_low_fps v) \<and> finite_f64 (frame_time_std_dev_ms v)"

lemma finite_metrics_runs:
  assumes "list_all finite_metrics vs" and "length vs < 2 ^ 64"
  shows "finite_runs vs"
proof -
  have "finite_list xs" if "list_all finite_f64 xs" for xs
    using that
  proof (induction xs)
    case (Cons x xs)
    then obtain r rs where "x = Fin r" "xs = map Fin rs" by (auto simp: finite_f64_def finite_list_def)
    then show ?case unfolding finite_list_def by (intro exI [of _ "r # rs"]) simp
  qed simp
  then show ?thesis using assms by (auto simp: finite_runs_def finite_metrics_def list_all_iff)
qed

lemma synthetic_trial_completes:
  assumes "baseline_fps cfg = Fin f" "optimized_fps cfg = Fin g" "0 < f" "0 < g"
    and "warmup_frames cfg < frames_per_trial cfg" "frames_per_trial cfg < 2 ^ 64"
  shows "\<exists>v m'. synthetic_trial exact os st cfg b i m = Some (Ok v, m') \<and> finite_metrics v"
proof -
  define app where "app = (if b then \<lparr>target_fps = optimized_fps cfg, stutter_interval = 400, stutter_duration_ms = lit exact 8.33\<rparr>
      else \<lparr>target_fps = baseline_fps cfg, stutter_interval = 150, stutter_duration_ms = lit exact 16.66\<rparr>)"
  define snap where "snap = frames (stop_collector (run_frames exact app (frames_per_trial cfg) record_sample (start_collector new_collector)))"
  have times: "map frame_time_ms snap = map (mock_frame_time exact app) [1..<1 + frames_per_trial cfg]"
    unfolding snap_def run_frames_def
    using run_frames_times [of "start_collector new_collector" exact app 1] by (simp add: start_collector_def stop_collector_def new_collector_def)
  obtain ts where ts: "map (mock_frame_time exact app) [1..<1 + frames_per_trial cfg] = map Fin ts" "list_all (\<lambda>t. 0 < t) ts"
  proof (cases b)
    case True
    then show ?thesis using mock_times [of g "8.33" 400 "[1..<1 + frames_per_trial cfg]"] that assms by (auto simp: app_def)
  next
    case False
    then show ?thesis using mock_times [of f "16.66" 150 "[1..<1 + frames_per_trial cfg]"] that assms by (auto simp: app_def)
  qed
  have len: "length ts = frames_per_trial cfg" "length snap = frames_per_trial cfg"
    using ts(1) times by (metis diff_add_inverse length_map length_upt)+
  let ?w = "warmup_frames cfg"
  have "map frame_time_ms (drop ?w snap) = map Fin (drop ?w ts)" using times ts(1) by (metis drop_map)
  moreover have "list_all (\<lambda>t. 0 < t) (drop ?w ts)" using ts(2) by (auto simp: list_all_iff dest: in_set_dropD)
  moreover have "length (drop ?w ts) < 2 ^ 64" using len assms(6) by simp
  ultimately have "compute_metrics_with_provenance exact snap ?w prov e = Some (Ok (exact_metrics prov e (drop ?w ts)))" for prov e
    using compute_metrics_exact [of ?w snap "drop ?w ts"] len assms(5) by simp
  then show ?thesis
    unfolding synthetic_trial_def Let_def case_prod_beta app_def [symmetric] snap_def [symmetric]
    by (simp add: finite_metrics_def exact_metrics_def Let_def finite_f64_def)
qed

lemma interleaved_complete:
  assumes "\<And>b i m. \<exists>v m'. trial b i m = Some (Ok v, m') \<and> good v"
  shows "\<exists>as bs m'. interleaved_trials trial is A B m = Some (Ok (A @ as, B @ bs), m') \<and>
    length as = length is \<and> length bs = length is \<and> list_all good (as @ bs)"
proof (induction "is" arbitrary: A B m)
  case (Cons i js)
  obtain a m1 where a: "trial False i m = Some (Ok a, m1)" "good a" using assms by blast
  obtain b m2 where b: "trial True i m1 = Some (Ok b, m2)" "good b" using assms by blast
  obtain as bs m' where "interleaved_trials trial js (A @ [a]) (B @ [b]) m2 = Some (Ok (A @ a # as, B @ b # bs), m')"
    "length as = length js" "length bs = length js" "list_all good (as @ bs)" using Cons [of "A @ [a]" "B @ [b]" m2] by auto
  then show ?case using a b by (intro exI [of _ "a # as"] exI [of _ "b # bs"] exI [of _ m']) simp
qed simp

section \<open>Properties\<close>

lemma report_of_runs:
  assumes "compare_ab_trials F A B = Some (Ok R)" and "length A = n" and "length B = n" and "list_all good (A @ B)"
  shows "trials_count R = n" and "\<exists>v. good v \<and> ab_provenance R = metrics_provenance v"
proof -
  obtain p w d mw ci lev where R: "A \<noteq> []" "R = ab_report F A B p w d mw ci lev" using compare_report [OF assms(1)] .
  then show "trials_count R = n" using assms(2,3) by (simp add: ab_report_def Let_def)
  have "good (hd A)" using R(1) assms(4) by (simp add: list_all_iff)
  then show "\<exists>v. good v \<and> ab_provenance R = metrics_provenance v" using R by (auto simp: ab_report_def Let_def)
qed


definition demo_status :: "world host_status" where
  "demo_status = \<lparr>memory_load = (\<lambda>_. Some 40), ac_line_status = (\<lambda>_. Some 1), system_times = (\<lambda>_. None)\<rparr>"

definition demo_benchmark :: "nat \<Rightarrow> xreal ABBenchmarkConfig" where
  "demo_benchmark w = (default_benchmark_config exact)\<lparr>trials := 2, frames_per_trial := 60, warmup_frames := w\<rparr>"


text \<open>
  The synthetic benchmark always completes, in exact arithmetic, for positive
  rates, more frames than warm-up frames and at least two trials; its report never claims that
  anything was measured.
\<close>

theorem synthetic_benchmark_completes:
  assumes "baseline_fps cfg = Fin f" "optimized_fps cfg = Fin g" "0 < f" "0 < g"
    and "warmup_frames cfg < frames_per_trial cfg" "frames_per_trial cfg < 2 ^ 64" "2 \<le> trials cfg" "trials cfg < 2 ^ 64"
  shows "\<exists>R m'. run_synthetic_benchmark exact os st cfg m = Some (Ok R, m') \<and> trials_count R = trials cfg \<and>
    telemetry_source (ab_provenance R) = SyntheticFixture \<and> \<not> is_directly_measured (ab_provenance R)"
proof -
  let ?t = "synthetic_trial exact os st cfg"
  note completes = synthetic_trial_completes [OF assms(1-6), of os st]
  obtain A B m' where t: "interleaved_trials ?t [1..<Suc (trials cfg)] [] [] m = Some (Ok (A, B), m')"
    and len: "length A = trials cfg" "length B = trials cfg" and fin: "list_all finite_metrics (A @ B)"
    using interleaved_complete [of ?t finite_metrics "[1..<Suc (trials cfg)]" "[]" "[]" m] completes by auto
  have "finite_runs A" "finite_runs B" using fin len assms(8) by (auto intro: finite_metrics_runs)
  then obtain R where R: "compare_ab_trials exact A B = Some (Ok R)" using compare_returns(2) len assms(7) by metis
  have run: "compare_runs exact (interleaved_trials ?t [1..<Suc (trials cfg)] [] [] m) = Some (Ok R, m')"
    using t R by (simp add: compare_runs_def)
  from synthetic.trials_compared [OF run] obtain A' B' where
    "compare_ab_trials exact A' B' = Some (Ok R)" "length A' = trials cfg" "length B' = trials cfg" "list_all synthetic_metrics (A' @ B')"
    by auto
  then have "trials_count R = trials cfg \<and> telemetry_source (ab_provenance R) = SyntheticFixture \<and> \<not> is_directly_measured (ab_provenance R)"
    using report_of_runs [of exact A' B' R "trials cfg" synthetic_metrics] by (auto simp: synthetic_metrics_def)
  then show ?thesis using run by (simp add: run_synthetic_benchmark_def)
qed

theorem synthetic_benchmark_completes_witness:
  "\<exists>R m'. run_synthetic_benchmark exact demo_os demo_status (demo_benchmark 50) demo_machine = Some (Ok R, m') \<and> trials_count R = 2"
  using synthetic_benchmark_completes [of "demo_benchmark 50" 230 255 demo_os demo_status demo_machine]
  by (auto simp: demo_benchmark_def default_benchmark_config_def)

end
