(* ===== verification/Cli.thy ===== *)
theory Cli
  imports Gui_Client Ab_Runner
begin

text \<open>
  The command line of \<^verbatim>\<open>src/crates/val-opt-cli/src/main.rs\<close>: the dispatch on the first argument and one
  definition for each command that does more than print a text. The components are called as the
  daemon calls them, with the environment record of \<open>Ipc_Server\<close>; what only the command line needs is
  the record \<open>cli_env\<close>, with the parsers of socket addresses and of floating-point numbers.

  A command ends with what it prints, as a value, or with an error. \<open>None\<close> is a panic, or a wait for a
  service that the clock never ends.
\<close>

section \<open>Commands\<close>

record ('w, 'f) cli_env =
  ce_net :: net_json
  ce_status :: "'w host_status"
  ce_addr :: "string \<Rightarrow> string option"
  ce_f64 :: "string \<Rightarrow> 'f option"

datatype cli_error =
    InspectFailed manifest_error
  | OptimizeFailed coordinator_error
  | RestoreFailed coordinator_error
  | PathRejected path
  | RecoverFailed recovery_error
  | SaveFailed save_error
  | PurgeFailed terminator_error
  | BenchmarkFailed runner_error
  | InvalidTarget string
  | EchoFailed
  | ProbeFailed probe_error
  | BufferbloatTestFailed bufferbloat_error
  | AdapterFailed adapter_error
  | QosFailed net_error

datatype 'f cli_output =
    PrintManifest FullSystemManifest
  | PrintTransaction OptimizationTransaction
  | PrintRestored bool
  | PrintRecovery RecoveryReport
  | PrintVanguard VanguardComplianceReport
  | PrintSnapshot path SystemStateSnapshot
  | PrintMemory "ProcessMemorySnapshot option"
  | PrintPurged "TerminatedAppBackup list"
  | PrintPaused "ServiceBackup list"
  | PrintResumed nat
  | PrintBenchmark "'f ABComparisonReport"
  | PrintProbe "'f PingProbeReport"
  | PrintBufferbloat "'f BufferbloatReport"
  | PrintNetwork NetworkAdapterInfo "NicAdvancedProperty list" "RssVerificationResult option"
  | PrintQos "QosPolicyInfo option"
  | PrintLatency "session_error option" "'f LatencyReport"
  | PrintDrivers "LoadedDriver list" nat
  | PrintHelp

type_synonym ('w, 'f) cli_result = "((cli_error, 'f cli_output) rust_result \<times> 'w machine) option"

definition arg :: "nat \<Rightarrow> string list \<Rightarrow> string option" where
  "arg n args = (if n < length args then Some (args ! n) else None)"

definition cli_inspect :: "('w, 'f) ipc_env \<Rightarrow> 'w machine \<Rightarrow> ('w, 'f) cli_result" where
  "cli_inspect E m =
     map_option (\<lambda>r. (case r of Inl e \<Rightarrow> Err (InspectFailed e) | Inr M \<Rightarrow> Ok (PrintManifest M), m))
       (inspect (ie_hw E) (ie_devices E) (ie_os E) m)"

definition cli_optimize :: "('w, 'f) ipc_env \<Rightarrow> 'w machine \<Rightarrow> ('w, 'f) cli_result" where
  "cli_optimize E m =
     (case apply_optimizations (ie_os E) (ie_tx E) m of
        (Inl e, m) \<Rightarrow> Some (Err (OptimizeFailed e), m)
      | (Inr tx, m) \<Rightarrow> Some (Ok (PrintTransaction tx), m))"

definition cli_restore :: "('w, 'f) ipc_env \<Rightarrow> 'w machine \<Rightarrow> ('w, 'f) cli_result" where
  "cli_restore E m =
     (case recover_orphaned_transaction (ie_os E) (ie_tx E) m of
        (Inl e, m) \<Rightarrow> Some (Err (RestoreFailed e), m)
      | (Inr restored, m) \<Rightarrow> Some (Ok (PrintRestored restored), m))"

text \<open>The gate on a path argument; without an argument there is nothing to check.\<close>

definition path_gate :: "('w, 'f) ipc_env \<Rightarrow> path option \<Rightarrow> 'w machine \<Rightarrow> bool \<times> 'w machine" where
  "path_gate E custom m =
     (case custom of None \<Rightarrow> (True, m) | Some p \<Rightarrow> is_path_in_canonical_dir (ie_os E) p m)"

definition cli_rollback :: "('w, 'f) ipc_env \<Rightarrow> path option \<Rightarrow> 'w machine \<Rightarrow> ('w, 'f) cli_result" where
  "cli_rollback E custom m =
     (case path_gate E custom m of
        (False, m) \<Rightarrow> Some (Err (PathRejected (the custom)), m)
      | (True, m) \<Rightarrow>
          (case check_and_recover (ie_os E) (ie_snap E) custom m of
             (Inl e, m) \<Rightarrow> Some (Err (RecoverFailed e), m)
           | (Inr report, m) \<Rightarrow> Some (Ok (PrintRecovery report), m)))"

definition primary_name :: "('w, 'f) ipc_env \<Rightarrow> 'w machine \<Rightarrow> string option" where
  "primary_name E m = (case detect_primary (ie_hw E) (env m) of Inr a \<Rightarrow> Some (adapter_name a) | Inl _ \<Rightarrow> None)"

definition cli_snapshot ::
  "('w, 'f) ipc_env \<Rightarrow> ('w, 'f) cli_env \<Rightarrow> path option \<Rightarrow> 'w machine \<Rightarrow> ('w, 'f) cli_result" where
  "cli_snapshot E N custom m =
     (case capture_system_baseline (ie_os E) (ce_net N) (primary_name E) m of
        (s, m) \<Rightarrow>
          (case path_gate E custom m of
             (False, m) \<Rightarrow> Some (Err (PathRejected (the custom)), m)
           | (True, m) \<Rightarrow>
               (case save_atomic (ie_os E) (ie_snap E) s custom m of
                  (Inl e, s, m) \<Rightarrow> Some (Err (SaveFailed e), m)
                | (Inr p, s, m) \<Rightarrow> Some (Ok (PrintSnapshot p s), m))))"

definition cli_vanguard_check :: "('w, 'f) ipc_env \<Rightarrow> 'w machine \<Rightarrow> ('w, 'f) cli_result" where
  "cli_vanguard_check E m = Some (Ok (PrintVanguard (check_vanguard (ie_os E) m)), m)"

definition cli_memory_status :: "('w, 'f) ipc_env \<Rightarrow> 'w machine \<Rightarrow> ('w, 'f) cli_result" where
  "cli_memory_status E m =
     Some (Ok (PrintMemory (case query_current_process_memory (ie_devices E) (ie_os E) m of
                              Inr mem \<Rightarrow> Some mem | Inl _ \<Rightarrow> None)), m)"

definition cli_purge_bloat :: "('w, 'f) ipc_env \<Rightarrow> 'w machine \<Rightarrow> ('w, 'f) cli_result" where
  "cli_purge_bloat E m =
     (case terminate_tier2_background_processes (ie_os E) new_db m of
        (Inl e, m) \<Rightarrow> Some (Err (PurgeFailed e), m)
      | (Inr backups, m) \<Rightarrow> Some (Ok (PrintPurged backups), m))"

definition cli_pause_services :: "('w, 'f) ipc_env \<Rightarrow> 'w machine \<Rightarrow> ('w, 'f) cli_result" where
  "cli_pause_services E m =
     map_option (\<lambda>(backups, m). (Ok (PrintPaused backups), m)) (pause_tier3_services (ie_os E) new_db m)"

text \<open>The backups of \<^verbatim>\<open>resume-services\<close> are made up: every target counts as paused while it ran.\<close>

definition resume_backup :: "string \<Rightarrow> ServiceBackup" where
  "resume_backup name =
     \<lparr>service_name = name, display_name = name, previous_state = 4, was_paused_by_optimizer = True\<rparr>"

definition cli_resume_services :: "('w, 'f) ipc_env \<Rightarrow> 'w machine \<Rightarrow> ('w, 'f) cli_result" where
  "cli_resume_services E m =
     (let backups = map resume_backup TARGET_TIER3_SERVICES
      in Some (Ok (PrintResumed (length backups)), restore_tier3_services (ie_os E) backups m))"

definition cli_benchmark_config :: "'f f64_lib \<Rightarrow> nat \<Rightarrow> 'f ABBenchmarkConfig" where
  "cli_benchmark_config L n =
     \<lparr>trials = n, frames_per_trial = 1000, trial_duration_ms = 5000, warmup_frames = 50,
      baseline_fps = lit L 228, optimized_fps = lit L 254, benchmark_target_pid = None\<rparr>"

definition cli_benchmark ::
  "('w, 'f::{plus,minus,uminus,times,inverse,abs,ord}) ipc_env \<Rightarrow> ('w, 'f) cli_env \<Rightarrow> string option \<Rightarrow> 'w machine \<Rightarrow>
     ('w, 'f) cli_result" where
  "cli_benchmark E N count m =
     (let n = opt_unwrap_or (Option.bind count (parse_unsigned 64)) 10
      in map_option (\<lambda>(r, m). (case r of Inl e \<Rightarrow> Err (BenchmarkFailed e) | Inr R \<Rightarrow> Ok (PrintBenchmark R), m))
           (run_synthetic_benchmark (ie_f64 E) (ie_os E) (ce_status N) (cli_benchmark_config (ie_f64 E) n) m))"

definition cli_ping_probe ::
  "('w, 'f::{plus,minus,uminus,times,inverse,abs,ord}) ipc_env \<Rightarrow> ('w, 'f) cli_env \<Rightarrow> string option \<Rightarrow> 'w machine \<Rightarrow>
     ('w, 'f) cli_result" where
  "cli_ping_probe E N target m =
     (let addr = (case target of
                    Some text \<Rightarrow> (case ce_addr N text of None \<Rightarrow> Err (InvalidTarget text) | Some a \<Rightarrow> Ok a)
                  | None \<Rightarrow> (case ie_echo E (env m) of None \<Rightarrow> Err EchoFailed | Some a \<Rightarrow> Ok a))
      in case addr of
           Inl e \<Rightarrow> Some (Err e, m)
         | Inr a \<Rightarrow>
             map_option (\<lambda>(r, m). (case r of Inl e \<Rightarrow> Err (ProbeFailed e) | Inr report \<Rightarrow> Ok (PrintProbe report), m))
               (probe (ie_f64 E) (ie_os E) (ie_udp E)
                  \<lparr>probe_target = a, packet_count = 50, packet_interval_ms = 10, probe_timeout_ms = 200\<rparr> m))"

definition cli_bufferbloat ::
  "('w, 'f::{plus,minus,uminus,times,inverse,abs,ord}) ipc_env \<Rightarrow> ('w, 'f) cli_env \<Rightarrow> string option \<Rightarrow> 'w machine \<Rightarrow>
     ('w, 'f) cli_result" where
  "cli_bufferbloat E N target m =
     (let run = (case target of
                   Some text \<Rightarrow>
                     (case ce_addr N text of
                        None \<Rightarrow> Inl (InvalidTarget text)
                      | Some a \<Rightarrow> Inr (run_test (ie_f64 E) (ie_os E) (ie_udp E)
                                        (default_bufferbloat_config\<lparr>bb_target_addr := a\<rparr>) m))
                 | None \<Rightarrow> Inr (run_isolated_test (ie_f64 E) (ie_os E) (ie_udp E) (ie_echo E (env m)) m))
      in case run of
           Inl e \<Rightarrow> Some (Err e, m)
         | Inr res \<Rightarrow>
             map_option (\<lambda>(r, m). (case r of Inl e \<Rightarrow> Err (BufferbloatTestFailed e)
                                   | Inr report \<Rightarrow> Ok (PrintBufferbloat report), m)) res)"

text \<open>The properties that \<^verbatim>\<open>net-inspect\<close> shows.\<close>

definition shown_property :: "NicAdvancedProperty \<Rightarrow> bool" where
  "shown_property p \<longleftrightarrow>
     (let kw = registry_keyword p
      in contains kw ''EEE'' \<or> contains kw ''Green'' \<or> contains kw ''Interrupt'' \<or> contains kw ''Flow'' \<or>
         contains kw ''RSS'' \<or> contains kw ''Power'')"

definition cli_net_inspect ::
  "('w, 'f) ipc_env \<Rightarrow> ('w, 'f) cli_env \<Rightarrow> 'w machine \<Rightarrow> ('w, 'f) cli_result" where
  "cli_net_inspect E N m =
     (case detect_primary (ie_hw E) (env m) of
        Inl e \<Rightarrow> Some (Err (AdapterFailed e), m)
      | Inr primary \<Rightarrow>
          (case query_adapter_properties (ie_os E) (ce_net N) (adapter_name primary) m of
             (props, m) \<Rightarrow>
               (case verify_rss (ie_os E) (ce_net N) (adapter_name primary) m of
                  (rss, m) \<Rightarrow>
                    Some (Ok (PrintNetwork primary
                           (case props of Inr ps \<Rightarrow> filter shown_property ps | Inl _ \<Rightarrow> [])
                           (case rss of Inr x \<Rightarrow> Some x | Inl _ \<Rightarrow> None)), m))))"

definition cli_qos_check ::
  "('w, 'f) ipc_env \<Rightarrow> ('w, 'f) cli_env \<Rightarrow> 'w machine \<Rightarrow> ('w, 'f) cli_result" where
  "cli_qos_check E N m =
     (case query_qos_policy (ie_os E) (ce_net N) DEFAULT_VALORANT_QOS_POLICY_NAME m of
        (Inl e, m) \<Rightarrow> Some (Err (QosFailed e), m)
      | (Inr policy, m) \<Rightarrow> Some (Ok (PrintQos policy), m))"

text \<open>A failed session is only a warning. The session is stopped again when it goes out of scope.\<close>

definition cli_latency_test ::
  "('w, 'f::{times,inverse}) ipc_env \<Rightarrow> ('w, 'f) cli_env \<Rightarrow> string option \<Rightarrow> 'w machine \<Rightarrow> ('w, 'f) cli_result" where
  "cli_latency_test E N secs m =
     (let duration = opt_unwrap_or (Option.bind secs (ce_f64 N)) (lit (ie_f64 E) 2);
          start = clock_ms (ie_os E) (env m);
          s = new_session (ie_os E) m
      in case ie_from_secs E duration of
           None \<Rightarrow> None
         | Some t \<Rightarrow>
             (case run_real_session (ie_os E) (ie_zero E) (ie_quot E) t (ie_events E (env m)) s m of
                None \<Rightarrow> None
              | Some ((r, s), m) \<Rightarrow>
                  let elapsed = nat_f64 (ie_f64 E) (clock_ms (ie_os E) (env m) - start) / lit (ie_f64 E) 1000;
                      report = generate_report (ie_values E) s elapsed;
                      m = snd (stop_session (ie_os E) s m)
                  in Some (Ok (PrintLatency (case r of Inl e \<Rightarrow> Some e | Inr _ \<Rightarrow> None) report), m)))"

definition cli_drivers :: "('w, 'f) ipc_env \<Rightarrow> 'w machine \<Rightarrow> ('w, 'f) cli_result" where
  "cli_drivers E m =
     (let ds = drivers (new_isolator (ie_os E) m :: 'f KernelDriverIsolator)
      in Some (Ok (PrintDrivers (take (min (length ds) 30) ds) (length ds)), m))"

section \<open>The dispatch\<close>

definition cli_main ::
  "('w, 'f::{plus,minus,uminus,times,inverse,abs,ord}) ipc_env \<Rightarrow> ('w, 'f) cli_env \<Rightarrow> string list \<Rightarrow> 'w machine \<Rightarrow>
     ('w, 'f) cli_result" where
  "cli_main E N args m =
     (let command = opt_unwrap_or (arg 1 args) ''help''; extra = arg 2 args
      in if command = ''inspect'' then cli_inspect E m
         else if command = ''optimize'' then cli_optimize E m
         else if command = ''restore'' then cli_restore E m
         else if command = ''rollback'' then cli_rollback E extra m
         else if command = ''vanguard-check'' then cli_vanguard_check E m
         else if command = ''snapshot'' then cli_snapshot E N extra m
         else if command = ''trim-memory'' \<or> command = ''memory-status'' then cli_memory_status E m
         else if command = ''purge-bloat'' then cli_purge_bloat E m
         else if command = ''pause-services'' then cli_pause_services E m
         else if command = ''resume-services'' then cli_resume_services E m
         else if command = ''benchmark'' then cli_benchmark E N extra m
         else if command = ''ping-probe'' then cli_ping_probe E N extra m
         else if command = ''bufferbloat'' then cli_bufferbloat E N extra m
         else if command = ''net-inspect'' then cli_net_inspect E N m
         else if command = ''qos-check'' then cli_qos_check E N m
         else if command = ''latency-test'' then cli_latency_test E N extra m
         else if command = ''drivers'' then cli_drivers E m
         else Some (Ok PrintHelp, m))"
section \<open>Commands that only look\<close>

text \<open>Nothing changes but a kernel trace; the scripts that run only report.\<close>

definition query_effect :: "effect \<Rightarrow> bool" where
  "query_effect e \<longleftrightarrow> trace_effect e \<or>
     (case e of
        RunPowerShell s _ \<Rightarrow> s \<in> {QUERY_ADAPTER_SCRIPT, RSS_QUERY_SCRIPT, QUERY_QOS_SCRIPT}
      | RunNetsh args \<Rightarrow> args = [''int'', ''tcp'', ''show'', ''global'']
      | _ \<Rightarrow> False)"

definition only_queries :: "'w machine \<Rightarrow> 'w machine \<Rightarrow> bool" where
  "only_queries m m' \<longleftrightarrow> files m' = files m \<and> log_grows query_effect m m'"

lemma only_queries_refl [simp]: "only_queries m m"
  by (simp add: only_queries_def)

lemma only_queries_trans [trans]: "only_queries a b \<Longrightarrow> only_queries b c \<Longrightarrow> only_queries a c"
  by (auto simp: only_queries_def intro: log_grows_trans)

lemma only_queries_same: "files m' = files m \<Longrightarrow> log m' = log m \<Longrightarrow> only_queries m m'"
  by (simp add: only_queries_def log_grows_same)

lemma only_queries_traces: "files m' = files m \<Longrightarrow> log_grows trace_effect m m' \<Longrightarrow> only_queries m m'"
  by (auto simp: only_queries_def query_effect_def elim: log_grows_mono)

lemma run_ps_queries:
  "s \<in> {QUERY_ADAPTER_SCRIPT, RSS_QUERY_SCRIPT, QUERY_QOS_SCRIPT} \<Longrightarrow> only_queries m (snd (run_ps os s vars m))"
  by (simp add: run_ps_def only_queries_def query_effect_def)

lemma query_adapter_queries: "only_queries m (snd (query_adapter_properties os js name m))"
  using run_ps_queries [of QUERY_ADAPTER_SCRIPT m os "[(''VAL_OPT_ADAPTER'', name)]"]
  by (auto simp: query_adapter_properties_def Let_def split: prod.split option.split sum.split)

lemma query_property_queries: "only_queries m (snd (query_property os js name kw m))"
  using query_adapter_queries [of m os js name]
  by (auto simp: query_property_def split: sum.split prod.split)

lemma query_qos_queries: "only_queries m (snd (query_qos_policy os js name m))"
  using run_ps_queries [of QUERY_QOS_SCRIPT m os "[(''VAL_OPT_POLICY_NAME'', name)]"]
  by (auto simp: query_qos_policy_def Let_def split: prod.split option.split sum.split)

lemma global_rss_queries: "only_queries m (snd (query_global_tcp_rss os m))"
proof -
  have "only_queries m (snd (run_netsh os [''int'', ''tcp'', ''show'', ''global''] m))"
    by (simp add: run_netsh_def only_queries_def query_effect_def)
  then show ?thesis by (auto simp: query_global_tcp_rss_def split: prod.split option.split)
qed

lemma rss_properties_queries: "only_queries m (snd (rss_from_properties os js name m))"
  using only_queries_trans [OF query_property_queries query_property_queries]
  by (auto simp: rss_from_properties_def Let_def case_prod_beta)

lemma verify_rss_queries: "only_queries m (snd (verify_rss os js name m))"
proof (cases "validate_adapter_identifier name")
  case (Inr u)
  obtain o1 m1 where ps: "run_ps os RSS_QUERY_SCRIPT [(''VAL_OPT_ADAPTER'', name)] m = (o1, m1)" by fastforce
  have m1: "only_queries m m1"
    using run_ps_queries [of RSS_QUERY_SCRIPT m os "[(''VAL_OPT_ADAPTER'', name)]"] ps by simp
  let ?m2 = "snd (rss_from_properties os js name m1)"
  have "snd (verify_rss os js name m) = (case o1 of None \<Rightarrow> m1 | Some (ok, out) \<Rightarrow>
      snd (query_global_tcp_rss os (if ok then m1 else ?m2)))"
    using Inr ps by (simp add: verify_rss_def Let_def case_prod_beta split: option.split)
  moreover have "only_queries m ?m2" using m1 rss_properties_queries by (rule only_queries_trans)
  ultimately show ?thesis
    using m1 only_queries_trans [OF _ global_rss_queries] by (auto split: option.split)
qed (simp add: verify_rss_def)

lemma capture_queries: "only_queries m (snd (capture_system_baseline os js primary m))"
  using query_qos_queries only_queries_trans [OF query_adapter_queries query_qos_queries]
  by (auto simp: capture_system_baseline_def Let_def case_prod_beta split: option.split sum.split)

lemma telemetry_files [simp]: "files (snd (sample_environmental_telemetry L os st m)) = files m"
  by (auto simp: sample_environmental_telemetry_def Let_def split: option.splits)

lemma interleaved_keeps:
  assumes keeps: "\<And>b i m r m'. trial b i m = Some (r, m') \<Longrightarrow> only_queries m m'"
  shows "interleaved_trials trial is as bs m = Some (r, m') \<Longrightarrow> only_queries m m'"
proof (induction "is" arbitrary: as bs m)
  case (Cons i js)
  obtain ra m1 where a: "trial False i m = Some (ra, m1)" using Cons.prems by (cases "trial False i m") auto
  show ?case
  proof (cases ra)
    case (Inr va)
    obtain rb m2 where b: "trial True i m1 = Some (rb, m2)" using Cons.prems a Inr by (cases "trial True i m1") auto
    have "only_queries m m2" using keeps [OF a] keeps [OF b] by (rule only_queries_trans)
    then show ?thesis
      using Cons.prems Cons.IH [of _ _ m2] a b Inr by (cases rb) (auto intro: only_queries_trans)
  qed (use Cons.prems a keeps in auto)
qed simp

lemma synthetic_benchmark_keeps:
  assumes "run_synthetic_benchmark L os st cfg m = Some (r, m')"
  shows "only_queries m m'"
proof -
  let ?t = "synthetic_trial L os st cfg"
  have keeps: "?t b i m = Some (r, m') \<Longrightarrow> only_queries m m'" for b i m r m'
    by (auto simp: synthetic_trial_def Let_def bind_eq_Some_conv case_prod_beta intro: only_queries_same)
  obtain t where "interleaved_trials ?t [1..<Suc (trials cfg)] [] [] m = Some (t, m')"
    using assms unfolding run_synthetic_benchmark_def by (cases rule: compare_runs_cases) auto
  from interleaved_keeps [of ?t, OF keeps this] show ?thesis .
qed

lemma latency_test_queries:
  assumes "cli_latency_test E N secs m = Some (r, m')"
  shows "only_queries m m'"
proof -
  obtain t q s m1 where run: "run_real_session (ie_os E) (ie_zero E) (ie_quot E) t (ie_events E (env m)) (new_session (ie_os E) m) m = Some ((q, s), m1)"
    and m': "m' = snd (stop_session (ie_os E) s m1)"
    using assms by (auto simp: cli_latency_test_def Let_def split: option.splits)
  show ?thesis
    using run_real_session_traces [OF run] stop_session_traces [of m1 "ie_os E" s] m'
    by (auto intro: only_queries_traces log_grows_trans)
qed

lemma ping_probe_keeps:
  assumes "cli_ping_probe E N t m = Some (r, m')"
  shows "only_queries m m'"
proof -
  have "m' = m \<or> (\<exists>cfg q. probe (ie_f64 E) (ie_os E) (ie_udp E) cfg m = Some (q, m'))"
    using assms by (auto simp: cli_ping_probe_def Let_def split: option.splits)
  then show ?thesis using probe_machine [of "ie_f64 E" "ie_os E" "ie_udp E" _ m] by (auto intro: only_queries_same)
qed

lemma bufferbloat_keeps:
  assumes "cli_bufferbloat E N t m = Some (r, m')"
  shows "only_queries m m'"
proof -
  have "m' = m \<or> (\<exists>cfg q. run_test (ie_f64 E) (ie_os E) (ie_udp E) cfg m = Some (q, m')) \<or>
      (\<exists>a q. run_isolated_test (ie_f64 E) (ie_os E) (ie_udp E) a m = Some (q, m'))"
    using assms by (auto simp: cli_bufferbloat_def Let_def split: option.splits)
  then show ?thesis
    using run_test_machine [of "ie_f64 E" "ie_os E" "ie_udp E" _ m] run_isolated_test_machine [of "ie_f64 E" "ie_os E" "ie_udp E" _ m]
    by (auto intro: only_queries_same)
qed

lemma look_only:
  "cli_inspect E m = Some (r, m') \<Longrightarrow> only_queries m m'"
  "cli_vanguard_check E m = Some (r, m') \<Longrightarrow> only_queries m m'"
  "cli_memory_status E m = Some (r, m') \<Longrightarrow> only_queries m m'"
  "cli_drivers E m = Some (r, m') \<Longrightarrow> only_queries m m'"
  "cli_benchmark E N t m = Some (r, m') \<Longrightarrow> only_queries m m'"
  using synthetic_benchmark_keeps [of "ie_f64 E" "ie_os E"]
  by (auto simp: cli_inspect_def cli_vanguard_check_def cli_memory_status_def cli_drivers_def cli_benchmark_def Let_def)

lemma net_inspect_queries:
  assumes "cli_net_inspect E N m = Some (r, m')"
  shows "only_queries m m'"
proof -
  have "m' = m \<or> (\<exists>n. m' = snd (verify_rss (ie_os E) (ce_net N) n (snd (query_adapter_properties (ie_os E) (ce_net N) n m))))"
    using assms by (auto simp: cli_net_inspect_def case_prod_beta split: sum.splits)
  then show ?thesis using only_queries_trans [OF query_adapter_queries verify_rss_queries] by auto
qed

lemma qos_check_queries: "cli_qos_check E N m = Some (r, m') \<Longrightarrow> only_queries m m'"
  using query_qos_queries [of m "ie_os E" "ce_net N" DEFAULT_VALORANT_QOS_POLICY_NAME]
  by (auto simp: cli_qos_check_def split: sum.splits prod.splits)

definition changing_commands :: "string list" where
  "changing_commands =
     [''optimize'', ''restore'', ''rollback'', ''snapshot'', ''purge-bloat'', ''pause-services'', ''resume-services'']"


section \<open>The path argument\<close>

text \<open>The gate accepts a path that lies in the canonical directory and is reached through no link.\<close>

definition accepted_path :: "'w win32 \<Rightarrow> path \<Rightarrow> path \<Rightarrow> 'w machine \<Rightarrow> 'w machine \<Rightarrow> bool" where
  "accepted_path os p q m m' \<longleftrightarrow> dir_only m m' \<and>
     (\<exists>b. fs_canonicalize os (canonical_snapshot_dir os m) (env m') = Some b \<and> resolves_into os b p q m' \<and>
          (\<forall>x. on_walk os b m' p x \<longrightarrow> not_a_link os m' x))"

lemma validate_accepts:
  assumes "validate_snapshot_path os p None m = (Ok q, m')"
  shows "accepted_path os p q m m'"
proof -
  have "check_snapshot_path os (canonical_snapshot_dir os m) p m' = Ok q"
    using assms by (auto simp: validate_snapshot_path_def Let_def opt_unwrap_or_def split: if_splits prod.splits sum.splits)
  then show ?thesis
    using validate_dir_only [of m os p None] assms
    by (auto simp: accepted_path_def elim: check_snapshot_path_ok)
qed

lemma path_gate_cases:
  assumes "path_gate E (Some p) m = (ok, m')"
  shows "dir_only m m'" and "ok \<Longrightarrow> \<exists>q. accepted_path (ie_os E) p q m m'"
proof -
  obtain v where v: "validate_snapshot_path (ie_os E) p None m = (v, m')" and ok: "ok = is_ok v"
    using assms by (auto simp: path_gate_def is_path_in_canonical_dir_def Let_def split: prod.splits)
  show "dir_only m m'" using validate_dir_only [of m "ie_os E" p None] v by simp
  show "\<exists>q. accepted_path (ie_os E) p q m m'" if ok
    using v ok that by (cases v) (auto simp: is_ok_def dest: validate_accepts)
qed

lemma save_atomic_accepts:
  assumes "save_atomic os c s (Some p) m = (Ok t, s', m')"
  shows "\<exists>m1. accepted_path os p t m m1"
proof -
  obtain v m1 where v: "validate_snapshot_path os p None m = (v, m1)" by fastforce
  have "v = Ok t"
    using assms v by (cases v) (auto simp: save_atomic_def save_atomic_with_base_def snapshot_target_def write_snapshot_def Let_def split: prod.splits sum.splits option.splits if_splits)
  then show ?thesis using validate_accepts v by blast
qed

definition gate_effect :: "effect \<Rightarrow> bool" where
  "gate_effect e \<longleftrightarrow> dir_effect e \<or> query_effect e"

lemma gate_keeps:
  assumes "only_queries m m0" and "dir_only m0 m1"
  shows "files m1 = files m \<and> log_grows gate_effect m m1"
proof -
  have "log_grows gate_effect m m0" "log_grows gate_effect m0 m1"
    using assms by (auto simp: only_queries_def dir_only_def gate_effect_def elim: log_grows_mono)
  then show ?thesis using assms by (auto simp: only_queries_def dir_only_def intro: log_grows_trans)
qed

lemma rollback_confined:
  assumes "cli_rollback E (Some p) m = Some (r, m')"
  shows "r = Err (PathRejected p) \<and> files m' = files m \<and> log_grows gate_effect m m' \<or>
    (\<exists>q m1. accepted_path (ie_os E) p q m m1) \<and> (\<forall>t s. r \<noteq> Ok (PrintSnapshot t s))"
proof -
  obtain ok m1 where g: "path_gate E (Some p) m = (ok, m1)" by fastforce
  show ?thesis
  proof (cases ok)
    case True
    then show ?thesis using assms g path_gate_cases(2) [OF g True]
      by (auto simp: cli_rollback_def split: prod.splits sum.splits)
  next
    case False
    then show ?thesis using assms g gate_keeps [OF only_queries_refl path_gate_cases(1) [OF g]]
      by (simp add: cli_rollback_def)
  qed
qed

lemma snapshot_confined:
  assumes "cli_snapshot E N (Some p) m = Some (r, m')"
  shows "r = Err (PathRejected p) \<and> files m' = files m \<and> log_grows gate_effect m m' \<or>
    (\<exists>m0 q m1. only_queries m m0 \<and> accepted_path (ie_os E) p q m0 m1) \<and>
    (\<forall>t s. r = Ok (PrintSnapshot t s) \<longrightarrow> (\<exists>m1 m2. files m1 = files m \<and> accepted_path (ie_os E) p t m1 m2))"
proof -
  obtain s0 m0 where c: "capture_system_baseline (ie_os E) (ce_net N) (primary_name E) m = (s0, m0)" by fastforce
  have m0: "only_queries m m0" using capture_queries [of m "ie_os E" "ce_net N" "primary_name E"] c by simp
  obtain ok m1 where g: "path_gate E (Some p) m0 = (ok, m1)" by fastforce
  note kept = gate_keeps [OF m0 path_gate_cases(1) [OF g]]
  show ?thesis
  proof (cases ok)
    case True
    have "\<exists>m2. accepted_path (ie_os E) p t m1 m2" if "r = Ok (PrintSnapshot t s)" for t s
      using assms c g True that save_atomic_accepts [of "ie_os E" "ie_snap E" s0 p m1 t]
      by (auto simp: cli_snapshot_def split: prod.splits sum.splits)
    then show ?thesis using kept m0 path_gate_cases(2) [OF g True] by blast
  next
    case False
    then show ?thesis using assms c g kept by (simp add: cli_snapshot_def)
  qed
qed

section \<open>Properties\<close>


definition demo_cli :: "(world, xreal) cli_env" where
  "demo_cli = \<lparr>ce_net = demo_net_json, ce_status = demo_status, ce_addr = Some, ce_f64 = (\<lambda>_. None)\<rparr>"

definition demo_outside :: path where
  "demo_outside = win ''C:/ProgramData/ValorantOptimizer/../evil.json''"


text \<open>
  C37: Every command but the seven that are meant to change something leaves the files alone and adds
  nothing to the log but kernel traces and scripts that report: the diagnoses, the benchmark, the
  network tests and the help, with any arguments, and every unknown command.
\<close>

theorem cli_diagnostics_change_nothing:
  assumes "cli_main E N args m = Some (r, m')" and "opt_unwrap_or (arg 1 args) ''help'' \<notin> set changing_commands"
  shows "files m' = files m \<and> log_grows query_effect m m'"
proof -
  have "only_queries m m'"
    using assms unfolding cli_main_def Let_def changing_commands_def
    by (auto split: if_splits dest: look_only latency_test_queries ping_probe_keeps bufferbloat_keeps net_inspect_queries qos_check_queries)
  then show ?thesis by (simp add: only_queries_def)
qed

theorem cli_diagnostics_change_nothing_witness:
  "\<exists>r. cli_main (demo_ipc demo_os) demo_cli [''val-opt-cli'', ''vanguard-check''] demo_machine = Some (r, demo_machine) \<and>
     log_grows query_effect demo_machine demo_machine"
proof -
  have run: "cli_main (demo_ipc demo_os) demo_cli [''val-opt-cli'', ''vanguard-check''] demo_machine =
      Some (Ok (PrintVanguard (check_vanguard demo_os demo_machine)), demo_machine)"
    by (simp add: cli_main_def arg_def opt_unwrap_or_def cli_vanguard_check_def)
  then show ?thesis
    using cli_diagnostics_change_nothing [OF run] by (simp add: arg_def opt_unwrap_or_def changing_commands_def)
qed

text \<open>
  What \<^verbatim>\<open>benchmark\<close> reports is always synthetic. In exact arithmetic it returns for every number of
  trials from two on (ten when the argument is missing or no number), counts them, and says that
  nothing was measured: the rates compared are the constants 228 and 254, whatever the system does.
\<close>

theorem cli_benchmark_is_synthetic:
  assumes "ie_f64 E = exact" and "n = opt_unwrap_or (Option.bind (arg 2 args) (parse_unsigned 64)) 10" and "2 \<le> n"
    and "arg 1 args = Some ''benchmark''"
  shows "\<exists>R m'. cli_main E N args m = Some (Ok (PrintBenchmark R), m') \<and> trials_count R = n \<and>
    telemetry_source (ab_provenance R) = SyntheticFixture \<and> \<not> is_directly_measured (ab_provenance R)"
proof -
  let ?cfg = "cli_benchmark_config exact n"
  have "n < 2 ^ 64" using assms(2) by (auto simp: opt_unwrap_or_def parse_unsigned_def Let_def split: option.splits if_splits bind_splits)
  then obtain R m' where "run_synthetic_benchmark exact (ie_os E) (ce_status N) ?cfg m = Some (Ok R, m')" "trials_count R = n"
    "telemetry_source (ab_provenance R) = SyntheticFixture" "\<not> is_directly_measured (ab_provenance R)"
    using synthetic_benchmark_completes [of ?cfg 228 254 "ie_os E" "ce_status N" m] assms(3)
    by (auto simp: cli_benchmark_config_def)
  then show ?thesis
    using assms by (auto simp: cli_main_def cli_benchmark_def opt_unwrap_or_def)
qed

theorem cli_benchmark_is_synthetic_witness:
  "\<exists>R m'. cli_main (demo_ipc demo_os) demo_cli [''val-opt-cli'', ''benchmark'', ''7''] demo_machine = Some (Ok (PrintBenchmark R), m') \<and>
     trials_count R = 7 \<and> \<not> is_directly_measured (ab_provenance R)"
proof -
  have "parse_unsigned 64 ''7'' = Some 7" by (simp add: parse_unsigned_def)
  then show ?thesis
    using cli_benchmark_is_synthetic [of "demo_ipc demo_os" 7 "[''val-opt-cli'', ''benchmark'', ''7'']" demo_cli demo_machine]
    by (auto simp: demo_ipc_def arg_def opt_unwrap_or_def)
qed

text \<open>
  Pausing and then resuming the services from the command line. Pausing returns, stops some of
  the target services and touches no file; resuming starts every target service, paused or not, so
  each stopped one runs again, and so does each that was stopped before.
\<close>

theorem cli_resume_starts_every_target:
  assumes "clock_laws (ie_os E)" and "\<And>w. scm_open (ie_os E) w" and "\<And>n w. service_open (ie_os E) n START_AND_QUERY w"
  shows "\<exists>backups m1 m2 stops.
    cli_main E N [exe, ''pause-services''] m = Some (Ok (PrintPaused backups), m1) \<and>
    cli_main E N [exe, ''resume-services''] m1 = Some (Ok (PrintResumed (length TARGET_TIER3_SERVICES)), m2) \<and>
    log m1 = log m @ map StopService stops \<and> log m2 = log m1 @ map StartService TARGET_TIER3_SERVICES \<and>
    subseq (map service_name backups) stops \<and> subseq stops TARGET_TIER3_SERVICES \<and> files m2 = files m"
proof -
  obtain bs m1 stops where p: "pause_services (ie_os E) new_db TARGET_TIER3_SERVICES [] m = Some ([] @ bs, m1)" "files m1 = files m"
    "log m1 = log m @ map StopService stops" "subseq stops TARGET_TIER3_SERVICES" "subseq (map service_name bs) stops"
    using pause_services_total [OF assms(1)] by blast
  let ?bs = "map resume_backup TARGET_TIER3_SERVICES"
  let ?m2 = "restore_tier3_services (ie_os E) ?bs m1"
  have all: "filter was_paused_by_optimizer (map resume_backup ns) = map resume_backup ns"
    "map (StartService \<circ> service_name) (map resume_backup ns) = map StartService ns" for ns
    by (simp_all add: resume_backup_def filter_map o_def)
  have "log ?m2 = log m1 @ map StartService TARGET_TIER3_SERVICES"
    using restore_log_all [OF assms(2,3), of ?bs m1] by (simp only: all)
  moreover have "files ?m2 = files m" using restore_log [of "ie_os E" ?bs m1] p(2) by auto
  moreover have "cli_main E N [exe, ''pause-services''] m = Some (Ok (PrintPaused bs), m1)"
    using p(1) by (simp add: cli_main_def arg_def opt_unwrap_or_def cli_pause_services_def pause_tier3_services_def)
  moreover have "cli_main E N [exe, ''resume-services''] m1 = Some (Ok (PrintResumed (length TARGET_TIER3_SERVICES)), ?m2)"
    by (simp add: cli_main_def arg_def opt_unwrap_or_def cli_resume_services_def Let_def)
  ultimately show ?thesis using p by blast
qed

theorem cli_resume_starts_every_target_witness:
  "\<exists>m1 m2 out1 out2. cli_main (demo_ipc demo_all_services) demo_cli [''val-opt-cli'', ''pause-services''] demo_machine = Some (out1, m1) \<and>
     cli_main (demo_ipc demo_all_services) demo_cli [''val-opt-cli'', ''resume-services''] m1 = Some (out2, m2) \<and>
     log m2 = log m1 @ map StartService TARGET_TIER3_SERVICES"
proof -
  have "clock_laws demo_all_services" using demo_clock_laws by (simp add: clock_laws_def demo_all_services_def)
  then show ?thesis
    using cli_resume_starts_every_target [of "demo_ipc demo_all_services" demo_cli "''val-opt-cli''" demo_machine]
    by (fastforce simp: demo_all_services_def demo_os_def)
qed

end
