(* ===== verification/Spec2Isabelle.thy ===== *)
theory Spec2Isabelle
  imports Cli
begin

text \<open>
  Verification development of the VALORANT Performance Optimizer, a Windows daemon (\<^verbatim>\<open>val-opt-core\<close>)
  with a shared library (\<^verbatim>\<open>val-opt-shared\<close>), a graphical client and a command line. File names are
  relative to \<^verbatim>\<open>src/crates/val-opt-core/src\<close> or, where \<^verbatim>\<open>shared/\<close>, \<^verbatim>\<open>gui/\<close> or \<^verbatim>\<open>cli/\<close> is written, to
  the directory \<^verbatim>\<open>src\<close> of the crate \<^verbatim>\<open>val-opt-shared\<close>, \<^verbatim>\<open>val-opt-gui\<close> or \<^verbatim>\<open>val-opt-cli\<close>.

  \<^bold>\<open>The program.\<close> The daemon first repairs what a crashed predecessor left behind
  (\<^verbatim>\<open>state/crash_recovery.rs\<close>), then serves requests over a named pipe (\<^verbatim>\<open>ipc_server.rs\<close>). A request
  to launch the game passes a pre-flight check (\<^verbatim>\<open>safety/vanguard_check.rs\<close>), closes background
  programs (\<^verbatim>\<open>process/terminator.rs\<close>, governed by the tiers of \<^verbatim>\<open>process/safety_db.rs\<close>), changes system
  settings in a transaction that can be rolled back (\<^verbatim>\<open>optimizations/\<close>), starts a supervising thread
  (\<^verbatim>\<open>process/supervisor.rs\<close>) and the game client (\<^verbatim>\<open>process/valorant_launcher.rs\<close>). The supervisor
  tunes the game process and, when the game has ended, rolls the settings back and restarts what was
  closed. Snapshots of the original state are signed and stored in a protected directory
  (\<^verbatim>\<open>state/snapshot_engine.rs\<close>). Interrupt latencies are measured by a kernel trace session
  (\<^verbatim>\<open>latency/\<close>), the network by probes with and without load (\<^verbatim>\<open>network/bufferbloat.rs\<close>), and frame times by
  a presentation trace whose runs are compared statistically (\<^verbatim>\<open>benchmarking/\<close>). The graphical client
  (\<^verbatim>\<open>gui/\<close>) sends requests over the pipe, starts a daemon when there is none, and otherwise executes the
  request itself; the command line (\<^verbatim>\<open>cli/main.rs\<close>) calls the components directly.

  \<^bold>\<open>The system around it.\<close> Win32 calls and child processes are not code of the repository. They are
  the fields of the record \<open>win32\<close> in \<open>Win32\<close>, functions of an abstract system state; what the code
  relies on is a named law (\<open>registry_laws\<close>, \<open>power_laws\<close>, \<open>clock_laws\<close>, \<open>dir_laws\<close>, ...), and the
  small concrete system of \<open>Win32_Demo\<close> satisfies the laws, so that every result with a hypothesis
  has a witness. A \<open>machine\<close> is the state of the system, the contents of the files, and the log of all
  calls that change something: safety results say which entries a call may add to that log. Errors
  are values of sum types; a panic is the value \<open>None\<close>. Strings are ASCII; words have their width.

  \<^bold>\<open>The theories.\<close>

  \<^item> \<open>Prelude\<close>: results and options, the string, UTF-8, hexadecimal and list functions of the standard
    library that the code uses, and their laws.
  \<^item> \<open>Win_Path\<close>: Windows paths (prefixes, components, parents, joining).
  \<^item> \<open>Win32\<close>, \<open>Win32_Demo\<close>: the calls, the effects, the laws; the concrete system.
  \<^item> \<open>Safety_Db\<close> (\<^verbatim>\<open>process/safety_db.rs\<close>): the tier tables and the two gates. The kill gate refuses
    exactly the Tier 0 names.
  \<^item> \<open>Services\<close> (\<^verbatim>\<open>process/services.rs\<close>): pausing and restoring; only Tier 3 services are stopped, and
    exactly the paused ones are started again. The wait loop is bounded by the clock law.
  \<^item> \<open>Game_Mode\<close>, \<open>Power_Scheme\<close>, \<open>Audio\<close>, \<open>Network_Adapter\<close> (\<^verbatim>\<open>optimizations/\<close>, \<^verbatim>\<open>network/adapter.rs\<close>,
    \<^verbatim>\<open>qos.rs\<close>, \<^verbatim>\<open>flow_control.rs\<close>): each setting with its restore, GUID text, endpoint values, and the
    validators that keep script inputs to an allow-list.
  \<^item> \<open>Coordinator\<close> (\<^verbatim>\<open>optimizations/mod.rs\<close>): apply and rollback. Applying touches only the documented
    settings; rolling back restores them; a failed apply changes nothing.
  \<^item> \<open>Terminator\<close> (\<^verbatim>\<open>process/terminator.rs\<close>): two-stage termination, the purge (only Tier 2 names),
    relaunching under the user's token.
  \<^item> \<open>Supervisor\<close> (\<^verbatim>\<open>process/supervisor.rs\<close>): the thread as a step function over its control points, with
    arbitrary changes by others between the steps; restoration only after the game has exited; the
    wait returns once an exit condition holds (its loop is a \<open>partial_function\<close>, so returning is proved).
  \<^item> \<open>Snapshot_Model\<close>, \<open>Snapshot_Engine\<close> (\<^verbatim>\<open>shared/models/snapshot.rs\<close>, \<^verbatim>\<open>state/snapshot_engine.rs\<close>): HMAC,
    signing, path validation, key file, atomic save, load, delete. A saved snapshot loads back; a
    loaded one is authentic and its path is contained in the base directory; an edited one is
    rejected unless the hash collides.
  \<^item> \<open>Crash_Recovery\<close> (\<^verbatim>\<open>state/crash_recovery.rs\<close>): recovery acts only on an authentic snapshot, a refused
    one changes nothing but the log, a completed one restores the baseline and removes the snapshot.
  \<^item> \<open>Launcher\<close> (\<^verbatim>\<open>process/valorant_launcher.rs\<close>): finding the client; only a client found on the disk or
    the registered URI is started, under the user's token where there is one.
  \<^item> \<open>Vanguard\<close> (\<^verbatim>\<open>safety/vanguard_check.rs\<close>, \<^verbatim>\<open>shared/hardware/security.rs\<close>): the pre-flight gate is exact.
  \<^item> \<open>Latency_Monitor\<close> (\<^verbatim>\<open>latency/monitor.rs\<close>): the ring buffer and the warning history as instances of one
    contract, the locale \<open>bounded_history\<close>.
  \<^item> \<open>Driver_Isolator\<close> (\<^verbatim>\<open>latency/driver_isolator.rs\<close>): address resolution over the contract
    \<open>sorted_search\<close> of the library's binary search; the statistics refine the history of executions.
  \<^item> \<open>Latency_Session\<close> (\<^verbatim>\<open>latency/etw_session.rs\<close>, \<^verbatim>\<open>latency/report.rs\<close>): the event callback at 64 bits, the
    lock-free counters as a step relation over interleaved threads, the session and its report.
  \<^item> \<open>Host_Info\<close> (\<^verbatim>\<open>shared/hardware/cpu.rs\<close>, \<^verbatim>\<open>network.rs\<close>): the processor records parsed from bytes, hybrid
    detection, the primary adapter.
  \<^item> \<open>System_Manifest\<close> (\<^verbatim>\<open>shared/hardware/\<close>, \<^verbatim>\<open>shared/models/system.rs\<close>, \<^verbatim>\<open>process/memory.rs\<close>): graphics
    adapters and their driver versions, displays, memory, the processor's identification, and the
    manifest, which is well-formed and succeeds exactly when every part does.
  \<^item> \<open>F64\<close>: floating-point numbers. Definitions are over an arbitrary type of numbers with the library
    functions of the record \<open>f64_lib\<close>; the type \<open>xreal\<close> of exact extended reals with a NaN is the
    instance in which numerical results are stated.
  \<^item> \<open>Bench_Stats\<close> (\<^verbatim>\<open>shared/benchmarking/\<close>): metrics, percentiles, the hypothesis tests, the bootstrap and
    the verdict: metrics are the mathematical ones and ordered, the verdict is exact, and the
    Mann-Whitney test returns exactly for finite values.
  \<^item> \<open>Frame_Capture\<close> (\<^verbatim>\<open>benchmarking/frametimes.rs\<close>, \<^verbatim>\<open>etw_capture.rs\<close>, \<^verbatim>\<open>synthetic.rs\<close>): the collector, the
    presentation trace and the generator of frames: captured frames are exactly the plausible
    intervals of the target process, and what becomes of the trace session.
  \<^item> \<open>Ab_Runner\<close> (\<^verbatim>\<open>benchmarking/ab_runner.rs\<close>): the telemetry of the host and both benchmarks, with the
    contract \<open>trial_contract\<close> of a trial; trials alternate, and synthetic ones never claim to be measured.
  \<^item> \<open>Bufferbloat\<close> (\<^verbatim>\<open>network/probe.rs\<close>, \<^verbatim>\<open>bufferbloat.rs\<close>): the probe packet by packet, the report and the
    grade, in their bounds; what one late reply does to the packets after it.
  \<^item> \<open>Ipc_Server\<close> (\<^verbatim>\<open>shared/ipc/mod.rs\<close>, \<^verbatim>\<open>ipc_server.rs\<close>, \<^verbatim>\<open>main.rs\<close>): framing, the request handler that
    composes the components above, client elevation, the server loop over arbitrary sequences of
    clients: what unelevated clients cannot change, who ends the server, that at most one supervisor
    is left running, and the order of a launch.
  \<^item> \<open>Gui_Client\<close> (\<^verbatim>\<open>gui/\<close>): the client end of the pipe with its fallback, the hand-over of a launch, the
    telemetry and the buttons, on one machine with the daemon: what a request over the pipe returns,
    when the client exits, and what a launch without a daemon leaves behind.
  \<^item> \<open>Cli\<close> (\<^verbatim>\<open>cli/main.rs\<close>): the dispatch and the commands: path arguments are confined to the protected
    directory, and every command that is not meant to change anything changes nothing.

  \<^bold>\<open>Bounds.\<close> Loops over lists are structural; the byte parser and the binary search terminate by the
  remaining length; loops that only the system or the data can end (waiting, the ranking of the
  Mann-Whitney test) are \<open>partial_function\<close>s whose termination is a result under the condition that
  ends them. There is no fuel; the continued fraction runs the 200 rounds of the code at most. Word
  arithmetic wraps around, as in the release build; results that need room say so (\<open>room_above\<close>, the
  tick bound). Rounding is not modelled: numerical results hold of exact arithmetic.

  \<^bold>\<open>Not modelled.\<close> The synthetic latency session, which only tests call; the real-time mode of the frame
  generator, a spin loop measured by the performance counter that no part of the program selects; the Markdown rendering of reports and the layout of what the
  command line prints; the echo server and the load threads, which act on the network only and appear
  as the parameters \<open>ie_echo\<close>, \<open>load_begin\<close> and \<open>load_end\<close>; the Slint window beyond the properties the
  handlers set, with its event loop. Logging and the closing of handles have no effect on the state.
\<close>

end
